theory Spec2Isabelle
  imports Main "HOL-Library.Word"
begin

unbundle bit_operations_syntax

section \<open>Machine integers, handles and fatal errors\<close>

text \<open>
  The collector (\<^verbatim>\<open>tools/ze_tracer/ze_kernel_collector.h\<close>) and the profiler
  (\<^verbatim>\<open>tools/oneprof/profiler.h\<close>) compute on \<^verbatim>\<open>uint64_t\<close> and \<^verbatim>\<open>uint32_t\<close>:
  both are words here, so every \<open>+\<close>, \<open>-\<close> and \<open>*\<close> wraps as in C++, \<open>div\<close> is the
  unsigned division and \<open><\<close> the unsigned comparison. Driver handles are opaque
  pointers: a natural number, \<open>0\<close> for \<^verbatim>\<open>nullptr\<close>. A \<^verbatim>\<open>ZeKernelCommand*\<close> is an
  address in the collector's command heap.
\<close>

type_synonym u32 = "32 word"
type_synonym u64 = "64 word"
type_synonym handle = nat
type_synonym cmd_ptr = nat

definition nullptr :: nat where
  "nullptr = 0"

text \<open>
  Modelled from the spec: \<^verbatim>\<open>NSEC_IN_SEC\<close> is a macro of \<^verbatim>\<open>utils.h\<close>, which is not among
  the sources; the spec scales ticks by \<^verbatim>\<open>1e9 / frequency\<close>.
\<close>

definition NSEC_IN_SEC :: u64 where
  "NSEC_IN_SEC = 1000000000"

text \<open>
  Modelled from the spec: \<^verbatim>\<open>PTI_ASSERT\<close> is a macro of \<^verbatim>\<open>pti_assert.h\<close>, which is not
  among the sources; the spec calls a violated assertion a fatal internal error (abort).
  A failed assertion is the value \<open>Inl (PTI_ASSERT e)\<close>, \<open>e\<close> the asserted expression as
  the source writes it. Reading through a freed or out-of-range pointer, undefined in
  C++, is an error value of its own.
\<close>

datatype fatal = PTI_ASSERT string | UNDEFINED_BEHAVIOUR string

datatype ze_result_t = ZE_RESULT_SUCCESS | ZE_RESULT_NOT_READY | ZE_RESULT_ERROR nat

section \<open>The collector's data model\<close>

record ZeKernelProps =
  name :: string
  simd_width :: u64
  bytes_transferred :: u64
  group_count :: "u32 \<times> u32 \<times> u32"
  group_size :: "u32 \<times> u32 \<times> u32"

text \<open>
  Field names that several structs share carry the struct's initial here
  (\<open>cmd_device\<close>, \<open>cmd_call_count\<close>, \<open>iv_start\<close>, ...): a record field is a global constant.
\<close>

record ZeKernelCommand =
  props :: ZeKernelProps
  event_pool :: handle
  event :: handle
  cmd_device :: handle
  kernel_id :: u64
  append_time :: u64
  timer_frequency :: u64
  cmd_call_count :: u64

record ZeKernelCall =
  command :: cmd_ptr
  queue :: handle
  submit_time :: u64
  device_submit_time :: u64
  call_id :: u64

record ZeKernelInfo =
  total_time :: u64
  min_time :: u64
  max_time :: u64
  call_count :: u64

record ZeCommandListInfo =
  kernel_command_list :: "cmd_ptr list"
  cl_context :: handle
  cl_device :: handle
  immediate :: bool

record ZeDeviceInterval =
  iv_start :: u64
  iv_end :: u64
  iv_sub_device_id :: u32

record ZeKernelInterval =
  kernel_name :: string
  iv_device :: handle
  device_interval_list :: "ZeDeviceInterval list"

text \<open>One invocation of the \<^verbatim>\<open>OnZeKernelFinishCallback\<close>, with its arguments.\<close>

record callback_args =
  cb_queue :: handle
  cb_id :: string
  cb_name :: string
  cb_appended :: u64
  cb_submitted :: u64
  cb_started :: u64
  cb_ended :: u64

text \<open>
  The private data of \<^verbatim>\<open>ZeKernelCollector\<close>. \<open>callback\<close> says whether a callback is
  registered; the calls made to it are recorded in \<open>callback_log\<close>. \<open>device_map\<close> is the
  \<^verbatim>\<open>std::map\<close> as its entries in key order (the order \<^verbatim>\<open>AddKernelInterval\<close> iterates in).
  \<open>heap\<close> holds the \<^verbatim>\<open>new ZeKernelCommand\<close> objects; \<open>destroyed\<close> records the events and
  event pools handed to \<^verbatim>\<open>zeEventDestroy\<close> and \<^verbatim>\<open>zeEventPoolDestroy\<close>. A \<^verbatim>\<open>ZeKernelCall*\<close>
  of \<open>kernel_call_list\<close> is owned by the list alone, so the list holds the calls
  themselves and \<^verbatim>\<open>delete call\<close> has nothing left to do. The build is the one of
  \<^verbatim>\<open>tools/oneprof/CMakeLists.txt\<close>, which defines \<^verbatim>\<open>PTI_KERNEL_INTERVALS\<close>. The
  collector's mutex and the \<^verbatim>\<open>Correlator\<close>'s id lists (not among the sources) are
  left out: the model is one thread. Member names lose their trailing underscore
  (\<open>kernel_call_list\<close> is \<^verbatim>\<open>kernel_call_list_\<close>).
\<close>

record collector =
  verbose :: bool
  callback :: bool
  callback_log :: "callback_args list"
  kernel_info_map :: "string \<rightharpoonup> ZeKernelInfo"
  kernel_call_list :: "ZeKernelCall list"
  command_list_map :: "handle \<rightharpoonup> ZeCommandListInfo"
  kernel_interval_list :: "ZeKernelInterval list"
  device_map :: "(handle \<times> handle list) list"
  heap :: "cmd_ptr \<rightharpoonup> ZeKernelCommand"
  destroyed :: "handle list"

text \<open>
  The driver entry points the collector calls. Within one collector operation the
  driver's answers are a function of the handle.
\<close>

record ze_driver =
  zeEventQueryStatus :: "handle \<Rightarrow> ze_result_t"
  zeEventQueryKernelTimestamp :: "handle \<Rightarrow> ze_result_t \<times> u64 \<times> u64"
  zeEventDestroy :: "handle \<Rightarrow> ze_result_t"
  zeEventPoolDestroy :: "handle \<Rightarrow> ze_result_t"

section \<open>Names\<close>

text \<open>Decimal output of an unsigned number, as \<^verbatim>\<open>operator<<\<close> and \<^verbatim>\<open>std::to_string\<close> print it.\<close>

definition digit_char :: "nat \<Rightarrow> char" where
  "digit_char d = ''0123456789'' ! d"

fun to_string :: "nat \<Rightarrow> string" where
  "to_string n =
     (if n < 10 then [digit_char n]
      else to_string (n div 10) @ [digit_char (n mod 10)])"

declare to_string.simps [simp del]

definition GetVerboseName :: "string \<Rightarrow> ZeKernelProps \<Rightarrow> fatal + string" where
  "GetVerboseName nm p =
     (if nm = [] then Inl (PTI_ASSERT ''!name.empty()'')
      else if simd_width p > 0 then
        (case (group_count p, group_size p) of ((c0, c1, c2), (s0, s1, s2)) \<Rightarrow>
          Inr (nm @ ''[SIMD'' @ to_string (unat (simd_width p)) @ '' {'' @
            to_string (unat c0) @ ''; '' @ to_string (unat c1) @ ''; '' @
            to_string (unat c2) @ ''} {'' @
            to_string (unat s0) @ ''; '' @ to_string (unat s1) @ ''; '' @
            to_string (unat s2) @ ''}]''))
      else if bytes_transferred p > 0 then
        Inr (nm @ ''['' @ to_string (unat (bytes_transferred p)) @ '' bytes]'')
      else Inr nm)"

section \<open>KernelInfo\<close>

definition AddKernelInfo :: "u64 \<Rightarrow> ZeKernelProps \<Rightarrow> collector \<Rightarrow> fatal + collector" where
  "AddKernelInfo time p s =
     (if name p = [] then Inl (PTI_ASSERT ''!name.empty()'')
      else
        case (if verbose s then GetVerboseName (name p) p else Inr (name p)) of
          Inl e \<Rightarrow> Inl e
        | Inr nm \<Rightarrow>
            (case kernel_info_map s nm of
               None \<Rightarrow>
                 Inr (s\<lparr>kernel_info_map := (kernel_info_map s)(nm \<mapsto>
                   \<lparr>total_time = time, min_time = time, max_time = time, call_count = 1\<rparr>)\<rparr>)
             | Some k0 \<Rightarrow>
                 let k1 = k0\<lparr>total_time := total_time k0 + time\<rparr>;
                     k2 = (if time > max_time k1 then k1\<lparr>max_time := time\<rparr> else k1);
                     k3 = (if time < min_time k2 then k2\<lparr>min_time := time\<rparr> else k2);
                     k4 = k3\<lparr>call_count := call_count k3 + 1\<rparr>
                 in Inr (s\<lparr>kernel_info_map := (kernel_info_map s)(nm \<mapsto> k4)\<rparr>)))"

section \<open>Finalization of a call\<close>

text \<open>
  The conversion of a pair of device ticks into nanoseconds, which \<^verbatim>\<open>ProcessCall\<close>
  (lines 467-474) and both branches of \<^verbatim>\<open>AddKernelInterval\<close> (lines 604-611 and
  636-643) write out in the same words.
\<close>

definition kernel_duration :: "u64 \<Rightarrow> u64 \<Rightarrow> u64 \<Rightarrow> u64" where
  "kernel_duration start end freq =
     (if start < end then (end - start) * NSEC_IN_SEC div freq
      else (push_bit 32 1 + end - start) * NSEC_IN_SEC div freq)"

text \<open>Reading \<^verbatim>\<open>call->command\<close>: the pointer is asserted non-null, then dereferenced.\<close>

definition deref :: "collector \<Rightarrow> cmd_ptr \<Rightarrow> fatal + ZeKernelCommand" where
  "deref s p =
     (if p = nullptr then Inl (PTI_ASSERT ''command != nullptr'')
      else case heap s p of
             None \<Rightarrow> Inl (UNDEFINED_BEHAVIOUR ''use of a freed ZeKernelCommand'')
           | Some c \<Rightarrow> Inr c)"

text \<open>The loop of the implicit-scaling branch: one slice per index of the sub-device list.\<close>

fun scaling_slices :: "u64 \<Rightarrow> u64 \<Rightarrow> nat list \<Rightarrow> fatal + ZeDeviceInterval list" where
  "scaling_slices start_ns end_ns [] = Inr []"
| "scaling_slices start_ns end_ns (i # is) =
     (if \<not> i < 2 ^ 32 - 1
      then Inl (PTI_ASSERT ''i < (std::numeric_limits<uint32_t>::max)()'')
      else case scaling_slices start_ns end_ns is of
             Inl e \<Rightarrow> Inl e
           | Inr r \<Rightarrow>
               Inr (\<lparr>iv_start = start_ns, iv_end = end_ns, iv_sub_device_id = of_nat i\<rparr> # r))"

text \<open>The first index at which a sub-device list holds the device.\<close>

fun sub_device_index :: "handle list \<Rightarrow> handle \<Rightarrow> nat \<Rightarrow> nat option" where
  "sub_device_index [] d i = None"
| "sub_device_index (x # xs) d i = (if x = d then Some i else sub_device_index xs d (Suc i))"

text \<open>
  The search of the sub-device branch: the entries of the device map in order, each
  sub-device list from its start; the first hit appends the interval and returns.
\<close>

fun sub_device_interval ::
  "(handle \<times> handle list) list \<Rightarrow> handle \<Rightarrow> string \<Rightarrow> u64 \<Rightarrow> u64 \<Rightarrow> fatal + ZeKernelInterval"
where
  "sub_device_interval [] d nm start_ns end_ns = Inl (PTI_ASSERT ''0'')"
| "sub_device_interval ((dev, subs) # rest) d nm start_ns end_ns =
     (case sub_device_index subs d 0 of
        None \<Rightarrow> sub_device_interval rest d nm start_ns end_ns
      | Some i \<Rightarrow>
          if \<not> i < 2 ^ 32 - 1
          then Inl (PTI_ASSERT ''i < (std::numeric_limits<uint32_t>::max)()'')
          else Inr \<lparr>kernel_name = nm, iv_device = dev, device_interval_list =
                 [\<lparr>iv_start = start_ns, iv_end = end_ns, iv_sub_device_id = of_nat i\<rparr>]\<rparr>)"

text \<open>
  \<^verbatim>\<open>AddKernelInterval\<close>. Its two branches on the device map (implicit and explicit
  scaling) begin with the same timestamp query, conversion and assertion (lines 595-616
  and 627-648), written once here, before the branch.
\<close>

definition AddKernelInterval ::
  "ze_driver \<Rightarrow> ZeKernelCommand \<Rightarrow> collector \<Rightarrow> fatal + collector"
where
  "AddKernelInterval drv cmd s =
     (if name (props cmd) = [] then Inl (PTI_ASSERT ''!name.empty()'')
      else
        case (if verbose s then GetVerboseName (name (props cmd)) (props cmd)
              else Inr (name (props cmd))) of
          Inl e \<Rightarrow> Inl e
        | Inr nm \<Rightarrow>
            if zeEventQueryStatus drv (event cmd) \<noteq> ZE_RESULT_SUCCESS
            then Inl (PTI_ASSERT ''status == ZE_RESULT_SUCCESS'')
            else
              (case zeEventQueryKernelTimestamp drv (event cmd) of
                 (status, start, end) \<Rightarrow>
                   if status \<noteq> ZE_RESULT_SUCCESS
                   then Inl (PTI_ASSERT ''status == ZE_RESULT_SUCCESS'')
                   else
                     let freq = timer_frequency cmd in
                     if \<not> freq > 0 then Inl (PTI_ASSERT ''freq > 0'')
                     else
                       let duration = kernel_duration start end freq;
                           start_ns = start * NSEC_IN_SEC div freq;
                           end_ns = start_ns + duration
                       in
                       if \<not> start_ns < end_ns then Inl (PTI_ASSERT ''start_ns < end_ns'')
                       else
                         (case map_of (device_map s) (cmd_device cmd) of
                            Some (x # xs) \<Rightarrow>
                              (case scaling_slices start_ns end_ns [0..<length (x # xs)] of
                                 Inl e \<Rightarrow> Inl e
                               | Inr slices \<Rightarrow>
                                   Inr (s\<lparr>kernel_interval_list := kernel_interval_list s @
                                     [\<lparr>kernel_name = nm, iv_device = cmd_device cmd,
                                       device_interval_list = slices\<rparr>]\<rparr>))
                          | None \<Rightarrow>
                              (case sub_device_interval (device_map s) (cmd_device cmd) nm
                                      start_ns end_ns of
                                 Inl e \<Rightarrow> Inl e
                               | Inr kernel_interval \<Rightarrow>
                                   Inr (s\<lparr>kernel_interval_list :=
                                     kernel_interval_list s @ [kernel_interval]\<rparr>))
                          | Some [] \<Rightarrow>
                              Inr (s\<lparr>kernel_interval_list := kernel_interval_list s @
                                [\<lparr>kernel_name = nm, iv_device = cmd_device cmd,
                                  device_interval_list =
                                    [\<lparr>iv_start = start_ns, iv_end = end_ns,
                                      iv_sub_device_id = 0\<rparr>]\<rparr>]\<rparr>))))"

text \<open>
  \<^verbatim>\<open>ProcessCall(const ZeKernelCall*)\<close>. The callback's id is
  \<^verbatim>\<open>std::to_string(kernel_id) + "." + std::to_string(call_id)\<close>.
\<close>

definition ProcessCall :: "ze_driver \<Rightarrow> ZeKernelCall \<Rightarrow> collector \<Rightarrow> fatal + collector" where
  "ProcessCall drv call s =
     (case deref s (command call) of
        Inl e \<Rightarrow> Inl e
      | Inr cmd \<Rightarrow>
          if zeEventQueryStatus drv (event cmd) \<noteq> ZE_RESULT_SUCCESS
          then Inl (PTI_ASSERT ''status == ZE_RESULT_SUCCESS'')
          else
            (case zeEventQueryKernelTimestamp drv (event cmd) of
               (status, start, end) \<Rightarrow>
                 if status \<noteq> ZE_RESULT_SUCCESS
                 then Inl (PTI_ASSERT ''status == ZE_RESULT_SUCCESS'')
                 else
                   let freq = timer_frequency cmd in
                   if \<not> freq > 0 then Inl (PTI_ASSERT ''freq > 0'')
                   else
                     let duration = kernel_duration start end freq in
                     if \<not> submit_time call > 0
                     then Inl (PTI_ASSERT ''call->submit_time > 0'')
                     else if \<not> device_submit_time call > 0
                     then Inl (PTI_ASSERT ''call->device_submit_time > 0'')
                     else if \<not> start > device_submit_time call
                     then Inl (PTI_ASSERT ''start > call->device_submit_time'')
                     else
                       let time_shift =
                             (start - device_submit_time call) * NSEC_IN_SEC div freq;
                           host_start = submit_time call + time_shift;
                           host_end = host_start + duration
                       in
                       (case AddKernelInfo (host_end - host_start) (props cmd) s of
                          Inl e \<Rightarrow> Inl e
                        | Inr s1 \<Rightarrow>
                            (case AddKernelInterval drv cmd s1 of
                               Inl e \<Rightarrow> Inl e
                             | Inr s2 \<Rightarrow>
                                 if callback s2 then
                                   if \<not> append_time cmd > 0
                                   then Inl (PTI_ASSERT ''command->append_time > 0'')
                                   else if \<not> append_time cmd \<le> submit_time call
                                   then Inl (PTI_ASSERT
                                     ''command->append_time <= call->submit_time'')
                                   else if queue call = nullptr
                                   then Inl (PTI_ASSERT ''call->queue != nullptr'')
                                   else if name (props cmd) = []
                                   then Inl (PTI_ASSERT ''!command->props.name.empty()'')
                                   else
                                     Inr (s2\<lparr>callback_log := callback_log s2 @
                                       [\<lparr>cb_queue = queue call,
                                         cb_id = to_string (unat (kernel_id cmd)) @ ''.'' @
                                           to_string (unat (call_id call)),
                                         cb_name = name (props cmd),
                                         cb_appended = append_time cmd,
                                         cb_submitted = submit_time call,
                                         cb_started = host_start,
                                         cb_ended = host_end\<rparr>]\<rparr>)
                                 else Inr s2))))"

section \<open>The completion tracker\<close>

text \<open>
  The loop of \<^verbatim>\<open>ProcessCall(ze_event_handle_t)\<close>: \<open>done\<close> are the calls the iterator has
  passed, the list argument the calls from the iterator on.
\<close>

fun ProcessCall_event_loop ::
  "ze_driver \<Rightarrow> handle \<Rightarrow> ZeKernelCall list \<Rightarrow> ZeKernelCall list \<Rightarrow> collector
   \<Rightarrow> fatal + collector"
where
  "ProcessCall_event_loop drv ev done [] s = Inr s"
| "ProcessCall_event_loop drv ev done (call # rest) s =
     (case deref s (command call) of
        Inl e \<Rightarrow> Inl e
      | Inr cmd \<Rightarrow>
          if event cmd = ev then
            (case ProcessCall drv call s of
               Inl e \<Rightarrow> Inl e
             | Inr s1 \<Rightarrow> Inr (s1\<lparr>kernel_call_list := done @ rest\<rparr>))
          else ProcessCall_event_loop drv ev (done @ [call]) rest s)"

definition ProcessCall_event :: "ze_driver \<Rightarrow> handle \<Rightarrow> collector \<Rightarrow> fatal + collector" where
  "ProcessCall_event drv ev s =
     (if ev = nullptr then Inl (PTI_ASSERT ''event != nullptr'')
      else if zeEventQueryStatus drv ev \<noteq> ZE_RESULT_SUCCESS then Inr s
      else ProcessCall_event_loop drv ev [] (kernel_call_list s) s)"

text \<open>
  The loop of \<^verbatim>\<open>ProcessCalls\<close>: \<open>done\<close> are the calls the iterator has passed and left
  in the list, the list argument the calls from the iterator on.
\<close>

fun ProcessCalls_loop ::
  "ze_driver \<Rightarrow> ZeKernelCall list \<Rightarrow> ZeKernelCall list \<Rightarrow> collector \<Rightarrow> fatal + collector"
where
  "ProcessCalls_loop drv done [] s = Inr s"
| "ProcessCalls_loop drv done (call # rest) s =
     (case deref s (command call) of
        Inl e \<Rightarrow> Inl e
      | Inr cmd \<Rightarrow>
          if event cmd = nullptr then Inl (PTI_ASSERT ''command->event != nullptr'')
          else
            (case zeEventQueryStatus drv (event cmd) of
               ZE_RESULT_NOT_READY \<Rightarrow> ProcessCalls_loop drv (done @ [call]) rest s
             | ZE_RESULT_SUCCESS \<Rightarrow>
                 (case ProcessCall drv call s of
                    Inl e \<Rightarrow> Inl e
                  | Inr s1 \<Rightarrow>
                      ProcessCalls_loop drv done rest (s1\<lparr>kernel_call_list := done @ rest\<rparr>))
             | ZE_RESULT_ERROR n \<Rightarrow> Inl (PTI_ASSERT ''0'')))"

definition ProcessCalls :: "ze_driver \<Rightarrow> collector \<Rightarrow> fatal + collector" where
  "ProcessCalls drv s = ProcessCalls_loop drv [] (kernel_call_list s) s"

section \<open>Removing the commands of a command list\<close>

text \<open>The loop of \<^verbatim>\<open>RemoveKernelCommands\<close> over \<^verbatim>\<open>info.kernel_command_list\<close>.\<close>

fun remove_commands :: "ze_driver \<Rightarrow> cmd_ptr list \<Rightarrow> collector \<Rightarrow> fatal + collector" where
  "remove_commands drv [] s = Inr s"
| "remove_commands drv (p # ps) s =
     (case heap s p of
        None \<Rightarrow> Inl (UNDEFINED_BEHAVIOUR ''use of a freed ZeKernelCommand'')
      | Some cmd \<Rightarrow>
          (case (if event_pool cmd \<noteq> nullptr then
                   if zeEventDestroy drv (event cmd) \<noteq> ZE_RESULT_SUCCESS
                   then Inl (PTI_ASSERT ''status == ZE_RESULT_SUCCESS'')
                   else if zeEventPoolDestroy drv (event_pool cmd) \<noteq> ZE_RESULT_SUCCESS
                   then Inl (PTI_ASSERT ''status == ZE_RESULT_SUCCESS'')
                   else Inr (s\<lparr>destroyed := destroyed s @ [event cmd, event_pool cmd]\<rparr>)
                 else Inr s) of
             Inl e \<Rightarrow> Inl e
           | Inr s1 \<Rightarrow>
               if list_ex (\<lambda>call. command call = p) (kernel_call_list s1)
               then Inl (PTI_ASSERT ''call->command != command'')
               else remove_commands drv ps (s1\<lparr>heap := (heap s1)(p := None)\<rparr>)))"

definition RemoveKernelCommands :: "ze_driver \<Rightarrow> handle \<Rightarrow> collector \<Rightarrow> fatal + collector" where
  "RemoveKernelCommands drv command_list s =
     (if command_list = nullptr then Inl (PTI_ASSERT ''command_list != nullptr'')
      else case command_list_map s command_list of
             None \<Rightarrow> Inl (PTI_ASSERT ''command_list_map_.count(command_list) == 1'')
           | Some info \<Rightarrow>
               (case remove_commands drv (kernel_command_list info) s of
                  Inl e \<Rightarrow> Inl e
                | Inr s1 \<Rightarrow>
                    Inr (s1\<lparr>command_list_map := (command_list_map s1)(command_list \<mapsto>
                      info\<lparr>kernel_command_list := []\<rparr>)\<rparr>)))"

definition RemoveCommandList :: "ze_driver \<Rightarrow> handle \<Rightarrow> collector \<Rightarrow> fatal + collector" where
  "RemoveCommandList drv command_list s =
     (if command_list = nullptr then Inl (PTI_ASSERT ''command_list != nullptr'')
      else case RemoveKernelCommands drv command_list s of
             Inl e \<Rightarrow> Inl e
           | Inr s1 \<Rightarrow> Inr (s1\<lparr>command_list_map := (command_list_map s1)(command_list := None)\<rparr>))"

definition ResetCommandList :: "ze_driver \<Rightarrow> handle \<Rightarrow> collector \<Rightarrow> fatal + collector" where
  "ResetCommandList drv command_list s =
     (if command_list = nullptr then Inl (PTI_ASSERT ''command_list != nullptr'')
      else RemoveKernelCommands drv command_list s)"

definition OnExitCommandListDestroy ::
  "ze_driver \<Rightarrow> handle \<Rightarrow> ze_result_t \<Rightarrow> collector \<Rightarrow> fatal + collector"
where
  "OnExitCommandListDestroy drv command_list result s =
     (if result = ZE_RESULT_SUCCESS then
        if command_list = nullptr then Inl (PTI_ASSERT ''*params->phCommandList != nullptr'')
        else case ProcessCalls drv s of
               Inl e \<Rightarrow> Inl e
             | Inr s1 \<Rightarrow> RemoveCommandList drv command_list s1
      else Inr s)"

definition OnExitCommandListReset ::
  "ze_driver \<Rightarrow> handle \<Rightarrow> ze_result_t \<Rightarrow> collector \<Rightarrow> fatal + collector"
where
  "OnExitCommandListReset drv command_list result s =
     (if result = ZE_RESULT_SUCCESS then
        if command_list = nullptr then Inl (PTI_ASSERT ''*params->phCommandList != nullptr'')
        else case ProcessCalls drv s of
               Inl e \<Rightarrow> Inl e
             | Inr s1 \<Rightarrow> ResetCommandList drv command_list s1
      else Inr s)"

section \<open>The metrics aggregator\<close>

text \<open>
  \<^verbatim>\<open>zet_typed_value_t\<close> is a tag and a union; every read of the source follows an
  assertion on the tag, so a typed value is a datatype. Floating-point cells are
  values of two undefined types; the operations on them are the parameter \<open>fp\<close> of the
  functions that compute with them (\<^verbatim>\<open>float * uint64_t\<close> converts the integer to
  \<^verbatim>\<open>float\<close>, \<^verbatim>\<open>double += float\<close> converts the float to \<^verbatim>\<open>double\<close>,
  \<^verbatim>\<open>double /= uint64_t\<close> converts the integer to \<^verbatim>\<open>double\<close>).
\<close>

typedecl fp32
typedecl fp64

record fp_ops =
  fp64_zero :: fp64
  fp64_add :: "fp64 \<Rightarrow> fp64 \<Rightarrow> fp64"
  fp64_mul :: "fp64 \<Rightarrow> fp64 \<Rightarrow> fp64"
  fp64_div :: "fp64 \<Rightarrow> fp64 \<Rightarrow> fp64"
  fp32_mul :: "fp32 \<Rightarrow> fp32 \<Rightarrow> fp32"
  fp32_of_u64 :: "u64 \<Rightarrow> fp32"
  fp64_of_u64 :: "u64 \<Rightarrow> fp64"
  fp64_of_fp32 :: "fp32 \<Rightarrow> fp64"

datatype zet_typed_value_t =
  UINT32 u32 | UINT64 u64 | FLOAT32 fp32 | FLOAT64 fp64 | BOOL8 bool

datatype zet_metric_type_t =
    ZET_METRIC_TYPE_DURATION
  | ZET_METRIC_TYPE_EVENT
  | ZET_METRIC_TYPE_EVENT_WITH_RANGE
  | ZET_METRIC_TYPE_THROUGHPUT
  | ZET_METRIC_TYPE_TIMESTAMP
  | ZET_METRIC_TYPE_FLAG
  | ZET_METRIC_TYPE_RATIO
  | ZET_METRIC_TYPE_RAW
  | ZET_METRIC_TYPE_OTHER nat

text \<open>
  Modelled from the spec: \<^verbatim>\<open>MetricCollector\<close> (\<^verbatim>\<open>metric_collector.h\<close>) is not among the
  sources. The spec: the reports of a sub-device are an ordered sequence of fixed-width
  records, read in batches. \<open>report_chunks\<close> are the batches that the calls of
  \<^verbatim>\<open>GetReportChunk\<close> return after \<^verbatim>\<open>ResetReportReader\<close>; past the last one the reader
  returns an empty batch. Sizes and indices are natural numbers (vectors below \<open>2^32\<close>
  cells, so that the \<^verbatim>\<open>uint32_t\<close> and \<^verbatim>\<open>int\<close> counters of the source hold them).
\<close>

record MetricCollector =
  GetReportSize :: "nat \<Rightarrow> nat"
  GetMetricList :: "nat \<Rightarrow> string list"
  GetMetricTypeList :: "nat \<Rightarrow> zet_metric_type_t list"
  report_chunks :: "nat \<Rightarrow> zet_typed_value_t list list"

record Profiler =
  metric_collector :: "MetricCollector option"
  sub_device_count :: nat

text \<open>A read \<^verbatim>\<open>p[i]\<close> where no assertion of the source bounds \<open>i\<close>.\<close>

definition vector_at :: "'a list \<Rightarrow> nat \<Rightarrow> fatal + 'a" where
  "vector_at xs i =
     (if i < length xs then Inr (xs ! i)
      else Inl (UNDEFINED_BEHAVIOUR ''read past the end of a vector''))"

text \<open>A \<^verbatim>\<open>for\<close> loop over indices that threads a value and stops at a failed assertion.\<close>

fun for_indices :: "(nat \<Rightarrow> 'a \<Rightarrow> fatal + 'a) \<Rightarrow> nat list \<Rightarrow> 'a \<Rightarrow> fatal + 'a" where
  "for_indices body [] acc = Inr acc"
| "for_indices body (j # js) acc =
     (case body j acc of Inl e \<Rightarrow> Inl e | Inr acc' \<Rightarrow> for_indices body js acc')"

text \<open>The inner loop of \<^verbatim>\<open>GetMetricInterval\<close> over the reports of one batch.\<close>

definition collect_report ::
  "u64 \<Rightarrow> u64 \<Rightarrow> nat \<Rightarrow> nat \<Rightarrow> zet_typed_value_t list \<Rightarrow> nat \<Rightarrow> zet_typed_value_t list
   \<Rightarrow> fatal + zet_typed_value_t list"
where
  "collect_report start end report_time_id report_size report_chunk i target_list =
     (case vector_at report_chunk (i * report_size + report_time_id) of
        Inl e \<Rightarrow> Inl e
      | Inr (UINT64 t) \<Rightarrow>
          if t \<ge> start \<and> t \<le> end
          then Inr (target_list @ take report_size (drop (i * report_size) report_chunk))
          else Inr target_list
      | Inr _ \<Rightarrow> Inl (PTI_ASSERT ''report_time.type == ZET_VALUE_TYPE_UINT64''))"

text \<open>The \<^verbatim>\<open>while (true)\<close> loop of \<^verbatim>\<open>GetMetricInterval\<close> over the batches.\<close>

fun scan_chunks ::
  "u64 \<Rightarrow> u64 \<Rightarrow> nat \<Rightarrow> nat \<Rightarrow> zet_typed_value_t list list \<Rightarrow> zet_typed_value_t list
   \<Rightarrow> fatal + zet_typed_value_t list"
where
  "scan_chunks start end report_time_id report_size [] target_list = Inr target_list"
| "scan_chunks start end report_time_id report_size (report_chunk # rest) target_list =
     (if report_chunk = [] then Inr target_list
      else
        let report_count = length report_chunk div report_size in
        if report_count * report_size \<noteq> length report_chunk
        then Inl (PTI_ASSERT ''report_count * report_size == report_chunk.size()'')
        else
          case vector_at report_chunk report_time_id of
            Inl e \<Rightarrow> Inl e
          | Inr (UINT64 first_time) \<Rightarrow>
              if first_time > end
              then scan_chunks start end report_time_id report_size rest target_list
              else
                (case vector_at report_chunk
                        ((report_count - 1) * report_size + report_time_id) of
                   Inl e \<Rightarrow> Inl e
                 | Inr (UINT64 last_time) \<Rightarrow>
                     if last_time < start
                     then scan_chunks start end report_time_id report_size rest target_list
                     else
                       (case for_indices
                               (collect_report start end report_time_id report_size
                                  report_chunk)
                               [0..<report_count] target_list of
                          Inl e \<Rightarrow> Inl e
                        | Inr t \<Rightarrow> scan_chunks start end report_time_id report_size rest t)
                 | Inr _ \<Rightarrow>
                     Inl (PTI_ASSERT
                       ''last_report[report_time_id].type == ZET_VALUE_TYPE_UINT64''))
          | Inr _ \<Rightarrow>
              Inl (PTI_ASSERT
                ''first_report[report_time_id].type == ZET_VALUE_TYPE_UINT64''))"

definition GetMetricInterval ::
  "Profiler \<Rightarrow> u64 \<Rightarrow> u64 \<Rightarrow> nat \<Rightarrow> nat \<Rightarrow> fatal + zet_typed_value_t list"
where
  "GetMetricInterval pr start end sub_device_id report_time_id =
     (if \<not> start < end then Inl (PTI_ASSERT ''start < end'')
      else if \<not> sub_device_id < sub_device_count pr
      then Inl (PTI_ASSERT ''sub_device_id < sub_device_count_'')
      else
        case metric_collector pr of
          None \<Rightarrow> Inl (PTI_ASSERT ''metric_collector_ != nullptr'')
        | Some mc \<Rightarrow>
            let report_size = GetReportSize mc sub_device_id in
            if \<not> report_size > 0 then Inl (PTI_ASSERT ''report_size > 0'')
            else scan_chunks start end report_time_id report_size
                   (report_chunks mc sub_device_id) [])"

text \<open>
  \<^verbatim>\<open>ComputeAverageValue\<close>: the four cases of the switch on the type of the first
  report's cell.
\<close>

definition ComputeAverageValue ::
  "fp_ops \<Rightarrow> nat \<Rightarrow> zet_typed_value_t list \<Rightarrow> nat \<Rightarrow> u64 \<Rightarrow> nat \<Rightarrow> fatal + zet_typed_value_t"
where
  "ComputeAverageValue fp metric_id report_list report_size total_clocks gpu_clocks_id =
     (if \<not> length report_list > 0 then Inl (PTI_ASSERT ''report_list.size() > 0'')
      else if \<not> report_size > 0 then Inl (PTI_ASSERT ''report_size > 0'')
      else if \<not> metric_id < report_size then Inl (PTI_ASSERT ''metric_id < report_size'')
      else if \<not> gpu_clocks_id < report_size
      then Inl (PTI_ASSERT ''gpu_clocks_id < report_size'')
      else if \<not> total_clocks > 0 then Inl (PTI_ASSERT ''total_clocks > 0'')
      else
        let report_count = length report_list div report_size in
        if report_count * report_size \<noteq> length report_list
        then Inl (PTI_ASSERT ''report_count * report_size == report_list.size()'')
        else
          case report_list ! metric_id of
            UINT32 _ \<Rightarrow>
              (case for_indices
                      (\<lambda>j tot.
                         case report_list ! (j * report_size + metric_id) of
                           UINT32 v \<Rightarrow>
                             (case report_list ! (j * report_size + gpu_clocks_id) of
                                UINT64 c \<Rightarrow> Inr (tot + ucast v * c)
                              | _ \<Rightarrow> Inl (PTI_ASSERT ''clocks.type == ZET_VALUE_TYPE_UINT64''))
                         | _ \<Rightarrow> Inl (PTI_ASSERT ''value.type == ZET_VALUE_TYPE_UINT32''))
                      [0..<report_count] 0 of
                 Inl e \<Rightarrow> Inl e
               | Inr tot \<Rightarrow> Inr (UINT64 (tot div total_clocks)))
          | UINT64 _ \<Rightarrow>
              (case for_indices
                      (\<lambda>j tot.
                         case report_list ! (j * report_size + metric_id) of
                           UINT64 v \<Rightarrow>
                             (case report_list ! (j * report_size + gpu_clocks_id) of
                                UINT64 c \<Rightarrow> Inr (tot + v * c)
                              | _ \<Rightarrow> Inl (PTI_ASSERT ''clocks.type == ZET_VALUE_TYPE_UINT64''))
                         | _ \<Rightarrow> Inl (PTI_ASSERT ''value.type == ZET_VALUE_TYPE_UINT64''))
                      [0..<report_count] 0 of
                 Inl e \<Rightarrow> Inl e
               | Inr tot \<Rightarrow> Inr (UINT64 (tot div total_clocks)))
          | FLOAT32 _ \<Rightarrow>
              (case for_indices
                      (\<lambda>j tot.
                         case report_list ! (j * report_size + metric_id) of
                           FLOAT32 v \<Rightarrow>
                             (case report_list ! (j * report_size + gpu_clocks_id) of
                                UINT64 c \<Rightarrow>
                                  Inr (fp64_add fp tot
                                    (fp64_of_fp32 fp (fp32_mul fp v (fp32_of_u64 fp c))))
                              | _ \<Rightarrow> Inl (PTI_ASSERT ''clocks.type == ZET_VALUE_TYPE_UINT64''))
                         | _ \<Rightarrow> Inl (PTI_ASSERT ''value.type == ZET_VALUE_TYPE_FLOAT32''))
                      [0..<report_count] (fp64_zero fp) of
                 Inl e \<Rightarrow> Inl e
               | Inr tot \<Rightarrow>
                   Inr (FLOAT64 (fp64_div fp tot (fp64_of_u64 fp total_clocks))))
          | FLOAT64 _ \<Rightarrow>
              (case for_indices
                      (\<lambda>j tot.
                         case report_list ! (j * report_size + metric_id) of
                           FLOAT64 v \<Rightarrow>
                             (case report_list ! (j * report_size + gpu_clocks_id) of
                                UINT64 c \<Rightarrow>
                                  Inr (fp64_add fp tot
                                    (fp64_mul fp v (fp64_of_u64 fp c)))
                              | _ \<Rightarrow> Inl (PTI_ASSERT ''clocks.type == ZET_VALUE_TYPE_UINT64''))
                         | _ \<Rightarrow> Inl (PTI_ASSERT ''value.type == ZET_VALUE_TYPE_FLOAT64''))
                      [0..<report_count] (fp64_zero fp) of
                 Inl e \<Rightarrow> Inl e
               | Inr tot \<Rightarrow>
                   Inr (FLOAT64 (fp64_div fp tot (fp64_of_u64 fp total_clocks))))
          | BOOL8 _ \<Rightarrow> Inl (PTI_ASSERT ''0''))"

definition ComputeTotalValue ::
  "fp_ops \<Rightarrow> nat \<Rightarrow> zet_typed_value_t list \<Rightarrow> nat \<Rightarrow> fatal + zet_typed_value_t"
where
  "ComputeTotalValue fp metric_id report_list report_size =
     (if \<not> length report_list > 0 then Inl (PTI_ASSERT ''report_list.size() > 0'')
      else if \<not> report_size > 0 then Inl (PTI_ASSERT ''report_size > 0'')
      else if \<not> metric_id < report_size then Inl (PTI_ASSERT ''metric_id < report_size'')
      else
        let report_count = length report_list div report_size in
        if report_count * report_size \<noteq> length report_list
        then Inl (PTI_ASSERT ''report_count * report_size == report_list.size()'')
        else
          case report_list ! metric_id of
            UINT32 _ \<Rightarrow>
              (case for_indices
                      (\<lambda>j tot.
                         case report_list ! (j * report_size + metric_id) of
                           UINT32 v \<Rightarrow> Inr (tot + ucast v)
                         | _ \<Rightarrow> Inl (PTI_ASSERT ''value.type == ZET_VALUE_TYPE_UINT32''))
                      [0..<report_count] 0 of
                 Inl e \<Rightarrow> Inl e
               | Inr tot \<Rightarrow> Inr (UINT64 tot))
          | UINT64 _ \<Rightarrow>
              (case for_indices
                      (\<lambda>j tot.
                         case report_list ! (j * report_size + metric_id) of
                           UINT64 v \<Rightarrow> Inr (tot + v)
                         | _ \<Rightarrow> Inl (PTI_ASSERT ''value.type == ZET_VALUE_TYPE_UINT64''))
                      [0..<report_count] 0 of
                 Inl e \<Rightarrow> Inl e
               | Inr tot \<Rightarrow> Inr (UINT64 tot))
          | FLOAT32 _ \<Rightarrow>
              (case for_indices
                      (\<lambda>j tot.
                         case report_list ! (j * report_size + metric_id) of
                           FLOAT32 v \<Rightarrow> Inr (fp64_add fp tot (fp64_of_fp32 fp v))
                         | _ \<Rightarrow> Inl (PTI_ASSERT ''value.type == ZET_VALUE_TYPE_FLOAT32''))
                      [0..<report_count] (fp64_zero fp) of
                 Inl e \<Rightarrow> Inl e
               | Inr tot \<Rightarrow> Inr (FLOAT64 tot))
          | FLOAT64 _ \<Rightarrow>
              (case for_indices
                      (\<lambda>j tot.
                         case report_list ! (j * report_size + metric_id) of
                           FLOAT64 v \<Rightarrow> Inr (fp64_add fp tot v)
                         | _ \<Rightarrow> Inl (PTI_ASSERT ''value.type == ZET_VALUE_TYPE_FLOAT64''))
                      [0..<report_count] (fp64_zero fp) of
                 Inl e \<Rightarrow> Inl e
               | Inr tot \<Rightarrow> Inr (FLOAT64 tot))
          | BOOL8 _ \<Rightarrow> Inl (PTI_ASSERT ''0''))"

text \<open>
  The body of the column loop of \<^verbatim>\<open>GetAggregatedMetrics\<close>: the value stored in
  \<^verbatim>\<open>aggregated_report[i]\<close>, or \<open>None\<close> where the source stores nothing.
\<close>

definition aggregate_column ::
  "fp_ops \<Rightarrow> string list \<Rightarrow> zet_metric_type_t list \<Rightarrow> zet_typed_value_t list \<Rightarrow> nat \<Rightarrow> u64
   \<Rightarrow> nat \<Rightarrow> nat \<Rightarrow> fatal + zet_typed_value_t option"
where
  "aggregate_column fp metric_list metric_type_list report_list report_size total_clocks
     gpu_clocks_id i =
     (if metric_list ! i = ''GpuTime'' then
        map_sum id Some (ComputeTotalValue fp i report_list report_size)
      else if metric_list ! i = ''AvgGpuCoreFrequencyMHz'' then
        map_sum id Some
          (ComputeAverageValue fp i report_list report_size total_clocks gpu_clocks_id)
      else if metric_list ! i = ''ReportReason'' then Inr (Some (report_list ! i))
      else
        case metric_type_list ! i of
          ZET_METRIC_TYPE_DURATION \<Rightarrow>
            map_sum id Some
              (ComputeAverageValue fp i report_list report_size total_clocks gpu_clocks_id)
        | ZET_METRIC_TYPE_RATIO \<Rightarrow>
            map_sum id Some
              (ComputeAverageValue fp i report_list report_size total_clocks gpu_clocks_id)
        | ZET_METRIC_TYPE_THROUGHPUT \<Rightarrow>
            map_sum id Some (ComputeTotalValue fp i report_list report_size)
        | ZET_METRIC_TYPE_EVENT \<Rightarrow>
            map_sum id Some (ComputeTotalValue fp i report_list report_size)
        | ZET_METRIC_TYPE_TIMESTAMP \<Rightarrow> Inr (Some (report_list ! i))
        | ZET_METRIC_TYPE_RAW \<Rightarrow> Inr (Some (report_list ! i))
        | ZET_METRIC_TYPE_EVENT_WITH_RANGE \<Rightarrow> Inr None
        | ZET_METRIC_TYPE_FLAG \<Rightarrow> Inr None
        | ZET_METRIC_TYPE_OTHER n \<Rightarrow> Inl (PTI_ASSERT ''0''))"

text \<open>The loop of \<^verbatim>\<open>GetAggregatedMetrics\<close> that sums the clocks of the matching reports.\<close>

definition add_clocks :: "zet_typed_value_t list \<Rightarrow> nat \<Rightarrow> nat \<Rightarrow> nat \<Rightarrow> u64 \<Rightarrow> fatal + u64" where
  "add_clocks report_list report_size gpu_clocks_id i total_clocks =
     (case vector_at report_list (i * report_size + gpu_clocks_id) of
        Inl e \<Rightarrow> Inl e
      | Inr (UINT64 c) \<Rightarrow> Inr (total_clocks + c)
      | Inr _ \<Rightarrow> Inl (PTI_ASSERT ''report[gpu_clocks_id].type == ZET_VALUE_TYPE_UINT64''))"

definition GetAggregatedMetrics ::
  "Profiler \<Rightarrow> fp_ops \<Rightarrow> u64 \<Rightarrow> u64 \<Rightarrow> nat \<Rightarrow> nat \<Rightarrow> nat \<Rightarrow> fatal + zet_typed_value_t list"
where
  "GetAggregatedMetrics pr fp start end sub_device_id report_time_id gpu_clocks_id =
     (if \<not> start < end then Inl (PTI_ASSERT ''start < end'')
      else if \<not> sub_device_id < sub_device_count pr
      then Inl (PTI_ASSERT ''sub_device_id < sub_device_count_'')
      else
        case metric_collector pr of
          None \<Rightarrow> Inl (UNDEFINED_BEHAVIOUR ''metric_collector_ is null'')
        | Some mc \<Rightarrow>
            let report_size = GetReportSize mc sub_device_id in
            if \<not> report_size > 0 then Inl (PTI_ASSERT ''report_size > 0'')
            else
              let metric_list = GetMetricList mc sub_device_id in
              if length metric_list \<noteq> report_size
              then Inl (PTI_ASSERT ''metric_list.size() == report_size'')
              else
                let metric_type_list = GetMetricTypeList mc sub_device_id in
                if length metric_type_list \<noteq> report_size
                then Inl (PTI_ASSERT ''metric_type_list.size() == report_size'')
                else
                  case GetMetricInterval pr start end sub_device_id report_time_id of
                    Inl e \<Rightarrow> Inl e
                  | Inr report_list \<Rightarrow>
                      let report_count = length report_list div report_size in
                      if report_count * report_size \<noteq> length report_list
                      then Inl (PTI_ASSERT
                        ''report_count * report_size == report_list.size()'')
                      else if report_count = 0 then Inr []
                      else
                        case for_indices (add_clocks report_list report_size gpu_clocks_id)
                               [0..<report_count] 0 of
                          Inl e \<Rightarrow> Inl e
                        | Inr total_clocks \<Rightarrow>
                            for_indices
                              (\<lambda>i aggregated_report.
                                 case aggregate_column fp metric_list metric_type_list
                                        report_list report_size total_clocks gpu_clocks_id i of
                                   Inl e \<Rightarrow> Inl e
                                 | Inr None \<Rightarrow> Inr aggregated_report
                                 | Inr (Some v) \<Rightarrow> Inr (aggregated_report[i := v]))
                              [0..<report_size] (replicate report_size (UINT32 0)))"

section \<open>Notions used to state the properties\<close>

text \<open>
  The name under which \<^verbatim>\<open>AddKernelInfo\<close> and \<^verbatim>\<open>AddKernelInterval\<close> file a command,
  the arithmetic of one KernelInfo update, the duration as the specification words it
  (\<open>claimed_duration\<close>: the wrap-around case is \<open>end < start\<close>, every other case the plain
  difference), and the end-to-end scenario of the specification: one kernel with group
  count \<open>{2,1,1}\<close> and group size \<open>{64,1,1}\<close> on a deferred list, submitted with the
  anchor (host 1000, device 500), completed with the ticks 600 and 900 at \<open>10^9\<close> Hz.
\<close>


definition resolved_name :: "bool \<Rightarrow> ZeKernelProps \<Rightarrow> string" where
  "resolved_name v p =
     (case (if v then GetVerboseName (name p) p else Inr (name p)) of
        Inl e \<Rightarrow> [] | Inr nm \<Rightarrow> nm)"

definition add_time :: "u64 \<Rightarrow> ZeKernelInfo option \<Rightarrow> ZeKernelInfo" where
  "add_time t ko =
     (case ko of
        None \<Rightarrow> \<lparr>total_time = t, min_time = t, max_time = t, call_count = 1\<rparr>
      | Some k \<Rightarrow> \<lparr>total_time = total_time k + t, min_time = min (min_time k) t,
          max_time = max (max_time k) t, call_count = call_count k + 1\<rparr>)"

definition claimed_duration :: "u64 \<Rightarrow> u64 \<Rightarrow> u64 \<Rightarrow> u64" where
  "claimed_duration start end freq =
     (if end < start then push_bit 32 1 + end - start else end - start) * NSEC_IN_SEC div freq"

definition ex_props :: ZeKernelProps where
  "ex_props = \<lparr>name = ''kern'', simd_width = 32, bytes_transferred = 0,
     group_count = (2, 1, 1), group_size = (64, 1, 1)\<rparr>"

definition ex_command :: ZeKernelCommand where
  "ex_command = \<lparr>props = ex_props, event_pool = 7, event = 8, cmd_device = 3,
     kernel_id = 1, append_time = 900, timer_frequency = 1000000000, cmd_call_count = 1\<rparr>"

definition ex_call :: ZeKernelCall where
  "ex_call = \<lparr>command = 1, queue = 5, submit_time = 1000, device_submit_time = 500,
     call_id = 1\<rparr>"

definition ex_driver :: ze_driver where
  "ex_driver = \<lparr>zeEventQueryStatus =
       (\<lambda>e. if e = 8 \<or> e = 11 then ZE_RESULT_SUCCESS else ZE_RESULT_NOT_READY),
     zeEventQueryKernelTimestamp =
       (\<lambda>e. if e = 11 then (ZE_RESULT_SUCCESS, 700, 1100) else (ZE_RESULT_SUCCESS, 600, 900)),
     zeEventDestroy = (\<lambda>e. ZE_RESULT_SUCCESS),
     zeEventPoolDestroy = (\<lambda>e. ZE_RESULT_SUCCESS)\<rparr>"

definition ex_collector :: collector where
  "ex_collector = \<lparr>verbose = True, callback = True, callback_log = [],
     kernel_info_map = Map.empty, kernel_call_list = [ex_call],
     command_list_map = [10 \<mapsto> \<lparr>kernel_command_list = [1], cl_context = 2, cl_device = 3,
       immediate = False\<rparr>],
     kernel_interval_list = [], device_map = [(3, [])],
     heap = [1 \<mapsto> ex_command], destroyed = []\<rparr>"

definition ex_final :: collector where
  "ex_final = ex_collector\<lparr>kernel_info_map := [''kern[SIMD32 {2; 1; 1} {64; 1; 1}]'' \<mapsto>
           \<lparr>total_time = 300, min_time = 300, max_time = 300, call_count = 1\<rparr>],
         kernel_interval_list := [\<lparr>kernel_name = ''kern[SIMD32 {2; 1; 1} {64; 1; 1}]'', iv_device = 3,
           device_interval_list = [\<lparr>iv_start = 600, iv_end = 900, iv_sub_device_id = 0\<rparr>]\<rparr>],
         callback_log := [\<lparr>cb_queue = 5, cb_id = ''1.1'', cb_name = ''kern'', cb_appended = 900,
           cb_submitted = 1000, cb_started = 1100, cb_ended = 1400\<rparr>]\<rparr>"

text \<open>
  A sequence of finalizations, the completion status and the event of a pending call
  (read through its command), the duration and the name a call is filed under, the
  KernelInfo entry after a list of durations, and the handles that freeing a command
  destroys (its event and event pool, when the pool is its own).
\<close>

fun finalize_calls :: "ze_driver \<Rightarrow> ZeKernelCall list \<Rightarrow> collector \<Rightarrow> fatal + collector" where
  "finalize_calls drv [] s = Inr s"
| "finalize_calls drv (c # cs) s =
     (case ProcessCall drv c s of Inl e \<Rightarrow> Inl e | Inr s1 \<Rightarrow> finalize_calls drv cs s1)"

definition call_status :: "ze_driver \<Rightarrow> collector \<Rightarrow> ZeKernelCall \<Rightarrow> ze_result_t option" where
  "call_status drv s c =
     (case deref s (command c) of
        Inl e \<Rightarrow> None | Inr cmd \<Rightarrow> Some (zeEventQueryStatus drv (event cmd)))"

definition call_event :: "collector \<Rightarrow> ZeKernelCall \<Rightarrow> handle option" where
  "call_event s c =
     (case deref s (command c) of Inl e \<Rightarrow> None | Inr cmd \<Rightarrow> Some (event cmd))"

definition owned_handles :: "collector \<Rightarrow> cmd_ptr \<Rightarrow> handle list" where
  "owned_handles s p =
     (case heap s p of
        None \<Rightarrow> []
      | Some cmd \<Rightarrow> if event_pool cmd \<noteq> nullptr then [event cmd, event_pool cmd] else [])"

definition call_duration :: "ze_driver \<Rightarrow> collector \<Rightarrow> ZeKernelCall \<Rightarrow> u64" where
  "call_duration drv s c =
     (case deref s (command c) of
        Inl e \<Rightarrow> 0
      | Inr cmd \<Rightarrow>
          (case zeEventQueryKernelTimestamp drv (event cmd) of
             (st, start, end) \<Rightarrow> kernel_duration start end (timer_frequency cmd)))"

definition call_name :: "collector \<Rightarrow> ZeKernelCall \<Rightarrow> string" where
  "call_name s c =
     (case deref s (command c) of
        Inl e \<Rightarrow> [] | Inr cmd \<Rightarrow> resolved_name (verbose s) (props cmd))"

fun add_times :: "ZeKernelInfo option \<Rightarrow> u64 list \<Rightarrow> ZeKernelInfo option" where
  "add_times ko [] = ko"
| "add_times ko (d # ds) = add_times (Some (add_time d ko)) ds"

text \<open>
  Further data for the scenario: a memory copy on the caller's own event 9, which the
  driver reports as not ready; a second launch of the same kernel on event 11, which
  runs from tick 700 to tick 1100; a driver that reports the kernel's start and end
  tick as equal; a driver that answers the status query of event 9 with an error; a
  device with the two sub-devices 4 and 6.
\<close>

definition ex_copy_props :: ZeKernelProps where
  "ex_copy_props = \<lparr>name = ''zeCommandListAppendMemoryCopy'', simd_width = 0,
     bytes_transferred = 64, group_count = (0, 0, 0), group_size = (0, 0, 0)\<rparr>"

definition ex_command2 :: ZeKernelCommand where
  "ex_command2 = \<lparr>props = ex_copy_props, event_pool = 0, event = 9, cmd_device = 3,
     kernel_id = 2, append_time = 950, timer_frequency = 1000000000, cmd_call_count = 1\<rparr>"

definition ex_call2 :: ZeKernelCall where
  "ex_call2 = \<lparr>command = 2, queue = 5, submit_time = 1000, device_submit_time = 500,
     call_id = 1\<rparr>"

definition ex_command3 :: ZeKernelCommand where
  "ex_command3 = \<lparr>props = ex_props, event_pool = 12, event = 11, cmd_device = 3,
     kernel_id = 3, append_time = 900, timer_frequency = 1000000000, cmd_call_count = 1\<rparr>"

definition ex_call3 :: ZeKernelCall where
  "ex_call3 = \<lparr>command = 3, queue = 5, submit_time = 1000, device_submit_time = 500,
     call_id = 1\<rparr>"

definition ex_pending :: collector where
  "ex_pending = ex_collector\<lparr>kernel_call_list := [ex_call2, ex_call],
     command_list_map := [10 \<mapsto> \<lparr>kernel_command_list = [1, 2], cl_context = 2,
       cl_device = 3, immediate = False\<rparr>],
     heap := [1 \<mapsto> ex_command, 2 \<mapsto> ex_command2]\<rparr>"

definition ex_two :: collector where
  "ex_two = ex_collector\<lparr>kernel_call_list := [ex_call, ex_call3],
     command_list_map := [10 \<mapsto> \<lparr>kernel_command_list = [1, 3], cl_context = 2,
       cl_device = 3, immediate = False\<rparr>],
     heap := [1 \<mapsto> ex_command, 3 \<mapsto> ex_command3]\<rparr>"

definition ex_tiles :: collector where
  "ex_tiles = ex_collector\<lparr>device_map := [(3, [4, 6])]\<rparr>"

definition ex_driver_equal :: ze_driver where
  "ex_driver_equal = ex_driver\<lparr>zeEventQueryKernelTimestamp :=
     (\<lambda>e. (ZE_RESULT_SUCCESS, 600, 600))\<rparr>"

definition ex_driver_error :: ze_driver where
  "ex_driver_error = ex_driver\<lparr>zeEventQueryStatus :=
     (\<lambda>e. if e = 8 then ZE_RESULT_SUCCESS else ZE_RESULT_ERROR 1)\<rparr>"

text \<open>The states that the scenario reaches.\<close>

definition ex_swept :: collector where
  "ex_swept = ex_pending\<lparr>kernel_info_map := [''kern[SIMD32 {2; 1; 1} {64; 1; 1}]'' \<mapsto>
           \<lparr>total_time = 300, min_time = 300, max_time = 300, call_count = 1\<rparr>],
         kernel_interval_list := [\<lparr>kernel_name = ''kern[SIMD32 {2; 1; 1} {64; 1; 1}]'', iv_device = 3,
           device_interval_list = [\<lparr>iv_start = 600, iv_end = 900, iv_sub_device_id = 0\<rparr>]\<rparr>],
         callback_log := [\<lparr>cb_queue = 5, cb_id = ''1.1'', cb_name = ''kern'', cb_appended = 900,
           cb_submitted = 1000, cb_started = 1100, cb_ended = 1400\<rparr>],
         kernel_call_list := [ex_call2]\<rparr>"

definition ex_tiles_final :: collector where
  "ex_tiles_final = ex_tiles\<lparr>kernel_info_map := [''kern[SIMD32 {2; 1; 1} {64; 1; 1}]'' \<mapsto>
           \<lparr>total_time = 300, min_time = 300, max_time = 300, call_count = 1\<rparr>],
         kernel_interval_list := [\<lparr>kernel_name = ''kern[SIMD32 {2; 1; 1} {64; 1; 1}]'', iv_device = 3,
           device_interval_list = [\<lparr>iv_start = 600, iv_end = 900, iv_sub_device_id = 0\<rparr>,
             \<lparr>iv_start = 600, iv_end = 900, iv_sub_device_id = 1\<rparr>]\<rparr>],
         callback_log := [\<lparr>cb_queue = 5, cb_id = ''1.1'', cb_name = ''kern'', cb_appended = 900,
           cb_submitted = 1000, cb_started = 1100, cb_ended = 1400\<rparr>]\<rparr>"

text \<open>
  For the aggregator: the value of an integer cell widened to 64 bits; column \<open>i\<close> of a
  flat vector of reports; the 64-bit sum of a column and the 64-bit sum of the products
  of a column with the clock column; the same two sums for floating-point columns,
  accumulated in \<^verbatim>\<open>double\<close> from \<open>0.0\<close> in the order of the reports; which columns
  \<^verbatim>\<open>GetAggregatedMetrics\<close> sums and which it averages (by name first, then by metric
  type); and, for the window, whether a time cell lies in \<open>[start, end]\<close>, whether no
  report that the reader yields does, and whether the batches are whole reports whose
  time cell is a \<^verbatim>\<open>uint64_t\<close>.
\<close>

definition u64_value :: "zet_typed_value_t \<Rightarrow> u64" where
  "u64_value v = (case v of UINT32 x \<Rightarrow> ucast x | UINT64 x \<Rightarrow> x | _ \<Rightarrow> 0)"

definition is_integer_value :: "zet_typed_value_t \<Rightarrow> bool" where
  "is_integer_value v = (case v of UINT32 x \<Rightarrow> True | UINT64 x \<Rightarrow> True | _ \<Rightarrow> False)"

definition column :: "zet_typed_value_t list \<Rightarrow> nat \<Rightarrow> nat \<Rightarrow> zet_typed_value_t list" where
  "column report_list report_size i =
     map (\<lambda>j. report_list ! (j * report_size + i)) [0..<length report_list div report_size]"

definition weighted_sum :: "zet_typed_value_t list \<Rightarrow> zet_typed_value_t list \<Rightarrow> u64" where
  "weighted_sum values clocks =
     sum_list (map (\<lambda>(v, c). u64_value v * u64_value c) (zip values clocks))"

definition value_sum :: "zet_typed_value_t list \<Rightarrow> u64" where
  "value_sum values = sum_list (map u64_value values)"

definition float_sum :: "fp_ops \<Rightarrow> zet_typed_value_t list \<Rightarrow> fp64" where
  "float_sum fp values =
     foldl (\<lambda>t v. case v of
                FLOAT32 x \<Rightarrow> fp64_add fp t (fp64_of_fp32 fp x)
              | FLOAT64 x \<Rightarrow> fp64_add fp t x
              | _ \<Rightarrow> t)
       (fp64_zero fp) values"

definition float_weighted_sum ::
  "fp_ops \<Rightarrow> zet_typed_value_t list \<Rightarrow> zet_typed_value_t list \<Rightarrow> fp64"
where
  "float_weighted_sum fp values clocks =
     foldl (\<lambda>t (v, c). case v of
                FLOAT32 x \<Rightarrow>
                  fp64_add fp t (fp64_of_fp32 fp (fp32_mul fp x (fp32_of_u64 fp (u64_value c))))
              | FLOAT64 x \<Rightarrow> fp64_add fp t (fp64_mul fp x (fp64_of_u64 fp (u64_value c)))
              | _ \<Rightarrow> t)
       (fp64_zero fp) (zip values clocks)"

definition is_float_value :: "zet_typed_value_t \<Rightarrow> bool" where
  "is_float_value v = (case v of FLOAT32 x \<Rightarrow> True | FLOAT64 x \<Rightarrow> True | _ \<Rightarrow> False)"

definition is_sum_column :: "string list \<Rightarrow> zet_metric_type_t list \<Rightarrow> nat \<Rightarrow> bool" where
  "is_sum_column metric_list metric_type_list i =
     (metric_list ! i = ''GpuTime'' \<or>
      (metric_list ! i \<noteq> ''AvgGpuCoreFrequencyMHz'' \<and> metric_list ! i \<noteq> ''ReportReason'' \<and>
       (metric_type_list ! i = ZET_METRIC_TYPE_THROUGHPUT \<or>
        metric_type_list ! i = ZET_METRIC_TYPE_EVENT)))"

definition is_average_column :: "string list \<Rightarrow> zet_metric_type_t list \<Rightarrow> nat \<Rightarrow> bool" where
  "is_average_column metric_list metric_type_list i =
     (metric_list ! i \<noteq> ''GpuTime'' \<and>
      (metric_list ! i = ''AvgGpuCoreFrequencyMHz'' \<or>
       (metric_list ! i \<noteq> ''ReportReason'' \<and>
        (metric_type_list ! i = ZET_METRIC_TYPE_DURATION \<or>
         metric_type_list ! i = ZET_METRIC_TYPE_RATIO))))"

definition in_window :: "u64 \<Rightarrow> u64 \<Rightarrow> zet_typed_value_t \<Rightarrow> bool" where
  "in_window start end v = (case v of UINT64 t \<Rightarrow> start \<le> t \<and> t \<le> end | _ \<Rightarrow> False)"

definition is_time_value :: "zet_typed_value_t \<Rightarrow> bool" where
  "is_time_value v = (case v of UINT64 t \<Rightarrow> True | _ \<Rightarrow> False)"

definition no_report_in_window ::
  "u64 \<Rightarrow> u64 \<Rightarrow> nat \<Rightarrow> nat \<Rightarrow> zet_typed_value_t list list \<Rightarrow> bool"
where
  "no_report_in_window start end report_time_id report_size chunks =
     list_all (\<lambda>chunk. list_all (\<lambda>v. \<not> in_window start end v)
                  (column chunk report_size report_time_id))
       (takeWhile (\<lambda>chunk. chunk \<noteq> []) chunks)"

definition well_formed_chunks :: "nat \<Rightarrow> nat \<Rightarrow> zet_typed_value_t list list \<Rightarrow> bool" where
  "well_formed_chunks report_time_id report_size chunks =
     list_all (\<lambda>chunk. length chunk div report_size * report_size = length chunk \<and>
                  list_all is_time_value (column chunk report_size report_time_id))
       (takeWhile (\<lambda>chunk. chunk \<noteq> []) chunks)"

text \<open>
  A metric collector with five columns, two reports taken at the times 100 and 200,
  and variants of the reports: a value of \<open>2^63\<close> in the averaged column, a report with
  no clocks, and two reports with \<open>2^63\<close> clocks each.
\<close>

definition ex_metric_collector :: "zet_typed_value_t list list \<Rightarrow> MetricCollector" where
  "ex_metric_collector chunks =
     \<lparr>GetReportSize = (\<lambda>sd. 5),
      GetMetricList = (\<lambda>sd. [''QueryBeginTime'', ''GpuCoreClocks'', ''GpuTime'',
        ''AvgGpuCoreFrequencyMHz'', ''EuActive'']),
      GetMetricTypeList = (\<lambda>sd. [ZET_METRIC_TYPE_TIMESTAMP, ZET_METRIC_TYPE_EVENT,
        ZET_METRIC_TYPE_DURATION, ZET_METRIC_TYPE_RAW, ZET_METRIC_TYPE_RATIO]),
      report_chunks = (\<lambda>sd. chunks)\<rparr>"

definition ex_profiler :: "zet_typed_value_t list list \<Rightarrow> Profiler" where
  "ex_profiler chunks =
     \<lparr>metric_collector = Some (ex_metric_collector chunks), sub_device_count = 1\<rparr>"

definition ex_reports :: "zet_typed_value_t list" where
  "ex_reports = [UINT64 100, UINT64 2, UINT64 10, UINT64 10, UINT32 10,
                 UINT64 200, UINT64 3, UINT64 20, UINT64 20, UINT32 20]"

definition ex_reports_overflow :: "zet_typed_value_t list" where
  "ex_reports_overflow =
     [UINT64 100, UINT64 2, UINT64 10, UINT64 9223372036854775808, UINT32 10]"

definition ex_reports_idle :: "zet_typed_value_t list" where
  "ex_reports_idle = [UINT64 100, UINT64 0, UINT64 10, UINT64 7, UINT32 10]"

definition ex_reports_wrap :: "zet_typed_value_t list" where
  "ex_reports_wrap =
     [UINT64 100, UINT64 9223372036854775808, UINT64 10, UINT64 10, UINT32 10,
      UINT64 200, UINT64 9223372036854775808, UINT64 20, UINT64 20, UINT32 20]"

section \<open>Lemmas on finalization\<close>

lemma info_update_add_time:
  "(let k1 = k0\<lparr>total_time := total_time k0 + t\<rparr>;
        k2 = (if t > max_time k1 then k1\<lparr>max_time := t\<rparr> else k1);
        k3 = (if t < min_time k2 then k2\<lparr>min_time := t\<rparr> else k2);
        k4 = k3\<lparr>call_count := call_count k3 + 1\<rparr>
    in f k4) = f (add_time t (Some k0))"
  by (cases k0) (auto simp: add_time_def Let_def min_def max_def)

lemma AddKernelInfo_Inr:
  assumes "AddKernelInfo t p s = Inr s'"
  shows "s' = s\<lparr>kernel_info_map := (kernel_info_map s)(resolved_name (verbose s) p \<mapsto>
           add_time t (kernel_info_map s (resolved_name (verbose s) p)))\<rparr>"
proof -
  let ?nm = "resolved_name (verbose s) p"
  from assms have nm: "(if verbose s then GetVerboseName (name p) p else Inr (name p)) = Inr ?nm"
    by (auto simp: AddKernelInfo_def resolved_name_def split: if_splits sum.splits)
  from assms have ne: "name p \<noteq> []"
    by (auto simp: AddKernelInfo_def split: if_splits)
  show ?thesis
  proof (cases "kernel_info_map s ?nm")
    case None
    with assms nm ne show ?thesis
      by (simp add: AddKernelInfo_def add_time_def)
  next
    case (Some k0)
    with assms nm ne show ?thesis
      unfolding AddKernelInfo_def
      by (simp only: info_update_add_time if_False sum.case option.case sum.inject)
  qed
qed

lemma scaling_slices_Inr:
  "scaling_slices a b is = Inr r \<Longrightarrow>
     r = map (\<lambda>i. \<lparr>iv_start = a, iv_end = b, iv_sub_device_id = of_nat i\<rparr>) is"
  by (induction "is" arbitrary: r) (auto split: if_splits sum.splits)

lemma sub_device_interval_Inr:
  "sub_device_interval dm d nm a b = Inr r \<Longrightarrow>
     \<exists>dev i. r = \<lparr>kernel_name = nm, iv_device = dev, device_interval_list =
        [\<lparr>iv_start = a, iv_end = b, iv_sub_device_id = of_nat i\<rparr>]\<rparr>"
  by (induction dm d nm a b rule: sub_device_interval.induct)
     (auto split: if_splits option.splits)

lemma AddKernelInterval_last:
  assumes "AddKernelInterval drv cmd s = Inr s'"
    and "zeEventQueryKernelTimestamp drv (event cmd) = (st, start, end)"
    and "r = last (kernel_interval_list s')"
  shows "s' = s\<lparr>kernel_interval_list := kernel_interval_list s @ [r]\<rparr> \<and>
     kernel_name r = resolved_name (verbose s) (props cmd) \<and>
     list_all (\<lambda>iv. iv_start iv = start * NSEC_IN_SEC div timer_frequency cmd \<and>
        iv_end iv = iv_start iv + kernel_duration start end (timer_frequency cmd) \<and>
        iv_start iv < iv_end iv) (device_interval_list r) \<and>
     (case map_of (device_map s) (cmd_device cmd) of
        Some (x # xs) \<Rightarrow>
          map iv_sub_device_id (device_interval_list r) = map of_nat [0..<length (x # xs)]
      | _ \<Rightarrow> length (device_interval_list r) = 1)"
  using assms
  by (auto simp: AddKernelInterval_def resolved_name_def Let_def list_all_iff
      simp del: upt_Suc
      split: if_splits sum.splits option.splits list.splits
      dest!: scaling_slices_Inr sub_device_interval_Inr)

lemma AddKernelInfo_frame:
  "AddKernelInfo t p s = Inr s' \<Longrightarrow> \<exists>m. s' = s\<lparr>kernel_info_map := m\<rparr>"
  by (auto simp: AddKernelInfo_def Let_def split: if_splits sum.splits option.splits)

lemma AddKernelInterval_frame:
  "AddKernelInterval drv cmd s = Inr s' \<Longrightarrow> \<exists>l. s' = s\<lparr>kernel_interval_list := l\<rparr>"
  by (auto simp: AddKernelInterval_def Let_def split: if_splits sum.splits option.splits prod.splits list.splits)

lemma ProcessCall_Inr:
  assumes "ProcessCall drv call s = Inr s'"
  obtains cmd start "end" s1 s2 where
    "deref s (command call) = Inr cmd"
    "zeEventQueryStatus drv (event cmd) = ZE_RESULT_SUCCESS"
    "zeEventQueryKernelTimestamp drv (event cmd) = (ZE_RESULT_SUCCESS, start, end)"
    "timer_frequency cmd > 0" "submit_time call > 0" "device_submit_time call > 0"
    "start > device_submit_time call"
    "AddKernelInfo (kernel_duration start end (timer_frequency cmd)) (props cmd) s = Inr s1"
    "AddKernelInterval drv cmd s1 = Inr s2"
    "s' = (if callback s2 then s2\<lparr>callback_log := callback_log s2 @
             [\<lparr>cb_queue = queue call,
               cb_id = to_string (unat (kernel_id cmd)) @ ''.'' @ to_string (unat (call_id call)),
               cb_name = name (props cmd),
               cb_appended = append_time cmd,
               cb_submitted = submit_time call,
               cb_started = submit_time call +
                 (start - device_submit_time call) * NSEC_IN_SEC div timer_frequency cmd,
               cb_ended = submit_time call +
                 (start - device_submit_time call) * NSEC_IN_SEC div timer_frequency cmd +
                 kernel_duration start end (timer_frequency cmd)\<rparr>]\<rparr> else s2)"
  using assms
  by (auto simp: ProcessCall_def Let_def split: if_splits sum.splits prod.splits)

lemma ex_ProcessCall: "ProcessCall ex_driver ex_call ex_collector = Inr ex_final"
  by (simp add: ProcessCall_def deref_def nullptr_def ex_collector_def ex_call_def
      ex_command_def ex_driver_def ex_props_def ex_final_def GetVerboseName_def
      kernel_duration_def AddKernelInfo_def AddKernelInterval_def NSEC_IN_SEC_def Let_def
      to_string.simps digit_char_def)

lemma ex_deref: "deref ex_collector (command ex_call) = Inr ex_command"
  by (simp add: deref_def nullptr_def ex_collector_def ex_call_def)

lemma ex_timestamp:
  "zeEventQueryKernelTimestamp ex_driver (event ex_command) = (ZE_RESULT_SUCCESS, 600, 900)"
  by (simp add: ex_driver_def ex_command_def)

lemma ex_resolved_name:
  "resolved_name (verbose ex_collector) (props ex_command) = ''kern[SIMD32 {2; 1; 1} {64; 1; 1}]''"
  by (simp add: resolved_name_def ex_collector_def ex_command_def ex_props_def
      GetVerboseName_def to_string.simps digit_char_def)

lemma AddKernelInterval_append:
  assumes "AddKernelInterval drv cmd s = Inr s'"
  shows "\<exists>r. s' = s\<lparr>kernel_interval_list := kernel_interval_list s @ [r]\<rparr>"
proof -
  obtain st start "end" where
    "zeEventQueryKernelTimestamp drv (event cmd) = (st, start, end)"
    by (cases "zeEventQueryKernelTimestamp drv (event cmd)") auto
  from AddKernelInterval_last [OF assms this refl] show ?thesis by blast
qed

lemma ProcessCall_frame:
  assumes "ProcessCall drv call s = Inr s'"
  shows "heap s' = heap s" "verbose s' = verbose s" "callback s' = callback s"
    "kernel_call_list s' = kernel_call_list s" "command_list_map s' = command_list_map s"
    "device_map s' = device_map s" "destroyed s' = destroyed s"
    "\<exists>r. kernel_interval_list s' = kernel_interval_list s @ [r]"
  using assms
  by (auto simp: ProcessCall_def Let_def split: if_splits sum.splits prod.splits
      dest!: AddKernelInfo_frame AddKernelInterval_append)

lemma AddKernelInfo_call_list:
  "AddKernelInfo t p (s\<lparr>kernel_call_list := l\<rparr>) =
     map_sum id (\<lambda>s'. s'\<lparr>kernel_call_list := l\<rparr>) (AddKernelInfo t p s)"
  by (simp add: AddKernelInfo_def Let_def split: sum.splits option.splits)

lemma AddKernelInterval_call_list:
  "AddKernelInterval drv cmd (s\<lparr>kernel_call_list := l\<rparr>) =
     map_sum id (\<lambda>s'. s'\<lparr>kernel_call_list := l\<rparr>) (AddKernelInterval drv cmd s)"
  by (simp add: AddKernelInterval_def Let_def
      split: sum.splits option.splits prod.splits list.splits)

lemma deref_call_list [simp]: "deref (s\<lparr>kernel_call_list := l\<rparr>) p = deref s p"
  by (simp add: deref_def)

lemma case_map_sum:
  "(case map_sum id f x of Inl e \<Rightarrow> Inl e | Inr y \<Rightarrow> g y) =
   (case x of Inl e \<Rightarrow> Inl e | Inr y \<Rightarrow> g (f y))"
  by (cases x) auto

lemma ProcessCall_call_list:
  "ProcessCall drv call (s\<lparr>kernel_call_list := l\<rparr>) =
     map_sum id (\<lambda>s'. s'\<lparr>kernel_call_list := l\<rparr>) (ProcessCall drv call s)"
  by (simp add: ProcessCall_def Let_def AddKernelInfo_call_list AddKernelInterval_call_list
      case_map_sum split: sum.split prod.split)

lemma finalize_calls_call_list:
  "finalize_calls drv cs (s\<lparr>kernel_call_list := l\<rparr>) =
     map_sum id (\<lambda>s'. s'\<lparr>kernel_call_list := l\<rparr>) (finalize_calls drv cs s)"
  by (induction cs arbitrary: s)
     (auto simp: ProcessCall_call_list case_map_sum split: sum.splits)

lemma finalize_calls_frame:
  "finalize_calls drv cs s = Inr s' \<Longrightarrow>
     heap s' = heap s \<and> verbose s' = verbose s \<and> callback s' = callback s \<and>
     kernel_call_list s' = kernel_call_list s \<and> command_list_map s' = command_list_map s \<and>
     device_map s' = device_map s \<and> destroyed s' = destroyed s \<and>
     (\<exists>l. kernel_interval_list s' = kernel_interval_list s @ l \<and> length l = length cs)"
proof (induction cs arbitrary: s)
  case Nil
  then show ?case by simp
next
  case (Cons c cs)
  from Cons.prems obtain s1 where p: "ProcessCall drv c s = Inr s1"
    and f: "finalize_calls drv cs s1 = Inr s'"
    by (auto split: sum.splits)
  from ProcessCall_frame [OF p] Cons.IH [OF f] show ?case
    by auto
qed

lemma call_status_heap:
  "heap s1 = heap s \<Longrightarrow> call_status drv s1 c = call_status drv s c"
  by (simp add: call_status_def deref_def)

lemma call_event_heap:
  "heap s1 = heap s \<Longrightarrow> call_event s1 c = call_event s c"
  by (simp add: call_event_def deref_def)

lemma ProcessCalls_loop_Inr:
  assumes "ProcessCalls_loop drv done todo s = Inr s'"
  shows "list_all (\<lambda>c. call_status drv s c = Some ZE_RESULT_NOT_READY \<or>
            call_status drv s c = Some ZE_RESULT_SUCCESS) todo \<and>
     (\<exists>s1. finalize_calls drv
              (filter (\<lambda>c. call_status drv s c = Some ZE_RESULT_SUCCESS) todo) s = Inr s1 \<and>
        s' = (if list_all (\<lambda>c. call_status drv s c = Some ZE_RESULT_NOT_READY) todo then s
              else s1\<lparr>kernel_call_list :=
                done @ filter (\<lambda>c. call_status drv s c = Some ZE_RESULT_NOT_READY) todo\<rparr>))"
  using assms
proof (induction todo arbitrary: "done" s)
  case Nil
  then show ?case by simp
next
  case (Cons call rest)
  from Cons.prems obtain cmd where d: "deref s (command call) = Inr cmd"
    by (auto split: sum.splits)
  from Cons.prems d have ev: "event cmd \<noteq> nullptr"
    by (auto split: if_splits)
  show ?case
  proof (cases "zeEventQueryStatus drv (event cmd)")
    case ZE_RESULT_NOT_READY
    with d have st: "call_status drv s call = Some ZE_RESULT_NOT_READY"
      by (simp add: call_status_def)
    from Cons.prems d ev ZE_RESULT_NOT_READY
    have "ProcessCalls_loop drv (done @ [call]) rest s = Inr s'" by simp
    from Cons.IH [OF this] st show ?thesis by auto
  next
    case ZE_RESULT_SUCCESS
    with d have st: "call_status drv s call = Some ZE_RESULT_SUCCESS"
      by (simp add: call_status_def)
    from Cons.prems d ev ZE_RESULT_SUCCESS obtain s1 where
      p: "ProcessCall drv call s = Inr s1"
      and l: "ProcessCalls_loop drv done rest (s1\<lparr>kernel_call_list := done @ rest\<rparr>) = Inr s'"
      by (auto split: sum.splits)
    let ?s1 = "s1\<lparr>kernel_call_list := done @ rest\<rparr>"
    from ProcessCall_frame(1) [OF p] have h: "heap ?s1 = heap s" by simp
    have cs: "\<And>c. call_status drv ?s1 c = call_status drv s c"
      by (rule call_status_heap [OF h])
    from Cons.IH [OF l] obtain s2 where
      a: "list_all (\<lambda>c. call_status drv s c = Some ZE_RESULT_NOT_READY \<or>
            call_status drv s c = Some ZE_RESULT_SUCCESS) rest"
      and f: "finalize_calls drv
              (filter (\<lambda>c. call_status drv s c = Some ZE_RESULT_SUCCESS) rest) ?s1 = Inr s2"
      and s': "s' = (if list_all (\<lambda>c. call_status drv s c = Some ZE_RESULT_NOT_READY) rest
              then ?s1
              else s2\<lparr>kernel_call_list :=
                done @ filter (\<lambda>c. call_status drv s c = Some ZE_RESULT_NOT_READY) rest\<rparr>)"
      unfolding cs by blast
    from f obtain s3 where
      f3: "finalize_calls drv
              (filter (\<lambda>c. call_status drv s c = Some ZE_RESULT_SUCCESS) rest) s1 = Inr s3"
      and s2: "s2 = s3\<lparr>kernel_call_list := done @ rest\<rparr>"
      by (cases "finalize_calls drv
              (filter (\<lambda>c. call_status drv s c = Some ZE_RESULT_SUCCESS) rest) s1")
         (auto simp: finalize_calls_call_list)
    have nr: "list_all (\<lambda>c. call_status drv s c = Some ZE_RESULT_NOT_READY) rest \<Longrightarrow>
        filter (\<lambda>c. call_status drv s c = Some ZE_RESULT_SUCCESS) rest = [] \<and>
        filter (\<lambda>c. call_status drv s c = Some ZE_RESULT_NOT_READY) rest = rest"
      by (induction rest) auto
    from a st p f3 s2 s' nr show ?thesis
      by (auto simp: list_all_iff)
  next
    case (ZE_RESULT_ERROR n)
    with Cons.prems d ev show ?thesis by simp
  qed
qed

lemma ProcessCall_event_loop_no_match:
  "list_all (\<lambda>x. \<exists>e. call_event s x = Some e \<and> e \<noteq> ev) todo \<Longrightarrow>
     ProcessCall_event_loop drv ev done todo s = Inr s"
  by (induction todo arbitrary: "done")
     (auto simp: call_event_def split: sum.splits)

lemma ProcessCall_event_loop_first_match:
  "list_all (\<lambda>x. \<exists>e. call_event s x = Some e \<and> e \<noteq> ev) pre \<Longrightarrow>
   call_event s c = Some ev \<Longrightarrow>
     ProcessCall_event_loop drv ev done (pre @ c # post) s =
       map_sum id (\<lambda>s1. s1\<lparr>kernel_call_list := done @ pre @ post\<rparr>) (ProcessCall drv c s)"
  by (induction pre arbitrary: "done")
     (auto simp: call_event_def split: sum.splits)

lemma ProcessCalls_Inr:
  assumes r: "ProcessCalls drv s = Inr s'"
  shows "list_all (\<lambda>c. call_status drv s c = Some ZE_RESULT_NOT_READY \<or>
            call_status drv s c = Some ZE_RESULT_SUCCESS) (kernel_call_list s)"
    and "kernel_call_list s' =
        filter (\<lambda>c. call_status drv s c = Some ZE_RESULT_NOT_READY) (kernel_call_list s)"
    and "\<exists>s1. finalize_calls drv
               (filter (\<lambda>c. call_status drv s c = Some ZE_RESULT_SUCCESS)
                  (kernel_call_list s)) s = Inr s1 \<and>
         s' = s1\<lparr>kernel_call_list := kernel_call_list s'\<rparr>"
proof -
  let ?nr = "\<lambda>c. call_status drv s c = Some ZE_RESULT_NOT_READY"
  let ?ok = "\<lambda>c. call_status drv s c = Some ZE_RESULT_SUCCESS"
  from r have "ProcessCalls_loop drv [] (kernel_call_list s) s = Inr s'"
    by (simp add: ProcessCalls_def)
  from ProcessCalls_loop_Inr [OF this] obtain s1 where
    a: "list_all (\<lambda>c. ?nr c \<or> ?ok c) (kernel_call_list s)"
    and f: "finalize_calls drv (filter ?ok (kernel_call_list s)) s = Inr s1"
    and s': "s' = (if list_all ?nr (kernel_call_list s) then s
              else s1\<lparr>kernel_call_list := [] @ filter ?nr (kernel_call_list s)\<rparr>)"
    by blast
  from a show "list_all (\<lambda>c. ?nr c \<or> ?ok c) (kernel_call_list s)" .
  have all: "list_all ?nr (kernel_call_list s) \<Longrightarrow>
      filter ?ok (kernel_call_list s) = [] \<and> filter ?nr (kernel_call_list s) = kernel_call_list s"
    by (induction "kernel_call_list s") (auto simp: list_all_iff)
  from s' all show l: "kernel_call_list s' = filter ?nr (kernel_call_list s)"
    by (cases "list_all ?nr (kernel_call_list s)") simp_all
  from s' f all l have "s' = s1\<lparr>kernel_call_list := kernel_call_list s'\<rparr>"
    by (cases "list_all ?nr (kernel_call_list s)") auto
  with f show "\<exists>s1. finalize_calls drv (filter ?ok (kernel_call_list s)) s = Inr s1 \<and>
         s' = s1\<lparr>kernel_call_list := kernel_call_list s'\<rparr>"
    by blast
qed

lemma remove_commands_Inr:
  "remove_commands drv ps s = Inr s' \<Longrightarrow>
     distinct ps \<and>
     (\<forall>p \<in> set ps. heap s p \<noteq> None \<and> \<not> list_ex (\<lambda>c. command c = p) (kernel_call_list s)) \<and>
     s' = s\<lparr>heap := heap s |` (- set ps),
            destroyed := destroyed s @ concat (map (owned_handles s) ps)\<rparr>"
proof (induction ps arbitrary: s)
  case Nil
  then show ?case by (simp add: restrict_map_def)
next
  case (Cons p ps)
  from Cons.prems obtain cmd where c: "heap s p = Some cmd"
    by (auto split: option.splits)
  let ?s1 = "s\<lparr>destroyed := destroyed s @ owned_handles s p\<rparr>"
  let ?s2 = "?s1\<lparr>heap := (heap s)(p := None)\<rparr>"
  from Cons.prems c have nc: "\<not> list_ex (\<lambda>c. command c = p) (kernel_call_list s)"
    by (auto split: if_splits sum.splits)
  from Cons.prems c nc have r: "remove_commands drv ps ?s2 = Inr s'"
    by (auto simp: owned_handles_def split: if_splits)
  from Cons.IH [OF r] have d: "distinct ps"
    and a: "\<forall>q \<in> set ps. heap ?s2 q \<noteq> None \<and>
        \<not> list_ex (\<lambda>c. command c = q) (kernel_call_list ?s2)"
    and s': "s' = ?s2\<lparr>heap := heap ?s2 |` (- set ps),
            destroyed := destroyed ?s2 @ concat (map (owned_handles ?s2) ps)\<rparr>"
    by blast+
  from a have np: "p \<notin> set ps" by auto
  have oh: "map (owned_handles ?s2) ps = map (owned_handles s) ps"
    using np by (auto simp: owned_handles_def)
  have hp: "(heap s)(p := None) |` (- set ps) = heap s |` (- set (p # ps))"
    by (auto simp: restrict_map_def)
  from d np have "distinct (p # ps)" by simp
  moreover from a c nc np
  have "\<forall>q \<in> set (p # ps). heap s q \<noteq> None \<and>
      \<not> list_ex (\<lambda>c. command c = q) (kernel_call_list s)"
    by (auto split: if_splits)
  moreover from s' oh hp
  have "s' = s\<lparr>heap := heap s |` (- set (p # ps)),
            destroyed := destroyed s @ concat (map (owned_handles s) (p # ps))\<rparr>"
    by simp
  ultimately show ?case by blast
qed

lemma ProcessCalls_frame:
  assumes "ProcessCalls drv s = Inr s'"
  shows "heap s' = heap s" "command_list_map s' = command_list_map s"
    "destroyed s' = destroyed s" "set (kernel_call_list s') \<subseteq> set (kernel_call_list s)"
    "\<exists>l. kernel_interval_list s' = kernel_interval_list s @ l"
proof -
  from assms have "ProcessCalls_loop drv [] (kernel_call_list s) s = Inr s'"
    by (simp add: ProcessCalls_def)
  from ProcessCalls_loop_Inr [OF this] obtain s1 where
    f: "finalize_calls drv
          (filter (\<lambda>c. call_status drv s c = Some ZE_RESULT_SUCCESS) (kernel_call_list s)) s = Inr s1"
    and s': "s' = s \<or> s' = s1\<lparr>kernel_call_list :=
                [] @ filter (\<lambda>c. call_status drv s c = Some ZE_RESULT_NOT_READY)
                  (kernel_call_list s)\<rparr>"
    by (auto split: if_splits)
  from finalize_calls_frame [OF f] s'
  show "heap s' = heap s" "command_list_map s' = command_list_map s"
    "destroyed s' = destroyed s" "set (kernel_call_list s') \<subseteq> set (kernel_call_list s)"
    "\<exists>l. kernel_interval_list s' = kernel_interval_list s @ l"
    by auto
qed

lemma RemoveKernelCommands_Inr:
  assumes "RemoveKernelCommands drv cl s = Inr s'" and "command_list_map s cl = Some info"
  shows "distinct (kernel_command_list info)"
    and "\<forall>p \<in> set (kernel_command_list info).
           heap s p \<noteq> None \<and> \<not> list_ex (\<lambda>c. command c = p) (kernel_call_list s)"
    and "s' = s\<lparr>heap := heap s |` (- set (kernel_command_list info)),
            destroyed := destroyed s @ concat (map (owned_handles s) (kernel_command_list info)),
            command_list_map := (command_list_map s)(cl \<mapsto> info\<lparr>kernel_command_list := []\<rparr>)\<rparr>"
proof -
  from assms obtain s1 where r: "remove_commands drv (kernel_command_list info) s = Inr s1"
    and s': "s' = s1\<lparr>command_list_map :=
        (command_list_map s1)(cl \<mapsto> info\<lparr>kernel_command_list := []\<rparr>)\<rparr>"
    by (auto simp: RemoveKernelCommands_def split: if_splits sum.splits)
  from remove_commands_Inr [OF r] s'
  show "distinct (kernel_command_list info)"
    and "\<forall>p \<in> set (kernel_command_list info).
           heap s p \<noteq> None \<and> \<not> list_ex (\<lambda>c. command c = p) (kernel_call_list s)"
    and "s' = s\<lparr>heap := heap s |` (- set (kernel_command_list info)),
            destroyed := destroyed s @ concat (map (owned_handles s) (kernel_command_list info)),
            command_list_map := (command_list_map s)(cl \<mapsto> info\<lparr>kernel_command_list := []\<rparr>)\<rparr>"
    by auto
qed

lemma sweep_then_remove:
  assumes p: "ProcessCalls drv s = Inr s1"
    and r: "RemoveKernelCommands drv cl s1 = Inr s2"
    and i: "command_list_map s cl = Some info"
  shows "command_list_map s2 cl = Some (info\<lparr>kernel_command_list := []\<rparr>)"
    and "\<forall>p \<in> set (kernel_command_list info).
       heap s2 p = None \<and> list_all (\<lambda>c. command c \<noteq> p) (kernel_call_list s2) \<and>
       list_all (\<lambda>c. command c = p \<longrightarrow> call_status drv s c = Some ZE_RESULT_SUCCESS)
         (kernel_call_list s)"
    and "destroyed s2 = destroyed s @ concat (map (owned_handles s) (kernel_command_list info))"
    and "kernel_call_list s2 = kernel_call_list s1"
proof -
  note fr = ProcessCalls_frame [OF p]
  from fr i have i1: "command_list_map s1 cl = Some info" by simp
  note rk = RemoveKernelCommands_Inr [OF r i1]
  from rk(3) show "command_list_map s2 cl = Some (info\<lparr>kernel_command_list := []\<rparr>)"
    by simp
  from rk(3) show k: "kernel_call_list s2 = kernel_call_list s1" by simp
  have oh: "owned_handles s1 = owned_handles s"
    using fr(1) by (auto simp: owned_handles_def)
  from rk(3) fr(3) oh
  show "destroyed s2 = destroyed s @ concat (map (owned_handles s) (kernel_command_list info))"
    by simp
  show "\<forall>p \<in> set (kernel_command_list info).
       heap s2 p = None \<and> list_all (\<lambda>c. command c \<noteq> p) (kernel_call_list s2) \<and>
       list_all (\<lambda>c. command c = p \<longrightarrow> call_status drv s c = Some ZE_RESULT_SUCCESS)
         (kernel_call_list s)"
  proof
    fix q assume q: "q \<in> set (kernel_command_list info)"
    from rk(3) q have h: "heap s2 q = None" by (simp add: restrict_map_def)
    from rk(2) q have n: "\<not> list_ex (\<lambda>c. command c = q) (kernel_call_list s1)" by blast
    with k have l: "list_all (\<lambda>c. command c \<noteq> q) (kernel_call_list s2)"
      by (simp add: list_all_iff list_ex_iff)
    have "list_all (\<lambda>c. command c = q \<longrightarrow> call_status drv s c = Some ZE_RESULT_SUCCESS)
         (kernel_call_list s)"
      unfolding list_all_iff
    proof (intro ballI impI)
      fix c assume c: "c \<in> set (kernel_call_list s)" and cq: "command c = q"
      from ProcessCalls_Inr(1) [OF p] c
      have "call_status drv s c = Some ZE_RESULT_NOT_READY \<or>
            call_status drv s c = Some ZE_RESULT_SUCCESS"
        by (simp add: list_all_iff)
      moreover have "call_status drv s c \<noteq> Some ZE_RESULT_NOT_READY"
      proof
        assume "call_status drv s c = Some ZE_RESULT_NOT_READY"
        with c ProcessCalls_Inr(2) [OF p] have "c \<in> set (kernel_call_list s1)" by simp
        with n cq show False by (auto simp: list_ex_iff)
      qed
      ultimately show "call_status drv s c = Some ZE_RESULT_SUCCESS" by blast
    qed
    with h l show "heap s2 q = None \<and> list_all (\<lambda>c. command c \<noteq> q) (kernel_call_list s2) \<and>
       list_all (\<lambda>c. command c = q \<longrightarrow> call_status drv s c = Some ZE_RESULT_SUCCESS)
         (kernel_call_list s)"
      by blast
  qed
qed

lemma ProcessCall_kernel_info:
  assumes "ProcessCall drv c s = Inr s'"
  shows "kernel_info_map s' = (kernel_info_map s)(call_name s c \<mapsto>
           add_time (call_duration drv s c) (kernel_info_map s (call_name s c)))"
  using assms
  by (auto simp: ProcessCall_def Let_def call_name_def call_duration_def
      split: if_splits sum.splits prod.splits
      dest!: AddKernelInfo_Inr AddKernelInterval_append)

lemma finalize_calls_kernel_info:
  "finalize_calls drv cs s = Inr s' \<Longrightarrow>
     kernel_info_map s' nm =
       add_times (kernel_info_map s nm)
         (map (call_duration drv s) (filter (\<lambda>c. call_name s c = nm) cs))"
proof (induction cs arbitrary: s)
  case Nil
  then show ?case by simp
next
  case (Cons c cs)
  from Cons.prems obtain s1 where p: "ProcessCall drv c s = Inr s1"
    and f: "finalize_calls drv cs s1 = Inr s'"
    by (auto split: sum.splits)
  note fr = ProcessCall_frame [OF p]
  have n: "\<And>x. call_name s1 x = call_name s x"
    using fr(1,2) by (auto simp: call_name_def deref_def split: option.splits)
  have d: "\<And>x. call_duration drv s1 x = call_duration drv s x"
    using fr(1) by (simp add: call_duration_def deref_def)
  from Cons.IH [OF f] ProcessCall_kernel_info [OF p] show ?case
    by (simp add: n d)
qed

lemma add_times_Some:
  "add_times (Some k) ds =
     Some \<lparr>total_time = total_time k + sum_list ds, min_time = fold min ds (min_time k),
       max_time = fold max ds (max_time k), call_count = call_count k + of_nat (length ds)\<rparr>"
  by (induction ds arbitrary: k) (simp_all add: add_time_def ac_simps)

lemma add_times_None:
  "ds \<noteq> [] \<Longrightarrow>
     add_times None ds =
       Some \<lparr>total_time = sum_list ds, min_time = Min (set ds), max_time = Max (set ds),
         call_count = of_nat (length ds)\<rparr>"
  by (cases ds)
     (simp_all add: add_times_Some add_time_def Min.set_eq_fold [symmetric]
        Max.set_eq_fold [symmetric])

lemma unat_sum_list:
  "unat (sum_list (ds :: u64 list)) = sum_list (map unat ds) mod 2 ^ 64"
  by (induction ds) (simp_all add: unat_word_ariths mod_add_right_eq)

lemma ProcessCall_event_frame:
  "ProcessCall_event_loop drv ev done todo s = Inr s' \<Longrightarrow>
     \<exists>l. kernel_interval_list s' = kernel_interval_list s @ l"
proof (induction todo arbitrary: "done")
  case Nil
  then show ?case by simp
next
  case (Cons c todo)
  then show ?case
    by (auto split: sum.splits if_splits dest!: ProcessCall_frame(8))
qed

section \<open>The scenario, evaluated\<close>

lemmas ex_defs = ex_collector_def ex_call_def ex_command_def ex_driver_def ex_props_def
  ex_copy_props_def ex_command2_def ex_call2_def ex_command3_def ex_call3_def ex_pending_def
  ex_two_def ex_tiles_def ex_driver_error_def

lemmas run_defs = ProcessCall_def deref_def nullptr_def GetVerboseName_def kernel_duration_def
  AddKernelInfo_def AddKernelInterval_def NSEC_IN_SEC_def Let_def to_string.simps digit_char_def

lemma ex_ProcessCalls: "ProcessCalls ex_driver ex_pending = Inr ex_swept"
  by (simp add: ProcessCalls_def ex_swept_def ex_defs run_defs)

lemma ex_status:
  "call_status ex_driver ex_pending ex_call = Some ZE_RESULT_SUCCESS"
  "call_status ex_driver ex_pending ex_call2 = Some ZE_RESULT_NOT_READY"
  "call_status ex_driver_error ex_pending ex_call2 = Some (ZE_RESULT_ERROR 1)"
  by (simp_all add: call_status_def ex_defs deref_def nullptr_def)

lemma ex_events:
  "call_event ex_pending ex_call = Some 8" "call_event ex_pending ex_call2 = Some 9"
  by (simp_all add: call_event_def ex_defs deref_def nullptr_def)

lemma ex_pending_ProcessCall:
  "ProcessCall ex_driver ex_call ex_pending =
     Inr (ex_swept\<lparr>kernel_call_list := [ex_call2, ex_call]\<rparr>)"
  by (simp add: ex_swept_def ex_defs run_defs)

lemma ex_two_finalize:
  "\<exists>s'. finalize_calls ex_driver [ex_call, ex_call3] ex_two = Inr s'"
  by (simp add: ex_defs run_defs)

lemma ex_two_calls:
  "call_name ex_two ex_call = ''kern[SIMD32 {2; 1; 1} {64; 1; 1}]''"
  "call_name ex_two ex_call3 = ''kern[SIMD32 {2; 1; 1} {64; 1; 1}]''"
  "call_duration ex_driver ex_two ex_call = 300"
  "call_duration ex_driver ex_two ex_call3 = 400"
  by (simp_all add: call_name_def call_duration_def resolved_name_def ex_defs run_defs)

lemma ex_reset_run:
  "\<exists>s'. OnExitCommandListReset ex_driver 10 ZE_RESULT_SUCCESS ex_collector = Inr s'"
  by (simp add: OnExitCommandListReset_def ResetCommandList_def RemoveKernelCommands_def
      ProcessCalls_def ex_defs run_defs)

lemma ex_destroy_run:
  "\<exists>s'. OnExitCommandListDestroy ex_driver 10 ZE_RESULT_SUCCESS ex_collector = Inr s'"
  by (simp add: OnExitCommandListDestroy_def RemoveCommandList_def RemoveKernelCommands_def
      ProcessCalls_def ex_defs run_defs)

lemma ex_tiles_ProcessCall: "ProcessCall ex_driver ex_call ex_tiles = Inr ex_tiles_final"
  by (simp add: ex_tiles_final_def ex_defs run_defs)

section \<open>Lemmas on the aggregator\<close>

lemma for_indices_add:
  assumes "\<And>j a a'. j \<in> set js \<Longrightarrow> body j a = Inr a' \<Longrightarrow> a' = a + g j"
    and "for_indices body js acc = Inr r"
  shows "r = acc + sum_list (map g js)"
  using assms
proof (induction js arbitrary: acc)
  case Nil
  then show ?case by simp
next
  case (Cons j js)
  from Cons.prems(2) obtain a' where b: "body j acc = Inr a'"
    and f: "for_indices body js a' = Inr r"
    by (auto split: sum.splits)
  from Cons.prems(1) [of j acc a'] b have a': "a' = acc + g j" by simp
  from Cons.IH [OF _ f] Cons.prems(1) have "r = a' + sum_list (map g js)" by simp
  with a' show ?case by (simp add: add.assoc)
qed

lemma for_indices_fold:
  assumes "\<And>j a a'. j \<in> set js \<Longrightarrow> body j a = Inr a' \<Longrightarrow> a' = f a j"
    and "for_indices body js acc = Inr r"
  shows "r = foldl f acc js"
  using assms
proof (induction js arbitrary: acc)
  case Nil
  then show ?case by simp
next
  case (Cons j js)
  from Cons.prems(2) obtain a' where b: "body j acc = Inr a'"
    and f: "for_indices body js a' = Inr r"
    by (auto split: sum.splits)
  from Cons.prems(1) [of j acc a'] b have a': "a' = f acc j" by simp
  from Cons.IH [OF _ f] Cons.prems(1) have "r = foldl f a' js" by simp
  with a' show ?case by simp
qed

lemma for_indices_error:
  assumes "\<And>j a e. j \<in> set js \<Longrightarrow> body j a = Inl e \<Longrightarrow> P e"
    and "for_indices body js acc = Inl e"
  shows "P e"
  using assms
  by (induction js arbitrary: acc) (auto split: sum.splits)

lemma weighted_sum_column:
  "weighted_sum (column rl n m) (column rl n g) =
     sum_list (map (\<lambda>j. u64_value (rl ! (j * n + m)) * u64_value (rl ! (j * n + g)))
       [0..<length rl div n])"
  by (simp add: weighted_sum_def column_def zip_map_map o_def zip_same_conv_map)

lemma ComputeAverageValue_integer:
  assumes "ComputeAverageValue fp m rl n tc g = Inr r"
    and "is_integer_value (rl ! m)"
  shows "r = UINT64 (weighted_sum (column rl n m) (column rl n g) div tc)"
proof -
  let ?g = "\<lambda>j. u64_value (rl ! (j * n + m)) * u64_value (rl ! (j * n + g))"
  from assms(2) consider x where "rl ! m = UINT32 x" | x where "rl ! m = UINT64 x"
    by (auto simp: is_integer_value_def split: zet_typed_value_t.splits)
  then show ?thesis
  proof cases
    case 1
    with assms(1) obtain t where
      f: "for_indices
            (\<lambda>j tot. case rl ! (j * n + m) of
                UINT32 v \<Rightarrow>
                  (case rl ! (j * n + g) of
                     UINT64 c \<Rightarrow> Inr (tot + ucast v * c)
                   | _ \<Rightarrow> Inl (PTI_ASSERT ''clocks.type == ZET_VALUE_TYPE_UINT64''))
              | _ \<Rightarrow> Inl (PTI_ASSERT ''value.type == ZET_VALUE_TYPE_UINT32''))
            [0..<length rl div n] 0 = Inr t"
      and r: "r = UINT64 (t div tc)"
      by (auto simp: ComputeAverageValue_def Let_def split: if_splits sum.splits)
    have "t = 0 + sum_list (map ?g [0..<length rl div n])"
      by (rule for_indices_add [OF _ f])
         (auto simp: u64_value_def split: zet_typed_value_t.splits)
    with r show ?thesis by (simp add: weighted_sum_column)
  next
    case 2
    with assms(1) obtain t where
      f: "for_indices
            (\<lambda>j tot. case rl ! (j * n + m) of
                UINT64 v \<Rightarrow>
                  (case rl ! (j * n + g) of
                     UINT64 c \<Rightarrow> Inr (tot + v * c)
                   | _ \<Rightarrow> Inl (PTI_ASSERT ''clocks.type == ZET_VALUE_TYPE_UINT64''))
              | _ \<Rightarrow> Inl (PTI_ASSERT ''value.type == ZET_VALUE_TYPE_UINT64''))
            [0..<length rl div n] 0 = Inr t"
      and r: "r = UINT64 (t div tc)"
      by (auto simp: ComputeAverageValue_def Let_def split: if_splits sum.splits)
    have "t = 0 + sum_list (map ?g [0..<length rl div n])"
      by (rule for_indices_add [OF _ f])
         (auto simp: u64_value_def split: zet_typed_value_t.splits)
    with r show ?thesis by (simp add: weighted_sum_column)
  qed
qed

lemma ComputeTotalValue_integer:
  assumes "ComputeTotalValue fp m rl n = Inr r"
    and "is_integer_value (rl ! m)"
  shows "r = UINT64 (value_sum (column rl n m))"
proof -
  let ?g = "\<lambda>j. u64_value (rl ! (j * n + m))"
  from assms(2) consider x where "rl ! m = UINT32 x" | x where "rl ! m = UINT64 x"
    by (auto simp: is_integer_value_def split: zet_typed_value_t.splits)
  then show ?thesis
  proof cases
    case 1
    with assms(1) obtain t where
      f: "for_indices
            (\<lambda>j tot. case rl ! (j * n + m) of
                UINT32 v \<Rightarrow> Inr (tot + ucast v)
              | _ \<Rightarrow> Inl (PTI_ASSERT ''value.type == ZET_VALUE_TYPE_UINT32''))
            [0..<length rl div n] 0 = Inr t"
      and r: "r = UINT64 t"
      by (auto simp: ComputeTotalValue_def Let_def split: if_splits sum.splits)
    have "t = 0 + sum_list (map ?g [0..<length rl div n])"
      by (rule for_indices_add [OF _ f])
         (auto simp: u64_value_def split: zet_typed_value_t.splits)
    with r show ?thesis by (simp add: value_sum_def column_def o_def)
  next
    case 2
    with assms(1) obtain t where
      f: "for_indices
            (\<lambda>j tot. case rl ! (j * n + m) of
                UINT64 v \<Rightarrow> Inr (tot + v)
              | _ \<Rightarrow> Inl (PTI_ASSERT ''value.type == ZET_VALUE_TYPE_UINT64''))
            [0..<length rl div n] 0 = Inr t"
      and r: "r = UINT64 t"
      by (auto simp: ComputeTotalValue_def Let_def split: if_splits sum.splits)
    have "t = 0 + sum_list (map ?g [0..<length rl div n])"
      by (rule for_indices_add [OF _ f])
         (auto simp: u64_value_def split: zet_typed_value_t.splits)
    with r show ?thesis by (simp add: value_sum_def column_def o_def)
  qed
qed

lemma foldl_column:
  "foldl f a (column rl n m) = foldl (\<lambda>t j. f t (rl ! (j * n + m))) a [0..<length rl div n]"
  by (simp add: column_def foldl_map)

lemma foldl_zip_column:
  "foldl f a (zip (column rl n m) (column rl n g)) =
     foldl (\<lambda>t j. f t (rl ! (j * n + m), rl ! (j * n + g))) a [0..<length rl div n]"
  by (simp add: column_def zip_map_map zip_same_conv_map foldl_map)

lemma ComputeTotalValue_float:
  assumes "ComputeTotalValue fp m rl n = Inr r"
    and "is_float_value (rl ! m)"
  shows "r = FLOAT64 (float_sum fp (column rl n m))"
proof -
  let ?f = "\<lambda>t j. case rl ! (j * n + m) of
                FLOAT32 x \<Rightarrow> fp64_add fp t (fp64_of_fp32 fp x)
              | FLOAT64 x \<Rightarrow> fp64_add fp t x
              | _ \<Rightarrow> t"
  from assms(2) consider x where "rl ! m = FLOAT32 x" | x where "rl ! m = FLOAT64 x"
    by (auto simp: is_float_value_def split: zet_typed_value_t.splits)
  then show ?thesis
  proof cases
    case 1
    with assms(1) obtain t where
      f: "for_indices
            (\<lambda>j tot. case rl ! (j * n + m) of
                FLOAT32 v \<Rightarrow> Inr (fp64_add fp tot (fp64_of_fp32 fp v))
              | _ \<Rightarrow> Inl (PTI_ASSERT ''value.type == ZET_VALUE_TYPE_FLOAT32''))
            [0..<length rl div n] (fp64_zero fp) = Inr t"
      and r: "r = FLOAT64 t"
      by (auto simp: ComputeTotalValue_def Let_def split: if_splits sum.splits)
    have "t = foldl ?f (fp64_zero fp) [0..<length rl div n]"
      by (rule for_indices_fold [OF _ f]) (auto split: zet_typed_value_t.splits)
    with r show ?thesis by (simp add: float_sum_def foldl_column)
  next
    case 2
    with assms(1) obtain t where
      f: "for_indices
            (\<lambda>j tot. case rl ! (j * n + m) of
                FLOAT64 v \<Rightarrow> Inr (fp64_add fp tot v)
              | _ \<Rightarrow> Inl (PTI_ASSERT ''value.type == ZET_VALUE_TYPE_FLOAT64''))
            [0..<length rl div n] (fp64_zero fp) = Inr t"
      and r: "r = FLOAT64 t"
      by (auto simp: ComputeTotalValue_def Let_def split: if_splits sum.splits)
    have "t = foldl ?f (fp64_zero fp) [0..<length rl div n]"
      by (rule for_indices_fold [OF _ f]) (auto split: zet_typed_value_t.splits)
    with r show ?thesis by (simp add: float_sum_def foldl_column)
  qed
qed

lemma ComputeAverageValue_float:
  assumes "ComputeAverageValue fp m rl n tc g = Inr r"
    and "is_float_value (rl ! m)"
  shows "r = FLOAT64 (fp64_div fp (float_weighted_sum fp (column rl n m) (column rl n g))
           (fp64_of_u64 fp tc))"
proof -
  let ?f = "\<lambda>t j. case rl ! (j * n + m) of
                FLOAT32 x \<Rightarrow>
                  fp64_add fp t (fp64_of_fp32 fp (fp32_mul fp x
                    (fp32_of_u64 fp (u64_value (rl ! (j * n + g))))))
              | FLOAT64 x \<Rightarrow>
                  fp64_add fp t (fp64_mul fp x (fp64_of_u64 fp (u64_value (rl ! (j * n + g)))))
              | _ \<Rightarrow> t"
  from assms(2) consider x where "rl ! m = FLOAT32 x" | x where "rl ! m = FLOAT64 x"
    by (auto simp: is_float_value_def split: zet_typed_value_t.splits)
  then show ?thesis
  proof cases
    case 1
    with assms(1) obtain t where
      f: "for_indices
            (\<lambda>j tot. case rl ! (j * n + m) of
                FLOAT32 v \<Rightarrow>
                  (case rl ! (j * n + g) of
                     UINT64 c \<Rightarrow>
                       Inr (fp64_add fp tot
                         (fp64_of_fp32 fp (fp32_mul fp v (fp32_of_u64 fp c))))
                   | _ \<Rightarrow> Inl (PTI_ASSERT ''clocks.type == ZET_VALUE_TYPE_UINT64''))
              | _ \<Rightarrow> Inl (PTI_ASSERT ''value.type == ZET_VALUE_TYPE_FLOAT32''))
            [0..<length rl div n] (fp64_zero fp) = Inr t"
      and r: "r = FLOAT64 (fp64_div fp t (fp64_of_u64 fp tc))"
      by (auto simp: ComputeAverageValue_def Let_def split: if_splits sum.splits)
    have "t = foldl ?f (fp64_zero fp) [0..<length rl div n]"
      by (rule for_indices_fold [OF _ f])
         (auto simp: u64_value_def split: zet_typed_value_t.splits)
    with r show ?thesis by (simp add: float_weighted_sum_def foldl_zip_column)
  next
    case 2
    with assms(1) obtain t where
      f: "for_indices
            (\<lambda>j tot. case rl ! (j * n + m) of
                FLOAT64 v \<Rightarrow>
                  (case rl ! (j * n + g) of
                     UINT64 c \<Rightarrow>
                       Inr (fp64_add fp tot (fp64_mul fp v (fp64_of_u64 fp c)))
                   | _ \<Rightarrow> Inl (PTI_ASSERT ''clocks.type == ZET_VALUE_TYPE_UINT64''))
              | _ \<Rightarrow> Inl (PTI_ASSERT ''value.type == ZET_VALUE_TYPE_FLOAT64''))
            [0..<length rl div n] (fp64_zero fp) = Inr t"
      and r: "r = FLOAT64 (fp64_div fp t (fp64_of_u64 fp tc))"
      by (auto simp: ComputeAverageValue_def Let_def split: if_splits sum.splits)
    have "t = foldl ?f (fp64_zero fp) [0..<length rl div n]"
      by (rule for_indices_fold [OF _ f])
         (auto simp: u64_value_def split: zet_typed_value_t.splits)
    with r show ?thesis by (simp add: float_weighted_sum_def foldl_zip_column)
  qed
qed

lemma ComputeAverageValue_positive:
  "ComputeAverageValue fp m rl n tc g = Inr r \<Longrightarrow> 0 < tc"
  by (auto simp: ComputeAverageValue_def split: if_splits)

lemma add_clocks_total:
  assumes "for_indices (add_clocks rl n g) [0..<length rl div n] 0 = Inr tc"
  shows "tc = value_sum (column rl n g)"
proof -
  have "tc = 0 + sum_list (map (\<lambda>j. u64_value (rl ! (j * n + g))) [0..<length rl div n])"
    by (rule for_indices_add [OF _ assms])
       (auto simp: add_clocks_def vector_at_def u64_value_def
         split: if_splits sum.splits zet_typed_value_t.splits)
  then show ?thesis by (simp add: value_sum_def column_def o_def)
qed

lemma column_loop:
  assumes "for_indices
      (\<lambda>i agg. case f i of Inl e \<Rightarrow> Inl e | Inr None \<Rightarrow> Inr agg
         | Inr (Some v) \<Rightarrow> Inr (agg[i := v])) is agg0 = Inr row"
    and "distinct is"
  shows "length row = length agg0 \<and>
     (\<forall>i. i \<in> set is \<and> i < length agg0 \<longrightarrow>
        (\<forall>v. f i = Inr (Some v) \<longrightarrow> row ! i = v) \<and>
        (f i = Inr None \<longrightarrow> row ! i = agg0 ! i)) \<and>
     (\<forall>i. i \<notin> set is \<longrightarrow> row ! i = agg0 ! i) \<and>
     (\<forall>i \<in> set is. \<exists>y. f i = Inr y)"
  using assms
proof (induction "is" arbitrary: agg0)
  case Nil
  then show ?case by simp
next
  case (Cons k ks)
  let ?agg1 = "case f k of Inr (Some v) \<Rightarrow> agg0[k := v] | _ \<Rightarrow> agg0"
  from Cons.prems(1) have f: "for_indices
      (\<lambda>i agg. case f i of Inl e \<Rightarrow> Inl e | Inr None \<Rightarrow> Inr agg
         | Inr (Some v) \<Rightarrow> Inr (agg[i := v])) ks ?agg1 = Inr row"
    and ok: "\<exists>y. f k = Inr y"
    by (auto split: sum.splits option.splits)
  from Cons.prems(2) have d: "distinct ks" and k: "k \<notin> set ks" by simp_all
  from Cons.IH [OF f d] have
    l: "length row = length ?agg1"
    and a: "\<forall>i. i \<in> set ks \<and> i < length ?agg1 \<longrightarrow>
        (\<forall>v. f i = Inr (Some v) \<longrightarrow> row ! i = v) \<and>
        (f i = Inr None \<longrightarrow> row ! i = ?agg1 ! i)"
    and b: "\<forall>i. i \<notin> set ks \<longrightarrow> row ! i = ?agg1 ! i"
    and c: "\<forall>i \<in> set ks. \<exists>y. f i = Inr y"
    by blast+
  have l1: "length ?agg1 = length agg0"
    by (auto split: sum.splits option.splits)
  have n1: "\<And>i. i \<noteq> k \<Longrightarrow> ?agg1 ! i = agg0 ! i"
    by (auto split: sum.splits option.splits)
  have k1: "k < length agg0 \<Longrightarrow> (\<forall>v. f k = Inr (Some v) \<longrightarrow> ?agg1 ! k = v) \<and>
      (f k = Inr None \<longrightarrow> ?agg1 ! k = agg0 ! k)"
    by (auto split: sum.splits option.splits)
  show ?case
  proof (intro conjI allI impI)
    from l l1 show "length row = length agg0" by simp
  next
    fix i v assume i: "i \<in> set (k # ks) \<and> i < length agg0" and v: "f i = Inr (Some v)"
    show "row ! i = v"
    proof (cases "i = k")
      case True
      with b k have "row ! i = ?agg1 ! k" by simp
      with k1 i v True show ?thesis by simp
    next
      case False
      with i a l1 v show ?thesis by simp
    qed
  next
    fix i assume i: "i \<in> set (k # ks) \<and> i < length agg0" and v: "f i = Inr None"
    show "row ! i = agg0 ! i"
    proof (cases "i = k")
      case True
      with b k have "row ! i = ?agg1 ! k" by simp
      with k1 i v True show ?thesis by simp
    next
      case False
      with i a l1 v n1 show ?thesis by simp
    qed
  next
    fix i assume "i \<notin> set (k # ks)"
    with b n1 show "row ! i = agg0 ! i" by simp
  next
    from ok c show "\<forall>i \<in> set (k # ks). \<exists>y. f i = Inr y" by simp
  qed
qed

lemma aggregate_column_sum:
  "is_sum_column ml mtl i \<Longrightarrow>
     aggregate_column fp ml mtl rl n tc g i = map_sum id Some (ComputeTotalValue fp i rl n)"
  by (auto simp: aggregate_column_def is_sum_column_def)

lemma aggregate_column_average:
  "is_average_column ml mtl i \<Longrightarrow>
     aggregate_column fp ml mtl rl n tc g i =
       map_sum id Some (ComputeAverageValue fp i rl n tc g)"
  by (auto simp: aggregate_column_def is_average_column_def)

lemma GetAggregatedMetrics_Inr:
  assumes "GetAggregatedMetrics pr fp start end sd tid gid = Inr row"
    and "metric_collector pr = Some mc"
    and "GetMetricInterval pr start end sd tid = Inr rl"
    and "rl \<noteq> []"
    and "n = GetReportSize mc sd"
  shows "0 < n \<and> length (GetMetricList mc sd) = n \<and> length (GetMetricTypeList mc sd) = n \<and>
     length rl div n * n = length rl \<and>
     for_indices (add_clocks rl n gid) [0..<length rl div n] 0 =
       Inr (value_sum (column rl n gid)) \<and>
     for_indices
       (\<lambda>i agg. case aggregate_column fp (GetMetricList mc sd) (GetMetricTypeList mc sd)
                        rl n (value_sum (column rl n gid)) gid i of
                   Inl e \<Rightarrow> Inl e
                 | Inr None \<Rightarrow> Inr agg
                 | Inr (Some v) \<Rightarrow> Inr (agg[i := v]))
       [0..<n] (replicate n (UINT32 0)) = Inr row"
proof -
  from assms have n: "0 < n" and l: "length (GetMetricList mc sd) = n"
    "length (GetMetricTypeList mc sd) = n" "length rl div n * n = length rl"
    by (auto simp: GetAggregatedMetrics_def Let_def split: if_splits)
  from l(3) assms(4) n have c: "length rl div n \<noteq> 0"
    by (metis length_0_conv mult_0)
  from assms n l c obtain tc where
    t: "for_indices (add_clocks rl n gid) [0..<length rl div n] 0 = Inr tc"
    and r: "for_indices
       (\<lambda>i agg. case aggregate_column fp (GetMetricList mc sd) (GetMetricTypeList mc sd)
                        rl n tc gid i of
                   Inl e \<Rightarrow> Inl e
                 | Inr None \<Rightarrow> Inr agg
                 | Inr (Some v) \<Rightarrow> Inr (agg[i := v]))
       [0..<n] (replicate n (UINT32 0)) = Inr row"
    by (auto simp: GetAggregatedMetrics_def Let_def split: if_splits sum.splits)
  from add_clocks_total [OF t] t r n l show ?thesis by simp
qed

lemma GetAggregatedMetrics_column:
  assumes "GetAggregatedMetrics pr fp start end sd tid gid = Inr row"
    and "metric_collector pr = Some mc"
    and "GetMetricInterval pr start end sd tid = Inr rl"
    and "rl \<noteq> []"
    and "n = GetReportSize mc sd"
    and "i < n"
  shows "length row = n \<and>
     (\<exists>y. aggregate_column fp (GetMetricList mc sd) (GetMetricTypeList mc sd)
             rl n (value_sum (column rl n gid)) gid i = Inr y \<and>
           row ! i = (case y of None \<Rightarrow> UINT32 0 | Some v \<Rightarrow> v))"
proof -
  let ?f = "aggregate_column fp (GetMetricList mc sd) (GetMetricTypeList mc sd)
             rl n (value_sum (column rl n gid)) gid"
  from GetAggregatedMetrics_Inr [OF assms(1-5)]
  have r: "for_indices
       (\<lambda>i agg. case ?f i of
                   Inl e \<Rightarrow> Inl e
                 | Inr None \<Rightarrow> Inr agg
                 | Inr (Some v) \<Rightarrow> Inr (agg[i := v]))
       [0..<n] (replicate n (UINT32 0)) = Inr row"
    by blast
  from column_loop [of ?f "[0..<n]" "replicate n (UINT32 0)" row, OF r] assms(6)
  have l: "length row = n"
    and a: "\<forall>v. ?f i = Inr (Some v) \<longrightarrow> row ! i = v"
    and b: "?f i = Inr None \<longrightarrow> row ! i = UINT32 0"
    and c: "\<exists>y. ?f i = Inr y"
    by auto
  from c obtain y where y: "?f i = Inr y" by blast
  with a b have "row ! i = (case y of None \<Rightarrow> UINT32 0 | Some v \<Rightarrow> v)"
    by (cases y) auto
  with l y show ?thesis by blast
qed

lemma word_mul_div_cancel:
  fixes v c :: u64
  assumes "unat v * unat c < 2 ^ 64" and "0 < c"
  shows "v * c div c = v"
proof -
  from assms(1) have m: "unat (v * c) = unat v * unat c"
    by (simp add: unat_mult_lem [THEN iffD1])
  from assms(2) have p: "0 < unat c"
    by (simp add: unat_gt_0)
  have "unat (v * c div c) = unat v"
    using m p by (simp add: unat_div)
  then show ?thesis
    by (simp add: word_unat_eq_iff)
qed

lemma positive_sum:
  fixes cs :: "u64 list"
  assumes "sum_list (map unat cs) < 2 ^ 64" and "\<exists>c \<in> set cs. 0 < c"
  shows "0 < sum_list cs"
proof -
  have u: "unat (sum_list cs) = sum_list (map unat cs) mod 2 ^ 64"
    by (induction cs) (simp_all add: unat_word_ariths mod_add_right_eq)
  from assms(2) obtain c where "c \<in> set cs" "0 < unat c"
    by (auto simp: unat_gt_0)
  then have "0 < sum_list (map unat cs)"
    by (induction cs) auto
  with u assms(1) have "0 < unat (sum_list cs)" by simp
  then show ?thesis by (simp add: unat_gt_0 word_greater_zero_iff)
qed

lemma single_report_column:
  "0 < n \<Longrightarrow> length rl = n \<Longrightarrow> column rl n i = [rl ! i]"
  by (simp add: column_def)

lemma collect_no_match:
  "list_all (\<lambda>v. \<not> in_window start end v) (map (\<lambda>i. chunk ! (i * n + tid)) is) \<Longrightarrow>
   for_indices (collect_report start end tid n chunk) is t = Inr r \<Longrightarrow> r = t"
proof (induction "is" arbitrary: t)
  case Nil
  then show ?case by simp
next
  case (Cons i "is")
  from Cons.prems have "collect_report start end tid n chunk i t = Inr t"
    by (auto simp: collect_report_def vector_at_def in_window_def
        split: sum.splits if_splits zet_typed_value_t.splits)
  with Cons show ?case by simp
qed

lemma collect_well_formed:
  "list_all (\<lambda>v. \<not> in_window start end v) (map (\<lambda>i. chunk ! (i * n + tid)) is) \<Longrightarrow>
   list_all is_time_value (map (\<lambda>i. chunk ! (i * n + tid)) is) \<Longrightarrow>
   \<forall>i \<in> set is. i * n + tid < length chunk \<Longrightarrow>
   for_indices (collect_report start end tid n chunk) is t = Inr t"
proof (induction "is")
  case Nil
  then show ?case by simp
next
  case (Cons i "is")
  from Cons.prems have "collect_report start end tid n chunk i t = Inr t"
    by (auto simp: collect_report_def vector_at_def in_window_def is_time_value_def
        split: sum.splits if_splits zet_typed_value_t.splits)
  with Cons show ?case by simp
qed

lemma scan_no_match:
  "no_report_in_window start end tid n chunks \<Longrightarrow>
   scan_chunks start end tid n chunks t = Inr r \<Longrightarrow> r = t"
proof (induction chunks)
  case Nil
  then show ?case by simp
next
  case (Cons chunk chunks)
  show ?case
  proof (cases "chunk = []")
    case True
    with Cons.prems show ?thesis by simp
  next
    case False
    with Cons.prems have c: "list_all (\<lambda>v. \<not> in_window start end v)
        (map (\<lambda>i. chunk ! (i * n + tid)) [0..<length chunk div n])"
      and rest: "no_report_in_window start end tid n chunks"
      by (simp_all add: no_report_in_window_def column_def)
    from Cons.prems(2) False
    have "scan_chunks start end tid n chunks t = Inr r \<or>
      (\<exists>t'. for_indices (collect_report start end tid n chunk) [0..<length chunk div n] t =
          Inr t' \<and> scan_chunks start end tid n chunks t' = Inr r)"
      by (auto simp: Let_def split: if_splits sum.splits zet_typed_value_t.splits)
    with collect_no_match [OF c] Cons.IH [OF rest] show ?thesis by auto
  qed
qed

lemma index_in_chunk:
  assumes "length chunk div n * n = length chunk" "i < length chunk div n" "tid < n"
  shows "i * n + tid < length chunk"
proof -
  from assms(2) have "Suc i \<le> length chunk div n" by simp
  then have "Suc i * n \<le> length chunk div n * n" by (rule mult_le_mono1)
  with assms(1,3) show ?thesis by simp
qed

lemma scan_well_formed:
  "no_report_in_window start end tid n chunks \<Longrightarrow>
   well_formed_chunks tid n chunks \<Longrightarrow> 0 < n \<Longrightarrow> tid < n \<Longrightarrow>
   scan_chunks start end tid n chunks t = Inr t"
proof (induction chunks)
  case Nil
  then show ?case by simp
next
  case (Cons chunk chunks)
  show ?case
  proof (cases "chunk = []")
    case True
    then show ?thesis by simp
  next
    case False
    let ?k = "length chunk div n"
    from Cons.prems False have c: "list_all (\<lambda>v. \<not> in_window start end v)
        (map (\<lambda>i. chunk ! (i * n + tid)) [0..<?k])"
      and w: "list_all is_time_value (map (\<lambda>i. chunk ! (i * n + tid)) [0..<?k])"
      and l: "?k * n = length chunk"
      and rest: "scan_chunks start end tid n chunks t = Inr t"
      using Cons.IH
      by (simp_all add: no_report_in_window_def well_formed_chunks_def column_def)
    from l False have k: "0 < ?k" by (cases "?k") auto
    have r: "\<forall>i \<in> set [0..<?k]. i * n + tid < length chunk"
      using index_in_chunk [OF l _ Cons.prems(4)] by simp
    from r k have r0: "tid < length chunk" "(?k - 1) * n + tid < length chunk"
      by (auto dest: bspec [where x = 0] bspec [where x = "?k - 1"])
    from w k have t0: "is_time_value (chunk ! tid)" "is_time_value (chunk ! ((?k - 1) * n + tid))"
      by (auto simp: list_all_iff dest: bspec [where x = 0] bspec [where x = "?k - 1"])
    note cw = collect_well_formed [OF c w r, of t]
    from False l r0 t0 cw rest show ?thesis
      by (auto simp: Let_def vector_at_def is_time_value_def split: zet_typed_value_t.splits)
  qed
qed

lemma collect_report_error:
  "collect_report start end tid n chunk i t = Inl e \<Longrightarrow> e \<noteq> PTI_ASSERT ''total_clocks > 0''"
  by (auto simp: collect_report_def vector_at_def
      split: if_splits sum.splits zet_typed_value_t.splits)

lemma scan_chunks_error:
  "scan_chunks start end tid n chunks t = Inl e \<Longrightarrow> e \<noteq> PTI_ASSERT ''total_clocks > 0''"
proof (induction chunks arbitrary: t)
  case Nil
  then show ?case by simp
next
  case (Cons chunk chunks)
  from Cons.prems consider
    "e \<noteq> PTI_ASSERT ''total_clocks > 0''"
    | "scan_chunks start end tid n chunks t = Inl e"
    | "for_indices (collect_report start end tid n chunk) [0..<length chunk div n] t = Inl e"
    | t' where "scan_chunks start end tid n chunks t' = Inl e"
    by (auto simp: Let_def vector_at_def
        split: if_splits sum.splits zet_typed_value_t.splits)
  then show ?case
  proof cases
    case 1
    then show ?thesis .
  next
    case 2
    then show ?thesis by (rule Cons.IH)
  next
    case 3
    show ?thesis
      by (rule for_indices_error [OF _ 3]) (rule collect_report_error)
  next
    case 4
    then show ?thesis by (rule Cons.IH)
  qed
qed

lemma GetMetricInterval_error:
  "GetMetricInterval pr start end sd tid = Inl e \<Longrightarrow> e \<noteq> PTI_ASSERT ''total_clocks > 0''"
  by (auto simp: GetMetricInterval_def Let_def split: if_splits option.splits
      dest: scan_chunks_error)

lemma for_indices_Inl:
  "for_indices body js acc = Inl e \<Longrightarrow> \<exists>j a. body j a = Inl e"
  by (induction js arbitrary: acc) (auto split: sum.splits)

lemma map_sum_Inl_iff: "map_sum id h x = Inl e \<longleftrightarrow> x = Inl e"
  by (cases x) auto

lemma case_sum_Inl_iff:
  "(case x of Inl e \<Rightarrow> Inl e | Inr t \<Rightarrow> Inr (h t)) = Inl err \<longleftrightarrow> x = Inl err"
  by (cases x) auto

lemma ComputeTotalValue_error:
  assumes "ComputeTotalValue fp m rl n = Inl e"
  shows "e \<noteq> PTI_ASSERT ''total_clocks > 0''"
proof
  assume e: "e = PTI_ASSERT ''total_clocks > 0''"
  show False
  proof (cases "rl ! m")
    case (UINT32 x)
    with assms e show False
      by (auto simp: ComputeTotalValue_def Let_def case_sum_Inl_iff
          split: if_splits zet_typed_value_t.splits dest!: for_indices_Inl)
  next
    case (UINT64 x)
    with assms e show False
      by (auto simp: ComputeTotalValue_def Let_def case_sum_Inl_iff
          split: if_splits zet_typed_value_t.splits dest!: for_indices_Inl)
  next
    case (FLOAT32 x)
    with assms e show False
      by (auto simp: ComputeTotalValue_def Let_def case_sum_Inl_iff
          split: if_splits zet_typed_value_t.splits dest!: for_indices_Inl)
  next
    case (FLOAT64 x)
    with assms e show False
      by (auto simp: ComputeTotalValue_def Let_def case_sum_Inl_iff
          split: if_splits zet_typed_value_t.splits dest!: for_indices_Inl)
  next
    case (BOOL8 x)
    with assms e show False
      by (auto simp: ComputeTotalValue_def Let_def split: if_splits)
  qed
qed

lemma ComputeAverageValue_error:
  assumes "ComputeAverageValue fp m rl n tc g = Inl (PTI_ASSERT ''total_clocks > 0'')"
  shows "\<not> 0 < tc"
proof
  assume p: "0 < tc"
  show False
  proof (cases "rl ! m")
    case (UINT32 x)
    with assms p show False
      by (auto simp: ComputeAverageValue_def Let_def case_sum_Inl_iff
          split: if_splits zet_typed_value_t.splits dest!: for_indices_Inl)
  next
    case (UINT64 x)
    with assms p show False
      by (auto simp: ComputeAverageValue_def Let_def case_sum_Inl_iff
          split: if_splits zet_typed_value_t.splits dest!: for_indices_Inl)
  next
    case (FLOAT32 x)
    with assms p show False
      by (auto simp: ComputeAverageValue_def Let_def case_sum_Inl_iff
          split: if_splits zet_typed_value_t.splits dest!: for_indices_Inl)
  next
    case (FLOAT64 x)
    with assms p show False
      by (auto simp: ComputeAverageValue_def Let_def case_sum_Inl_iff
          split: if_splits zet_typed_value_t.splits dest!: for_indices_Inl)
  next
    case (BOOL8 x)
    with assms p show False
      by (auto simp: ComputeAverageValue_def Let_def split: if_splits)
  qed
qed

lemma aggregate_column_error:
  assumes "aggregate_column fp ml mtl rl n tc g i = Inl (PTI_ASSERT ''total_clocks > 0'')"
  shows "\<not> 0 < tc"
proof -
  from assms consider
    "ComputeTotalValue fp i rl n = Inl (PTI_ASSERT ''total_clocks > 0'')"
    | "ComputeAverageValue fp i rl n tc g = Inl (PTI_ASSERT ''total_clocks > 0'')"
    by (simp add: aggregate_column_def map_sum_Inl_iff
        split: if_splits zet_metric_type_t.splits)
  then show ?thesis
  proof cases
    case 1
    from ComputeTotalValue_error [OF 1] show ?thesis by simp
  next
    case 2
    then show ?thesis by (rule ComputeAverageValue_error)
  qed
qed

lemma add_clocks_error:
  "add_clocks rl n g j a = Inl e \<Longrightarrow> e \<noteq> PTI_ASSERT ''total_clocks > 0''"
  by (auto simp: add_clocks_def vector_at_def
      split: if_splits sum.splits zet_typed_value_t.splits)

lemma GetAggregatedMetrics_total_clocks_error:
  assumes "GetAggregatedMetrics pr fp start end sd tid gid =
      Inl (PTI_ASSERT ''total_clocks > 0'')"
    and "metric_collector pr = Some mc"
    and "GetMetricInterval pr start end sd tid = Inr rl"
    and "n = GetReportSize mc sd"
  shows "\<not> 0 < value_sum (column rl n gid)"
proof -
  let ?e = "PTI_ASSERT ''total_clocks > 0''"
  from assms consider
    "for_indices (add_clocks rl n gid) [0..<length rl div n] 0 = Inl ?e"
    | tc where "for_indices (add_clocks rl n gid) [0..<length rl div n] 0 = Inr tc"
      "for_indices
         (\<lambda>i agg. case aggregate_column fp (GetMetricList mc sd) (GetMetricTypeList mc sd)
                          rl n tc gid i of
                     Inl e \<Rightarrow> Inl e
                   | Inr None \<Rightarrow> Inr agg
                   | Inr (Some v) \<Rightarrow> Inr (agg[i := v]))
         [0..<n] (replicate n (UINT32 0)) = Inl ?e"
    by (auto simp: GetAggregatedMetrics_def Let_def split: if_splits sum.splits)
  then show ?thesis
  proof cases
    case 1
    from for_indices_Inl [OF 1] add_clocks_error show ?thesis by blast
  next
    case 2
    from add_clocks_total [OF 2(1)] have tc: "tc = value_sum (column rl n gid)" .
    from for_indices_Inl [OF 2(2)] obtain i a where
      b: "(case aggregate_column fp (GetMetricList mc sd) (GetMetricTypeList mc sd)
                  rl n tc gid i of
             Inl e \<Rightarrow> Inl e
           | Inr None \<Rightarrow> Inr a
           | Inr (Some v) \<Rightarrow> Inr (a[i := v])) = Inl ?e"
      by blast
    have "aggregate_column fp (GetMetricList mc sd) (GetMetricTypeList mc sd) rl n tc gid i =
         Inl ?e"
    proof (cases "aggregate_column fp (GetMetricList mc sd) (GetMetricTypeList mc sd)
        rl n tc gid i")
      case (Inl err)
      with b show ?thesis by simp
    next
      case (Inr y)
      with b show ?thesis by (cases y) simp_all
    qed
    from aggregate_column_error [OF this] tc show ?thesis by simp
  qed
qed

section \<open>The aggregator's example, evaluated\<close>

lemma replicate_five: "replicate 5 x = [x, x, x, x, x]"
  by (simp add: eval_nat_numeral)

lemmas prof_defs = GetAggregatedMetrics_def GetMetricInterval_def ex_profiler_def
  ex_metric_collector_def Let_def
  vector_at_def collect_report_def add_clocks_def aggregate_column_def
  ComputeTotalValue_def ComputeAverageValue_def upt_rec replicate_five

lemma ex_interval_two:
  "GetMetricInterval (ex_profiler [ex_reports]) 50 250 0 0 = Inr ex_reports"
  by (simp add: prof_defs ex_reports_def)

lemma ex_interval_one:
  "GetMetricInterval (ex_profiler [ex_reports]) 50 150 0 0 = Inr (take 5 ex_reports)"
  by (simp add: prof_defs ex_reports_def)

lemma ex_interval_none:
  "GetMetricInterval (ex_profiler [ex_reports]) 300 400 0 0 = Inr []"
  by (simp add: prof_defs ex_reports_def)

lemma ex_aggregated_two:
  "GetAggregatedMetrics (ex_profiler [ex_reports]) fp 50 250 0 0 1 =
     Inr [UINT64 100, UINT64 5, UINT64 30, UINT64 16, UINT64 16]"
  by (simp add: prof_defs ex_reports_def)

lemma ex_aggregated_one:
  "GetAggregatedMetrics (ex_profiler [ex_reports]) fp 50 150 0 0 1 =
     Inr [UINT64 100, UINT64 2, UINT64 10, UINT64 10, UINT64 10]"
  by (simp add: prof_defs ex_reports_def)

lemma ex_collector_fields:
  "metric_collector (ex_profiler chunks) = Some (ex_metric_collector chunks)"
  "GetReportSize (ex_metric_collector chunks) 0 = 5"
  "GetMetricList (ex_metric_collector chunks) 0 = [''QueryBeginTime'', ''GpuCoreClocks'',
     ''GpuTime'', ''AvgGpuCoreFrequencyMHz'', ''EuActive'']"
  "GetMetricTypeList (ex_metric_collector chunks) 0 = [ZET_METRIC_TYPE_TIMESTAMP,
     ZET_METRIC_TYPE_EVENT, ZET_METRIC_TYPE_DURATION, ZET_METRIC_TYPE_RAW,
     ZET_METRIC_TYPE_RATIO]"
  "report_chunks (ex_metric_collector chunks) 0 = chunks"
  "sub_device_count (ex_profiler chunks) = 1"
  by (simp_all add: ex_profiler_def ex_metric_collector_def)

lemma ex_columns:
  "column ex_reports 5 (Suc 0) = [UINT64 2, UINT64 3]"
  "column ex_reports 5 2 = [UINT64 10, UINT64 20]"
  "column ex_reports 5 3 = [UINT64 10, UINT64 20]"
  "column ex_reports 5 4 = [UINT32 10, UINT32 20]"
  "column ex_reports 5 0 = [UINT64 100, UINT64 200]"
  by (simp_all add: column_def ex_reports_def upt_rec)

lemma ex_rules:
  "is_sum_column (GetMetricList (ex_metric_collector chunks) 0)
     (GetMetricTypeList (ex_metric_collector chunks) 0) 2"
  "is_average_column (GetMetricList (ex_metric_collector chunks) 0)
     (GetMetricTypeList (ex_metric_collector chunks) 0) 3"
  "is_average_column (GetMetricList (ex_metric_collector chunks) 0)
     (GetMetricTypeList (ex_metric_collector chunks) 0) 4"
  by (simp_all add: is_sum_column_def is_average_column_def ex_collector_fields)

lemma ex_cells:
  "is_integer_value (ex_reports ! 2)" "is_integer_value (ex_reports ! 3)"
  "is_integer_value (ex_reports ! 4)"
  "is_integer_value (take 5 ex_reports ! 2)" "is_integer_value (take 5 ex_reports ! 3)"
  "u64_value (take 5 ex_reports ! 1) = 2" "u64_value (take 5 ex_reports ! 2) = 10"
  "u64_value (take 5 ex_reports ! 3) = 10" "ex_reports \<noteq> []" "take 5 ex_reports \<noteq> []"
  "length (take 5 ex_reports) = 5"
  by (simp_all add: is_integer_value_def u64_value_def ex_reports_def)

section \<open>The host-anchored window and the duration\<close>

text \<open>
  Claim C1. A call that \<^verbatim>\<open>ProcessCall\<close> finalizes has passed the assertion
  \<open>start > device_submit_time\<close>; when a callback is registered it receives the
  host-anchored window: \<open>started = submit_time + (start - device_submit_time) * 10^9 /
  frequency\<close> and \<open>ended = started + duration\<close>, in 64-bit unsigned arithmetic. For the
  anchor (host 1000, device 500), the ticks 600 and 900 and the frequency \<open>10^9\<close> the
  window is 1100 to 1400. When the checks before it pass and the kernel start is not
  after the device submit time, the call ends in the failed assertion
  \<^verbatim>\<open>start > call->device_submit_time\<close>.
\<close>

theorem C1_host_window:
  "(ProcessCall drv call s = Inr s' \<and> deref s (command call) = Inr cmd \<and>
    zeEventQueryKernelTimestamp drv (event cmd) = (st, start, end) \<longrightarrow>
      device_submit_time call < start \<and>
      (callback s \<longrightarrow>
        (\<exists>a. callback_log s' = callback_log s @ [a] \<and>
           cb_started a = submit_time call +
             (start - device_submit_time call) * 1000000000 div timer_frequency cmd \<and>
           cb_ended a = cb_started a + kernel_duration start end (timer_frequency cmd) \<and>
           (submit_time call = 1000 \<and> device_submit_time call = 500 \<and> start = 600 \<and>
            end = 900 \<and> timer_frequency cmd = 1000000000 \<longrightarrow>
              cb_started a = 1100 \<and> cb_ended a = 1400)))) \<and>
   (deref s (command call) = Inr cmd \<and>
    zeEventQueryStatus drv (event cmd) = ZE_RESULT_SUCCESS \<and>
    zeEventQueryKernelTimestamp drv (event cmd) = (ZE_RESULT_SUCCESS, start, end) \<and>
    0 < timer_frequency cmd \<and> 0 < submit_time call \<and> 0 < device_submit_time call \<and>
    \<not> device_submit_time call < start \<longrightarrow>
      ProcessCall drv call s = Inl (PTI_ASSERT ''start > call->device_submit_time''))"
proof (intro conjI impI)
  assume a: "ProcessCall drv call s = Inr s' \<and> deref s (command call) = Inr cmd \<and>
    zeEventQueryKernelTimestamp drv (event cmd) = (st, start, end)"
  from a obtain cmd' start' end' s1 s2 where
    c: "deref s (command call) = Inr cmd'"
    and ts: "zeEventQueryKernelTimestamp drv (event cmd') = (ZE_RESULT_SUCCESS, start', end')"
    and mono: "start' > device_submit_time call"
    and i: "AddKernelInfo (kernel_duration start' end' (timer_frequency cmd')) (props cmd') s = Inr s1"
    and v: "AddKernelInterval drv cmd' s1 = Inr s2"
    and s': "s' = (if callback s2 then s2\<lparr>callback_log := callback_log s2 @
             [\<lparr>cb_queue = queue call,
               cb_id = to_string (unat (kernel_id cmd')) @ ''.'' @ to_string (unat (call_id call)),
               cb_name = name (props cmd'),
               cb_appended = append_time cmd',
               cb_submitted = submit_time call,
               cb_started = submit_time call +
                 (start' - device_submit_time call) * NSEC_IN_SEC div timer_frequency cmd',
               cb_ended = submit_time call +
                 (start' - device_submit_time call) * NSEC_IN_SEC div timer_frequency cmd' +
                 kernel_duration start' end' (timer_frequency cmd')\<rparr>]\<rparr> else s2)"
    by (auto elim: ProcessCall_Inr)
  from a c ts have eq: "cmd' = cmd" "start' = start" "end' = end" by simp_all
  from mono eq show "device_submit_time call < start" by simp
  from AddKernelInfo_frame [OF i] AddKernelInterval_frame [OF v]
  have fr: "callback s2 = callback s" "callback_log s2 = callback_log s"
    by auto
  {
    assume cb: "callback s"
    let ?a = "last (callback_log s')"
    from cb fr s' eq have l: "callback_log s' = callback_log s @ [?a]"
      and st: "cb_started ?a = submit_time call +
             (start - device_submit_time call) * 1000000000 div timer_frequency cmd"
      and en: "cb_ended ?a = cb_started ?a + kernel_duration start end (timer_frequency cmd)"
      by (simp_all add: NSEC_IN_SEC_def)
    have ex: "submit_time call = 1000 \<and> device_submit_time call = 500 \<and> start = 600 \<and>
            end = 900 \<and> timer_frequency cmd = 1000000000 \<longrightarrow>
              cb_started ?a = 1100 \<and> cb_ended ?a = 1400"
      using st en by (auto simp: kernel_duration_def NSEC_IN_SEC_def)
    from l st en ex show "\<exists>a. callback_log s' = callback_log s @ [a] \<and>
           cb_started a = submit_time call +
             (start - device_submit_time call) * 1000000000 div timer_frequency cmd \<and>
           cb_ended a = cb_started a + kernel_duration start end (timer_frequency cmd) \<and>
           (submit_time call = 1000 \<and> device_submit_time call = 500 \<and> start = 600 \<and>
            end = 900 \<and> timer_frequency cmd = 1000000000 \<longrightarrow>
              cb_started a = 1100 \<and> cb_ended a = 1400)"
      by blast
  }
next
  assume "deref s (command call) = Inr cmd \<and>
    zeEventQueryStatus drv (event cmd) = ZE_RESULT_SUCCESS \<and>
    zeEventQueryKernelTimestamp drv (event cmd) = (ZE_RESULT_SUCCESS, start, end) \<and>
    0 < timer_frequency cmd \<and> 0 < submit_time call \<and> 0 < device_submit_time call \<and>
    \<not> device_submit_time call < start"
  then show "ProcessCall drv call s = Inl (PTI_ASSERT ''start > call->device_submit_time'')"
    by (simp add: ProcessCall_def Let_def)
qed

theorem C1_host_window_witness:
  "device_submit_time ex_call < 600 \<and>
   (\<exists>a. callback_log ex_final = callback_log ex_collector @ [a] \<and>
      cb_started a = 1100 \<and> cb_ended a = 1400) \<and>
   ProcessCall ex_driver (ex_call\<lparr>device_submit_time := 700\<rparr>) ex_collector =
     Inl (PTI_ASSERT ''start > call->device_submit_time'')"
proof -
  have v: "callback ex_collector" "submit_time ex_call = 1000"
    "device_submit_time ex_call = 500" "timer_frequency ex_command = 1000000000"
    by (simp_all add: ex_collector_def ex_call_def ex_command_def)
  from C1_host_window [of ex_driver ex_call ex_collector ex_final ex_command
      ZE_RESULT_SUCCESS 600 900]
    ex_ProcessCall ex_deref ex_timestamp v
  have 1: "device_submit_time ex_call < 600 \<and>
   (\<exists>a. callback_log ex_final = callback_log ex_collector @ [a] \<and>
      cb_started a = 1100 \<and> cb_ended a = 1400)"
    by auto
  have d: "deref ex_collector (command (ex_call\<lparr>device_submit_time := 700\<rparr>)) = Inr ex_command"
    using ex_deref by simp
  have w: "zeEventQueryStatus ex_driver (event ex_command) = ZE_RESULT_SUCCESS"
    "0 < timer_frequency ex_command" "0 < submit_time (ex_call\<lparr>device_submit_time := 700\<rparr>)"
    "0 < device_submit_time (ex_call\<lparr>device_submit_time := 700\<rparr>)"
    "\<not> device_submit_time (ex_call\<lparr>device_submit_time := 700\<rparr>) < 600"
    by (simp_all add: ex_driver_def ex_command_def ex_call_def)
  from C1_host_window [of ex_driver "ex_call\<lparr>device_submit_time := 700\<rparr>" ex_collector
      ex_final ex_command ZE_RESULT_SUCCESS 600 900] d w ex_timestamp
  have 2: "ProcessCall ex_driver (ex_call\<lparr>device_submit_time := 700\<rparr>) ex_collector =
     Inl (PTI_ASSERT ''start > call->device_submit_time'')"
    by blast
  from 1 2 show ?thesis by blast
qed

text \<open>
  The duration as the specification words it differs from the code where the two ticks
  are equal: the code takes the wrap-around branch, and the call of the scenario,
  finalized with equal ticks, is filed with a duration of \<open>2^32\<close> ticks.
\<close>

theorem C2_duration_counterexample:
  "kernel_duration 600 600 1000000000 = 4294967296 \<and>
   claimed_duration 600 600 1000000000 = 0 \<and>
   (case ProcessCall ex_driver_equal ex_call ex_collector of
      Inl e \<Rightarrow> None
    | Inr s' \<Rightarrow>
        map_option total_time (kernel_info_map s' ''kern[SIMD32 {2; 1; 1} {64; 1; 1}]'')) =
     Some 4294967296"
  by (simp add: kernel_duration_def claimed_duration_def NSEC_IN_SEC_def
      ProcessCall_def deref_def nullptr_def GetVerboseName_def AddKernelInfo_def
      AddKernelInterval_def Let_def to_string.simps digit_char_def
      ex_collector_def ex_call_def ex_command_def ex_driver_def ex_driver_equal_def
      ex_props_def)

text \<open>
  Claim C2, amended. The duration of a finalized call, which is added to the total
  time of the KernelInfo entry of its name and is the length of the window the callback
  receives, is the tick delta times \<open>10^9\<close> divided by the command's timer frequency, in
  64-bit unsigned arithmetic; the delta is \<open>end - start\<close> when \<open>start < end\<close> and
  \<open>2^32 + end - start\<close> when \<open>end \<le> start\<close>: equal ticks count as one full wrap of the
  32-bit timer.
\<close>

theorem C2_duration:
  "ProcessCall drv call s = Inr s' \<and> deref s (command call) = Inr cmd \<and>
   zeEventQueryKernelTimestamp drv (event cmd) = (st, start, end) \<longrightarrow>
     (\<exists>d k'.
        d = (if end \<le> start then 2 ^ 32 + end - start else end - start) * 1000000000
              div timer_frequency cmd \<and>
        d = kernel_duration start end (timer_frequency cmd) \<and>
        kernel_info_map s' (resolved_name (verbose s) (props cmd)) = Some k' \<and>
        total_time k' =
          (case kernel_info_map s (resolved_name (verbose s) (props cmd)) of
             None \<Rightarrow> 0 | Some k \<Rightarrow> total_time k) + d \<and>
        (callback s \<longrightarrow>
          (\<exists>a. callback_log s' = callback_log s @ [a] \<and> cb_ended a - cb_started a = d)))"
proof
  assume a: "ProcessCall drv call s = Inr s' \<and> deref s (command call) = Inr cmd \<and>
    zeEventQueryKernelTimestamp drv (event cmd) = (st, start, end)"
  let ?d = "kernel_duration start end (timer_frequency cmd)"
  let ?nm = "resolved_name (verbose s) (props cmd)"
  from a obtain cmd' start' end' s1 s2 where
    c: "deref s (command call) = Inr cmd'"
    and ts: "zeEventQueryKernelTimestamp drv (event cmd') = (ZE_RESULT_SUCCESS, start', end')"
    and i: "AddKernelInfo (kernel_duration start' end' (timer_frequency cmd')) (props cmd') s = Inr s1"
    and v: "AddKernelInterval drv cmd' s1 = Inr s2"
    and s': "s' = (if callback s2 then s2\<lparr>callback_log := callback_log s2 @
             [\<lparr>cb_queue = queue call,
               cb_id = to_string (unat (kernel_id cmd')) @ ''.'' @ to_string (unat (call_id call)),
               cb_name = name (props cmd'),
               cb_appended = append_time cmd',
               cb_submitted = submit_time call,
               cb_started = submit_time call +
                 (start' - device_submit_time call) * NSEC_IN_SEC div timer_frequency cmd',
               cb_ended = submit_time call +
                 (start' - device_submit_time call) * NSEC_IN_SEC div timer_frequency cmd' +
                 kernel_duration start' end' (timer_frequency cmd')\<rparr>]\<rparr> else s2)"
    by (auto elim: ProcessCall_Inr)
  from a c ts have eq: "cmd' = cmd" "start' = start" "end' = end" by simp_all
  have d: "?d = (if end \<le> start then 2 ^ 32 + end - start else end - start) * 1000000000
              div timer_frequency cmd"
  proof -
    have "end \<le> start \<longleftrightarrow> \<not> start < end" by auto
    then show ?thesis by (simp add: kernel_duration_def NSEC_IN_SEC_def)
  qed
  from AddKernelInfo_Inr [OF i] eq
  have s1: "s1 = s\<lparr>kernel_info_map := (kernel_info_map s)(?nm \<mapsto>
           add_time ?d (kernel_info_map s ?nm))\<rparr>"
    by simp
  from AddKernelInterval_frame [OF v] obtain l where s2: "s2 = s1\<lparr>kernel_interval_list := l\<rparr>"
    by blast
  from s1 s2 s' have k: "kernel_info_map s' ?nm = Some (add_time ?d (kernel_info_map s ?nm))"
    by simp
  have t: "total_time (add_time ?d (kernel_info_map s ?nm)) =
      (case kernel_info_map s ?nm of None \<Rightarrow> 0 | Some k \<Rightarrow> total_time k) + ?d"
    by (simp add: add_time_def split: option.splits)
  have cb: "callback s \<longrightarrow>
          (\<exists>a. callback_log s' = callback_log s @ [a] \<and> cb_ended a - cb_started a = ?d)"
    using s1 s2 s' eq by simp
  from d k t cb show "\<exists>d k'.
        d = (if end \<le> start then 2 ^ 32 + end - start else end - start) * 1000000000
              div timer_frequency cmd \<and>
        d = kernel_duration start end (timer_frequency cmd) \<and>
        kernel_info_map s' (resolved_name (verbose s) (props cmd)) = Some k' \<and>
        total_time k' =
          (case kernel_info_map s (resolved_name (verbose s) (props cmd)) of
             None \<Rightarrow> 0 | Some k \<Rightarrow> total_time k) + d \<and>
        (callback s \<longrightarrow>
          (\<exists>a. callback_log s' = callback_log s @ [a] \<and> cb_ended a - cb_started a = d))"
    by blast
qed

theorem C2_duration_witness:
  "\<exists>k'. kernel_info_map ex_final ''kern[SIMD32 {2; 1; 1} {64; 1; 1}]'' = Some k' \<and>
      total_time k' = 300"
proof -
  have n: "kernel_info_map ex_collector ''kern[SIMD32 {2; 1; 1} {64; 1; 1}]'' = None"
    "timer_frequency ex_command = 1000000000"
    by (simp_all add: ex_collector_def ex_command_def)
  from C2_duration [of ex_driver ex_call ex_collector ex_final ex_command
      ZE_RESULT_SUCCESS 600 900]
    ex_ProcessCall ex_deref ex_timestamp
  obtain d k' where "d = (if (900::u64) \<le> 600 then 2 ^ 32 + 900 - 600 else 900 - 600) * 1000000000
              div timer_frequency ex_command"
    "kernel_info_map ex_final (resolved_name (verbose ex_collector) (props ex_command)) = Some k'"
    "total_time k' =
          (case kernel_info_map ex_collector (resolved_name (verbose ex_collector) (props ex_command)) of
             None \<Rightarrow> 0 | Some k \<Rightarrow> total_time k) + d"
    by blast
  then show ?thesis
    using n by (simp add: ex_resolved_name)
qed

section \<open>KernelInfo statistics\<close>

text \<open>
  Claim C3. Let a sequence of calls be finalized one after the other, from a state in
  which a name has no KernelInfo entry, and let \<open>d\<^sub>1, ..., d\<^sub>N\<close> be the durations of
  those calls of the sequence that resolve to the name, in order. With \<open>N = 0\<close> the name
  still has no entry. With \<open>N \<ge> 1\<close> its entry has the call count \<open>N\<close>, the total time
  \<open>d\<^sub>1 + ... + d\<^sub>N\<close>, the least duration as minimum and the greatest as maximum; the
  fields are \<^verbatim>\<open>uint64_t\<close>, so the total is the sum modulo \<open>2^64\<close>.
\<close>

theorem C3_kernel_info:
  "finalize_calls drv calls s = Inr s' \<and> kernel_info_map s nm = None \<and>
   ds = map (call_duration drv s) (filter (\<lambda>c. call_name s c = nm) calls) \<longrightarrow>
     (ds = [] \<longrightarrow> kernel_info_map s' nm = None) \<and>
     (ds \<noteq> [] \<longrightarrow>
        kernel_info_map s' nm =
          Some \<lparr>total_time = sum_list ds, min_time = Min (set ds), max_time = Max (set ds),
            call_count = of_nat (length ds)\<rparr> \<and>
        unat (sum_list ds) = sum_list (map unat ds) mod 2 ^ 64)"
proof (intro impI)
  assume a: "finalize_calls drv calls s = Inr s' \<and> kernel_info_map s nm = None \<and>
   ds = map (call_duration drv s) (filter (\<lambda>c. call_name s c = nm) calls)"
  then have k: "kernel_info_map s' nm = add_times None ds"
    using finalize_calls_kernel_info [of drv calls s s' nm] by simp
  show "(ds = [] \<longrightarrow> kernel_info_map s' nm = None) \<and>
     (ds \<noteq> [] \<longrightarrow>
        kernel_info_map s' nm =
          Some \<lparr>total_time = sum_list ds, min_time = Min (set ds), max_time = Max (set ds),
            call_count = of_nat (length ds)\<rparr> \<and>
        unat (sum_list ds) = sum_list (map unat ds) mod 2 ^ 64)"
    using k by (auto simp: add_times_None unat_sum_list)
qed

theorem C3_kernel_info_witness:
  "\<exists>s'. finalize_calls ex_driver [ex_call, ex_call3] ex_two = Inr s' \<and>
      kernel_info_map s' ''kern[SIMD32 {2; 1; 1} {64; 1; 1}]'' =
        Some \<lparr>total_time = 700, min_time = 300, max_time = 400, call_count = 2\<rparr> \<and>
      kernel_info_map s' ''other'' = None"
proof -
  from ex_two_finalize obtain s' where
    f: "finalize_calls ex_driver [ex_call, ex_call3] ex_two = Inr s'"
    by blast
  have n: "kernel_info_map ex_two ''kern[SIMD32 {2; 1; 1} {64; 1; 1}]'' = None"
    "kernel_info_map ex_two ''other'' = None"
    by (simp_all add: ex_defs)
  have ds: "[300, 400] = map (call_duration ex_driver ex_two)
      (filter (\<lambda>c. call_name ex_two c = ''kern[SIMD32 {2; 1; 1} {64; 1; 1}]'')
        [ex_call, ex_call3])"
    "[] = map (call_duration ex_driver ex_two)
      (filter (\<lambda>c. call_name ex_two c = ''other'') [ex_call, ex_call3])"
    by (simp_all add: ex_two_calls)
  from C3_kernel_info [of ex_driver "[ex_call, ex_call3]" ex_two s'
      "''kern[SIMD32 {2; 1; 1} {64; 1; 1}]''" "[300, 400]"] f n(1) ds(1)
  have "kernel_info_map s' ''kern[SIMD32 {2; 1; 1} {64; 1; 1}]'' =
        Some \<lparr>total_time = sum_list [300, 400], min_time = Min (set [300, 400]),
          max_time = Max (set [300, 400]), call_count = of_nat (length [300, 400 :: u64])\<rparr>"
    by blast
  then have 1: "kernel_info_map s' ''kern[SIMD32 {2; 1; 1} {64; 1; 1}]'' =
        Some \<lparr>total_time = 700, min_time = 300, max_time = 400, call_count = 2\<rparr>"
    by simp
  from C3_kernel_info [of ex_driver "[ex_call, ex_call3]" ex_two s' "''other''" "[]"]
    f n(2) ds(2)
  have 2: "kernel_info_map s' ''other'' = None"
    by blast
  from f 1 2 show ?thesis by blast
qed

section \<open>The sweep\<close>

text \<open>
  Claim C5. When the sweep \<^verbatim>\<open>ProcessCalls\<close> returns, the pending list holds exactly the
  calls whose status query answered not-ready, in their order, and the rest of the
  state is the one reached by finalizing the calls whose query answered success, in
  their order. A pending call whose query answers anything else makes the sweep end in
  a fatal error. The sweep asks each call's status once with \<^verbatim>\<open>zeEventQueryStatus\<close> and
  waits for no event: a not-ready call is left in the list.
\<close>

theorem C5_sweep:
  "(ProcessCalls drv s = Inr s' \<longrightarrow>
      kernel_call_list s' =
        filter (\<lambda>c. call_status drv s c = Some ZE_RESULT_NOT_READY) (kernel_call_list s) \<and>
      (\<exists>s1. finalize_calls drv
               (filter (\<lambda>c. call_status drv s c = Some ZE_RESULT_SUCCESS)
                  (kernel_call_list s)) s = Inr s1 \<and>
         s' = s1\<lparr>kernel_call_list := kernel_call_list s'\<rparr>)) \<and>
   ((\<exists>c \<in> set (kernel_call_list s). \<exists>n. call_status drv s c = Some (ZE_RESULT_ERROR n)) \<longrightarrow>
      (\<exists>e. ProcessCalls drv s = Inl e))"
proof (intro conjI impI)
  assume r: "ProcessCalls drv s = Inr s'"
  from ProcessCalls_Inr(2) [OF r]
  show "kernel_call_list s' =
        filter (\<lambda>c. call_status drv s c = Some ZE_RESULT_NOT_READY) (kernel_call_list s)" .
  from ProcessCalls_Inr(3) [OF r]
  show "\<exists>s1. finalize_calls drv
               (filter (\<lambda>c. call_status drv s c = Some ZE_RESULT_SUCCESS)
                  (kernel_call_list s)) s = Inr s1 \<and>
         s' = s1\<lparr>kernel_call_list := kernel_call_list s'\<rparr>" .
next
  assume b: "\<exists>c \<in> set (kernel_call_list s). \<exists>n. call_status drv s c = Some (ZE_RESULT_ERROR n)"
  show "\<exists>e. ProcessCalls drv s = Inl e"
  proof (cases "ProcessCalls drv s")
    case (Inl e)
    then show ?thesis by blast
  next
    case (Inr s')
    from ProcessCalls_Inr(1) [OF this] b show ?thesis
      by (auto simp: list_all_iff)
  qed
qed

theorem C5_sweep_witness:
  "ProcessCalls ex_driver ex_pending = Inr ex_swept \<and>
   kernel_call_list ex_pending = [ex_call2, ex_call] \<and>
   kernel_call_list ex_swept = [ex_call2] \<and>
   finalize_calls ex_driver [ex_call] ex_pending =
     Inr (ex_swept\<lparr>kernel_call_list := [ex_call2, ex_call]\<rparr>) \<and>
   (\<exists>e. ProcessCalls ex_driver_error ex_pending = Inl e)"
proof -
  have l: "kernel_call_list ex_pending = [ex_call2, ex_call]"
    by (simp add: ex_pending_def)
  from C5_sweep [of ex_driver ex_pending ex_swept] ex_ProcessCalls
  obtain s1 where
    1: "kernel_call_list ex_swept =
      filter (\<lambda>c. call_status ex_driver ex_pending c = Some ZE_RESULT_NOT_READY)
        (kernel_call_list ex_pending)"
    and 2: "finalize_calls ex_driver
       (filter (\<lambda>c. call_status ex_driver ex_pending c = Some ZE_RESULT_SUCCESS)
          (kernel_call_list ex_pending)) ex_pending = Inr s1"
    and 3: "ex_swept = s1\<lparr>kernel_call_list := kernel_call_list ex_swept\<rparr>"
    by blast
  from 1 have a: "kernel_call_list ex_swept = [ex_call2]"
    by (simp add: l ex_status)
  from 2 have f: "finalize_calls ex_driver [ex_call] ex_pending = Inr s1"
    by (simp add: l ex_status)
  have "finalize_calls ex_driver [ex_call] ex_pending =
     Inr (ex_swept\<lparr>kernel_call_list := [ex_call2, ex_call]\<rparr>)"
    by (simp add: ex_swept_def ex_defs run_defs)
  moreover have "\<exists>c \<in> set (kernel_call_list ex_pending). \<exists>n.
      call_status ex_driver_error ex_pending c = Some (ZE_RESULT_ERROR n)"
    by (simp add: l ex_status)
  with C5_sweep [of ex_driver_error ex_pending ex_swept]
  have "\<exists>e. ProcessCalls ex_driver_error ex_pending = Inl e" by blast
  ultimately show ?thesis using ex_ProcessCalls l a by blast
qed

section \<open>Single-event finalize\<close>

text \<open>
  Claim C8. \<^verbatim>\<open>ProcessCall(event)\<close> changes nothing when the event is not signaled. When
  it is, the first pending call whose command uses the event is finalized and removed,
  and every other pending call stays, in order. When no other pending call uses the
  event, a second finalize on the same event changes nothing: the call is not
  finalized twice.
\<close>

theorem C8_single_event:
  "(ev \<noteq> nullptr \<and> zeEventQueryStatus drv ev \<noteq> ZE_RESULT_SUCCESS \<longrightarrow>
      ProcessCall_event drv ev s = Inr s) \<and>
   (ev \<noteq> nullptr \<and> zeEventQueryStatus drv ev = ZE_RESULT_SUCCESS \<and>
    kernel_call_list s = pre @ c # post \<and>
    list_all (\<lambda>x. \<exists>e. call_event s x = Some e \<and> e \<noteq> ev) pre \<and>
    call_event s c = Some ev \<and> ProcessCall drv c s = Inr s1 \<longrightarrow>
      ProcessCall_event drv ev s = Inr (s1\<lparr>kernel_call_list := pre @ post\<rparr>) \<and>
      (list_all (\<lambda>x. \<exists>e. call_event s x = Some e \<and> e \<noteq> ev) post \<longrightarrow>
         ProcessCall_event drv ev (s1\<lparr>kernel_call_list := pre @ post\<rparr>) =
           Inr (s1\<lparr>kernel_call_list := pre @ post\<rparr>)))"
proof (intro conjI impI)
  assume "ev \<noteq> nullptr \<and> zeEventQueryStatus drv ev \<noteq> ZE_RESULT_SUCCESS"
  then show "ProcessCall_event drv ev s = Inr s"
    by (simp add: ProcessCall_event_def)
next
  assume a: "ev \<noteq> nullptr \<and> zeEventQueryStatus drv ev = ZE_RESULT_SUCCESS \<and>
    kernel_call_list s = pre @ c # post \<and>
    list_all (\<lambda>x. \<exists>e. call_event s x = Some e \<and> e \<noteq> ev) pre \<and>
    call_event s c = Some ev \<and> ProcessCall drv c s = Inr s1"
  then show "ProcessCall_event drv ev s = Inr (s1\<lparr>kernel_call_list := pre @ post\<rparr>)"
    by (simp add: ProcessCall_event_def ProcessCall_event_loop_first_match)
  assume p: "list_all (\<lambda>x. \<exists>e. call_event s x = Some e \<and> e \<noteq> ev) post"
  let ?s = "s1\<lparr>kernel_call_list := pre @ post\<rparr>"
  from a ProcessCall_frame(1) [of drv c s s1] have h: "heap ?s = heap s" by simp
  have ce: "\<And>x. call_event ?s x = call_event s x"
    by (rule call_event_heap [OF h])
  from a p have "list_all (\<lambda>x. \<exists>e. call_event ?s x = Some e \<and> e \<noteq> ev) (pre @ post)"
    unfolding ce by simp
  from ProcessCall_event_loop_no_match [OF this, of drv "[]"] a
  show "ProcessCall_event drv ev ?s = Inr ?s"
    by (simp add: ProcessCall_event_def)
qed

theorem C8_single_event_witness:
  "ProcessCall_event ex_driver 9 ex_pending = Inr ex_pending \<and>
   kernel_call_list ex_pending = [ex_call2, ex_call] \<and>
   ProcessCall_event ex_driver 8 ex_pending = Inr ex_swept \<and>
   kernel_call_list ex_swept = [ex_call2] \<and>
   ProcessCall_event ex_driver 8 ex_swept = Inr ex_swept"
proof -
  have l: "kernel_call_list ex_pending = [ex_call2] @ ex_call # []"
    by (simp add: ex_pending_def)
  have sw: "(ex_swept\<lparr>kernel_call_list := [ex_call2, ex_call]\<rparr>)\<lparr>kernel_call_list :=
      [ex_call2] @ []\<rparr> = ex_swept"
    by (simp add: ex_swept_def)
  have 1: "ProcessCall_event ex_driver 9 ex_pending = Inr ex_pending"
    using C8_single_event [of 9 ex_driver ex_pending]
    by (simp add: ex_driver_def nullptr_def)
  have st: "(8::nat) \<noteq> nullptr" "zeEventQueryStatus ex_driver 8 = ZE_RESULT_SUCCESS"
    by (simp_all add: ex_driver_def nullptr_def)
  have pre: "list_all (\<lambda>x. \<exists>e. call_event ex_pending x = Some e \<and> e \<noteq> 8) [ex_call2]"
    "list_all (\<lambda>x. \<exists>e. call_event ex_pending x = Some e \<and> e \<noteq> 8) []"
    by (simp_all add: ex_events)
  from C8_single_event [of 8 ex_driver ex_pending "[ex_call2]" ex_call "[]"
      "ex_swept\<lparr>kernel_call_list := [ex_call2, ex_call]\<rparr>"]
    st l pre ex_events(1) ex_pending_ProcessCall
  have "ProcessCall_event ex_driver 8 ex_pending =
      Inr ((ex_swept\<lparr>kernel_call_list := [ex_call2, ex_call]\<rparr>)\<lparr>kernel_call_list :=
        [ex_call2] @ []\<rparr>) \<and>
    ProcessCall_event ex_driver 8
      ((ex_swept\<lparr>kernel_call_list := [ex_call2, ex_call]\<rparr>)\<lparr>kernel_call_list :=
        [ex_call2] @ []\<rparr>) =
      Inr ((ex_swept\<lparr>kernel_call_list := [ex_call2, ex_call]\<rparr>)\<lparr>kernel_call_list :=
        [ex_call2] @ []\<rparr>)"
    by blast
  then have 2: "ProcessCall_event ex_driver 8 ex_pending = Inr ex_swept \<and>
    ProcessCall_event ex_driver 8 ex_swept = Inr ex_swept"
    unfolding sw .
  have "kernel_call_list ex_swept = [ex_call2]" by (simp add: ex_swept_def)
  with 1 2 l show ?thesis by simp
qed

section \<open>Reset and destroy of a command list\<close>

text \<open>
  Claim C6. When the reset hook (the destroy hook) of a command list returns, it has
  first run the sweep and then \<^verbatim>\<open>ResetCommandList\<close> (\<^verbatim>\<open>RemoveCommandList\<close>); the
  list's command sequence is empty (the list is gone from the map); every command the
  list owned is freed; no pending call refers to one of them, and every call that was
  pending for one of them had completed and was finalized by the sweep; the driver
  objects destroyed are, command by command, the event and the event pool of exactly
  the commands whose pool is the collector's own.
\<close>

theorem C6_reset_destroy:
  "(OnExitCommandListReset drv cl ZE_RESULT_SUCCESS s = Inr s' \<and>
    command_list_map s cl = Some info \<longrightarrow>
      (\<exists>s1. ProcessCalls drv s = Inr s1 \<and> ResetCommandList drv cl s1 = Inr s') \<and>
      command_list_map s' cl = Some (info\<lparr>kernel_command_list := []\<rparr>) \<and>
      (\<forall>p \<in> set (kernel_command_list info).
         heap s' p = None \<and> list_all (\<lambda>c. command c \<noteq> p) (kernel_call_list s') \<and>
         list_all (\<lambda>c. command c = p \<longrightarrow> call_status drv s c = Some ZE_RESULT_SUCCESS)
           (kernel_call_list s)) \<and>
      destroyed s' =
        destroyed s @ concat (map (owned_handles s) (kernel_command_list info))) \<and>
   (OnExitCommandListDestroy drv cl ZE_RESULT_SUCCESS s = Inr s' \<and>
    command_list_map s cl = Some info \<longrightarrow>
      (\<exists>s1. ProcessCalls drv s = Inr s1 \<and> RemoveCommandList drv cl s1 = Inr s') \<and>
      command_list_map s' cl = None \<and>
      (\<forall>p \<in> set (kernel_command_list info).
         heap s' p = None \<and> list_all (\<lambda>c. command c \<noteq> p) (kernel_call_list s') \<and>
         list_all (\<lambda>c. command c = p \<longrightarrow> call_status drv s c = Some ZE_RESULT_SUCCESS)
           (kernel_call_list s)) \<and>
      destroyed s' =
        destroyed s @ concat (map (owned_handles s) (kernel_command_list info)))"
proof (intro conjI impI)
  assume a: "OnExitCommandListReset drv cl ZE_RESULT_SUCCESS s = Inr s' \<and>
    command_list_map s cl = Some info"
  then obtain s1 where p: "ProcessCalls drv s = Inr s1"
    and r: "ResetCommandList drv cl s1 = Inr s'"
    by (auto simp: OnExitCommandListReset_def split: if_splits sum.splits)
  from r have k: "RemoveKernelCommands drv cl s1 = Inr s'"
    by (auto simp: ResetCommandList_def split: if_splits)
  from a have i: "command_list_map s cl = Some info" by simp
  note st = sweep_then_remove [OF p k i]
  from p r show "\<exists>s1. ProcessCalls drv s = Inr s1 \<and> ResetCommandList drv cl s1 = Inr s'"
    by blast
  from st(1) show "command_list_map s' cl = Some (info\<lparr>kernel_command_list := []\<rparr>)" .
  from st(2) show "\<forall>p \<in> set (kernel_command_list info).
         heap s' p = None \<and> list_all (\<lambda>c. command c \<noteq> p) (kernel_call_list s') \<and>
         list_all (\<lambda>c. command c = p \<longrightarrow> call_status drv s c = Some ZE_RESULT_SUCCESS)
           (kernel_call_list s)" .
  from st(3) show "destroyed s' =
        destroyed s @ concat (map (owned_handles s) (kernel_command_list info))" .
next
  assume a: "OnExitCommandListDestroy drv cl ZE_RESULT_SUCCESS s = Inr s' \<and>
    command_list_map s cl = Some info"
  then obtain s1 where p: "ProcessCalls drv s = Inr s1"
    and r: "RemoveCommandList drv cl s1 = Inr s'"
    by (auto simp: OnExitCommandListDestroy_def split: if_splits sum.splits)
  from r obtain s2 where k: "RemoveKernelCommands drv cl s1 = Inr s2"
    and s': "s' = s2\<lparr>command_list_map := (command_list_map s2)(cl := None)\<rparr>"
    by (auto simp: RemoveCommandList_def split: if_splits sum.splits)
  from a have i: "command_list_map s cl = Some info" by simp
  note st = sweep_then_remove [OF p k i]
  from p r show "\<exists>s1. ProcessCalls drv s = Inr s1 \<and> RemoveCommandList drv cl s1 = Inr s'"
    by blast
  from s' show "command_list_map s' cl = None" by simp
  from st(2) s' show "\<forall>p \<in> set (kernel_command_list info).
         heap s' p = None \<and> list_all (\<lambda>c. command c \<noteq> p) (kernel_call_list s') \<and>
         list_all (\<lambda>c. command c = p \<longrightarrow> call_status drv s c = Some ZE_RESULT_SUCCESS)
           (kernel_call_list s)"
    by simp
  from st(3) s' show "destroyed s' =
        destroyed s @ concat (map (owned_handles s) (kernel_command_list info))"
    by simp
qed

theorem C6_reset_destroy_witness:
  "(\<exists>s'. OnExitCommandListReset ex_driver 10 ZE_RESULT_SUCCESS ex_collector = Inr s' \<and>
      command_list_map s' 10 = Some \<lparr>kernel_command_list = [], cl_context = 2,
        cl_device = 3, immediate = False\<rparr> \<and>
      heap s' 1 = None \<and> list_all (\<lambda>c. command c \<noteq> 1) (kernel_call_list s') \<and>
      destroyed s' = [8, 7]) \<and>
   (\<exists>s'. OnExitCommandListDestroy ex_driver 10 ZE_RESULT_SUCCESS ex_collector = Inr s' \<and>
      command_list_map s' 10 = None \<and>
      heap s' 1 = None \<and> list_all (\<lambda>c. command c \<noteq> 1) (kernel_call_list s') \<and>
      destroyed s' = [8, 7])"
proof -
  let ?info = "\<lparr>kernel_command_list = [1], cl_context = 2, cl_device = 3,
       immediate = False\<rparr>"
  have i: "command_list_map ex_collector 10 = Some ?info"
    by (simp add: ex_defs)
  have d: "destroyed ex_collector @
      concat (map (owned_handles ex_collector) (kernel_command_list ?info)) = [8, 7]"
    by (simp add: owned_handles_def ex_defs nullptr_def)
  from ex_reset_run obtain s' where
    r: "OnExitCommandListReset ex_driver 10 ZE_RESULT_SUCCESS ex_collector = Inr s'"
    by blast
  from C6_reset_destroy [of ex_driver 10 ex_collector s' ?info] r i d
  have 1: "command_list_map s' 10 = Some \<lparr>kernel_command_list = [], cl_context = 2,
        cl_device = 3, immediate = False\<rparr> \<and>
      heap s' 1 = None \<and> list_all (\<lambda>c. command c \<noteq> 1) (kernel_call_list s') \<and>
      destroyed s' = [8, 7]"
    by simp
  from ex_destroy_run obtain s'' where
    r': "OnExitCommandListDestroy ex_driver 10 ZE_RESULT_SUCCESS ex_collector = Inr s''"
    by blast
  from C6_reset_destroy [of ex_driver 10 ex_collector s'' ?info] r' i d
  have 2: "command_list_map s'' 10 = None \<and>
      heap s'' 1 = None \<and> list_all (\<lambda>c. command c \<noteq> 1) (kernel_call_list s'') \<and>
      destroyed s'' = [8, 7]"
    by simp
  from r 1 r' 2 show ?thesis by blast
qed

section \<open>Kernel intervals\<close>

text \<open>
  Claim C7, amended. Finalizing a call appends exactly one KernelInterval record and
  leaves the earlier records as they are; so do the sweep (one record per finalized
  call), the single-event finalize and the reset and destroy hooks. The record carries
  the resolved name. Each of its slices covers the device-clock window from
  \<open>start_ns = kernel_start_ticks * 10^9 / frequency\<close> to \<open>start_ns + duration\<close>, which is
  not empty; this is not the host-anchored window of claim C1. When the command's
  device has a non-empty sub-device list, the record has one slice per sub-device,
  numbered from 0; otherwise it has exactly one slice.
\<close>

theorem C7_kernel_interval:
  "(ProcessCall drv call s = Inr s' \<and> deref s (command call) = Inr cmd \<and>
    zeEventQueryKernelTimestamp drv (event cmd) = (st, start, end) \<longrightarrow>
      (\<exists>r. kernel_interval_list s' = kernel_interval_list s @ [r] \<and>
         kernel_name r = resolved_name (verbose s) (props cmd) \<and>
         list_all (\<lambda>iv. iv_start iv = start * 1000000000 div timer_frequency cmd \<and>
            iv_end iv = iv_start iv + kernel_duration start end (timer_frequency cmd) \<and>
            iv_start iv < iv_end iv) (device_interval_list r) \<and>
         (case map_of (device_map s) (cmd_device cmd) of
            Some (x # xs) \<Rightarrow>
              map iv_sub_device_id (device_interval_list r) =
                map of_nat [0..<length (x # xs)]
          | _ \<Rightarrow> length (device_interval_list r) = 1))) \<and>
   (ProcessCalls drv s = Inr s' \<longrightarrow>
      (\<exists>l. kernel_interval_list s' = kernel_interval_list s @ l \<and>
         length l = length (filter (\<lambda>c. call_status drv s c = Some ZE_RESULT_SUCCESS)
           (kernel_call_list s)))) \<and>
   (ProcessCall_event drv ev s = Inr s' \<longrightarrow>
      (\<exists>l. kernel_interval_list s' = kernel_interval_list s @ l)) \<and>
   (OnExitCommandListReset drv cl res s = Inr s' \<longrightarrow>
      (\<exists>l. kernel_interval_list s' = kernel_interval_list s @ l)) \<and>
   (OnExitCommandListDestroy drv cl res s = Inr s' \<longrightarrow>
      (\<exists>l. kernel_interval_list s' = kernel_interval_list s @ l))"
proof (intro conjI impI)
  assume a: "ProcessCall drv call s = Inr s' \<and> deref s (command call) = Inr cmd \<and>
    zeEventQueryKernelTimestamp drv (event cmd) = (st, start, end)"
  then obtain s1 s2 where
    i: "AddKernelInfo (kernel_duration start end (timer_frequency cmd)) (props cmd) s = Inr s1"
    and v: "AddKernelInterval drv cmd s1 = Inr s2"
    and s': "kernel_interval_list s' = kernel_interval_list s2"
    by (auto simp: ProcessCall_def Let_def split: if_splits sum.splits)
  from AddKernelInfo_frame [OF i] obtain m where s1: "s1 = s\<lparr>kernel_info_map := m\<rparr>"
    by blast
  from a have ts: "zeEventQueryKernelTimestamp drv (event cmd) = (st, start, end)" by simp
  define r where "r = last (kernel_interval_list s2)"
  from AddKernelInterval_last [OF v ts r_def] s1 s'
  show "\<exists>r. kernel_interval_list s' = kernel_interval_list s @ [r] \<and>
         kernel_name r = resolved_name (verbose s) (props cmd) \<and>
         list_all (\<lambda>iv. iv_start iv = start * 1000000000 div timer_frequency cmd \<and>
            iv_end iv = iv_start iv + kernel_duration start end (timer_frequency cmd) \<and>
            iv_start iv < iv_end iv) (device_interval_list r) \<and>
         (case map_of (device_map s) (cmd_device cmd) of
            Some (x # xs) \<Rightarrow>
              map iv_sub_device_id (device_interval_list r) =
                map of_nat [0..<length (x # xs)]
          | _ \<Rightarrow> length (device_interval_list r) = 1)"
    by (intro exI [of _ r]) (simp add: NSEC_IN_SEC_def)
next
  assume p: "ProcessCalls drv s = Inr s'"
  from ProcessCalls_Inr(3) [OF p] obtain s1 where
    f: "finalize_calls drv
          (filter (\<lambda>c. call_status drv s c = Some ZE_RESULT_SUCCESS) (kernel_call_list s)) s =
        Inr s1"
    and s': "s' = s1\<lparr>kernel_call_list := kernel_call_list s'\<rparr>"
    by blast
  from s' have "kernel_interval_list s' = kernel_interval_list s1"
    by (metis collector.select_convs(7) collector.surjective collector.update_convs(5))
  with finalize_calls_frame [OF f]
  show "\<exists>l. kernel_interval_list s' = kernel_interval_list s @ l \<and>
         length l = length (filter (\<lambda>c. call_status drv s c = Some ZE_RESULT_SUCCESS)
           (kernel_call_list s))"
    by auto
next
  assume "ProcessCall_event drv ev s = Inr s'"
  then show "\<exists>l. kernel_interval_list s' = kernel_interval_list s @ l"
    by (auto simp: ProcessCall_event_def split: if_splits dest: ProcessCall_event_frame)
next
  assume "OnExitCommandListReset drv cl res s = Inr s'"
  then show "\<exists>l. kernel_interval_list s' = kernel_interval_list s @ l"
    by (auto simp: OnExitCommandListReset_def ResetCommandList_def RemoveKernelCommands_def
        split: if_splits sum.splits option.splits
        dest!: ProcessCalls_frame(5) remove_commands_Inr)
next
  assume "OnExitCommandListDestroy drv cl res s = Inr s'"
  then show "\<exists>l. kernel_interval_list s' = kernel_interval_list s @ l"
    by (auto simp: OnExitCommandListDestroy_def RemoveCommandList_def RemoveKernelCommands_def
        split: if_splits sum.splits option.splits
        dest!: ProcessCalls_frame(5) remove_commands_Inr)
qed

theorem C7_kernel_interval_witness:
  "(\<exists>r. kernel_interval_list ex_final = kernel_interval_list ex_collector @ [r] \<and>
      list_all (\<lambda>iv. iv_start iv = 600 \<and> iv_end iv = 900) (device_interval_list r) \<and>
      length (device_interval_list r) = 1) \<and>
   (\<exists>r. kernel_interval_list ex_tiles_final = kernel_interval_list ex_tiles @ [r] \<and>
      list_all (\<lambda>iv. iv_start iv = 600 \<and> iv_end iv = 900) (device_interval_list r) \<and>
      map iv_sub_device_id (device_interval_list r) = [0, 1]) \<and>
   (\<exists>l. kernel_interval_list ex_swept = kernel_interval_list ex_pending @ l \<and> length l = 1) \<and>
   (\<exists>l. kernel_interval_list ex_swept = kernel_interval_list ex_pending @ l) \<and>
   (\<exists>s' l. OnExitCommandListReset ex_driver 10 ZE_RESULT_SUCCESS ex_collector = Inr s' \<and>
      kernel_interval_list s' = kernel_interval_list ex_collector @ l) \<and>
   (\<exists>s' l. OnExitCommandListDestroy ex_driver 10 ZE_RESULT_SUCCESS ex_collector = Inr s' \<and>
      kernel_interval_list s' = kernel_interval_list ex_collector @ l)"
proof -
  have d: "deref ex_tiles (command ex_call) = Inr ex_command"
    by (simp add: ex_defs deref_def nullptr_def)
  have m: "map_of (device_map ex_collector) (cmd_device ex_command) = Some []"
    "map_of (device_map ex_tiles) (cmd_device ex_command) = Some [4, 6]"
    "timer_frequency ex_command = 1000000000"
    "kernel_duration 600 900 1000000000 = 300"
    by (simp_all add: ex_defs kernel_duration_def NSEC_IN_SEC_def)
  from C7_kernel_interval [of ex_driver ex_call ex_collector ex_final ex_command
      ZE_RESULT_SUCCESS 600 900] ex_ProcessCall ex_deref ex_timestamp
  obtain r where "kernel_interval_list ex_final = kernel_interval_list ex_collector @ [r]"
    "list_all (\<lambda>iv. iv_start iv = 600 * 1000000000 div timer_frequency ex_command \<and>
            iv_end iv = iv_start iv + kernel_duration 600 900 (timer_frequency ex_command) \<and>
            iv_start iv < iv_end iv) (device_interval_list r)"
    "(case map_of (device_map ex_collector) (cmd_device ex_command) of
            Some (x # xs) \<Rightarrow>
              map iv_sub_device_id (device_interval_list r) =
                map of_nat [0..<length (x # xs)]
          | _ \<Rightarrow> length (device_interval_list r) = 1)"
    by blast
  then have 1: "\<exists>r. kernel_interval_list ex_final = kernel_interval_list ex_collector @ [r] \<and>
      list_all (\<lambda>iv. iv_start iv = 600 \<and> iv_end iv = 900) (device_interval_list r) \<and>
      length (device_interval_list r) = 1"
    by (auto simp: m list_all_iff)
  from C7_kernel_interval [of ex_driver ex_call ex_tiles ex_tiles_final ex_command
      ZE_RESULT_SUCCESS 600 900] ex_tiles_ProcessCall d ex_timestamp
  obtain r where "kernel_interval_list ex_tiles_final = kernel_interval_list ex_tiles @ [r]"
    "list_all (\<lambda>iv. iv_start iv = 600 * 1000000000 div timer_frequency ex_command \<and>
            iv_end iv = iv_start iv + kernel_duration 600 900 (timer_frequency ex_command) \<and>
            iv_start iv < iv_end iv) (device_interval_list r)"
    "(case map_of (device_map ex_tiles) (cmd_device ex_command) of
            Some (x # xs) \<Rightarrow>
              map iv_sub_device_id (device_interval_list r) =
                map of_nat [0..<length (x # xs)]
          | _ \<Rightarrow> length (device_interval_list r) = 1)"
    by blast
  then have 2: "\<exists>r. kernel_interval_list ex_tiles_final = kernel_interval_list ex_tiles @ [r] \<and>
      list_all (\<lambda>iv. iv_start iv = 600 \<and> iv_end iv = 900) (device_interval_list r) \<and>
      map iv_sub_device_id (device_interval_list r) = [0, 1]"
    by (auto simp: m list_all_iff upt_rec)
  have l: "kernel_call_list ex_pending = [ex_call2, ex_call]"
    by (simp add: ex_pending_def)
  have f: "filter (\<lambda>c. call_status ex_driver ex_pending c = Some ZE_RESULT_SUCCESS)
      (kernel_call_list ex_pending) = [ex_call]"
    by (simp add: l ex_status)
  from C7_kernel_interval [of ex_driver ex_call ex_pending ex_swept ex_command
      ZE_RESULT_SUCCESS 600 900 8 10 ZE_RESULT_SUCCESS] ex_ProcessCalls f
  have 3: "\<exists>l. kernel_interval_list ex_swept = kernel_interval_list ex_pending @ l \<and> length l = 1"
    by simp
  have e: "ProcessCall_event ex_driver 8 ex_pending = Inr ex_swept"
    by (simp add: ProcessCall_event_def ex_swept_def ex_defs run_defs)
  from C7_kernel_interval [of ex_driver ex_call ex_pending ex_swept ex_command
      ZE_RESULT_SUCCESS 600 900 8 10 ZE_RESULT_SUCCESS] e
  have 4: "\<exists>l. kernel_interval_list ex_swept = kernel_interval_list ex_pending @ l"
    by blast
  from ex_reset_run obtain s5 where
    r5: "OnExitCommandListReset ex_driver 10 ZE_RESULT_SUCCESS ex_collector = Inr s5"
    by blast
  from C7_kernel_interval [of ex_driver ex_call ex_collector s5 ex_command
      ZE_RESULT_SUCCESS 600 900 8 10 ZE_RESULT_SUCCESS] r5
  have 5: "\<exists>s' l. OnExitCommandListReset ex_driver 10 ZE_RESULT_SUCCESS ex_collector = Inr s' \<and>
      kernel_interval_list s' = kernel_interval_list ex_collector @ l"
    by blast
  from ex_destroy_run obtain s6 where
    r6: "OnExitCommandListDestroy ex_driver 10 ZE_RESULT_SUCCESS ex_collector = Inr s6"
    by blast
  from C7_kernel_interval [of ex_driver ex_call ex_collector s6 ex_command
      ZE_RESULT_SUCCESS 600 900 8 10 ZE_RESULT_SUCCESS] r6
  have 6: "\<exists>s' l. OnExitCommandListDestroy ex_driver 10 ZE_RESULT_SUCCESS ex_collector = Inr s' \<and>
      kernel_interval_list s' = kernel_interval_list ex_collector @ l"
    by blast
  from 1 2 3 4 5 6 show ?thesis by blast
qed

text \<open>
  In the scenario the callback receives the host-anchored window 1100 to 1400, while
  the slice of the appended record is 600 to 900: the device ticks in nanoseconds.
\<close>

theorem C7_kernel_interval_counterexample:
  "ProcessCall ex_driver ex_call ex_collector = Inr ex_final \<and>
   map cb_started (callback_log ex_final) = [1100] \<and>
   map cb_ended (callback_log ex_final) = [1400] \<and>
   map device_interval_list (kernel_interval_list ex_final) =
     [[\<lparr>iv_start = 600, iv_end = 900, iv_sub_device_id = 0\<rparr>]]"
  using ex_ProcessCall by (simp add: ex_final_def)

section \<open>The aggregated row\<close>

text \<open>
  In the example a single report whose averaged cell is \<open>2^63\<close>, with 2 clocks, gives
  the average 0: the product wraps around. A single report with no clocks ends in the
  assertion on the total clocks.
\<close>

theorem C4_aggregated_row_counterexample:
  "(\<forall>fp. GetAggregatedMetrics (ex_profiler [ex_reports_overflow]) fp 50 150 0 0 1 =
      Inr [UINT64 100, UINT64 2, UINT64 10, UINT64 0, UINT64 10]) \<and>
   ex_reports_overflow ! 3 = UINT64 9223372036854775808 \<and>
   (\<forall>fp. GetAggregatedMetrics (ex_profiler [ex_reports_idle]) fp 50 150 0 0 1 =
      Inl (PTI_ASSERT ''total_clocks > 0''))"
  by (simp add: prof_defs ex_reports_overflow_def ex_reports_idle_def)

text \<open>
  Claim C4, amended. In a row that \<^verbatim>\<open>GetAggregatedMetrics\<close> returns for a non-empty set
  of matching reports, a summed column holds the sum of the column's cells and an
  averaged column holds the sum of the products of cell and clocks, divided by the sum
  of the clocks, which is positive. Integer cells (32 or 64 bits) are widened to 64
  bits and all their arithmetic is 64-bit unsigned, wrapping; floating-point cells are
  accumulated in \<^verbatim>\<open>double\<close> in the order of the reports. With exactly one matching
  report a summed integer column holds the report's cell, and an averaged integer
  column holds it when the product of the cell and the report's clocks does not wrap.
\<close>

theorem C4_aggregated_row:
  assumes "GetAggregatedMetrics pr fp start end sd tid gid = Inr row"
    and "metric_collector pr = Some mc"
    and "GetMetricInterval pr start end sd tid = Inr rl"
    and "rl \<noteq> []"
    and "n = GetReportSize mc sd"
    and "i < n"
    and "ml = GetMetricList mc sd"
    and "mtl = GetMetricTypeList mc sd"
  shows "length row = n \<and>
     (is_sum_column ml mtl i \<and> is_integer_value (rl ! i) \<longrightarrow>
        row ! i = UINT64 (value_sum (column rl n i))) \<and>
     (is_sum_column ml mtl i \<and> is_float_value (rl ! i) \<longrightarrow>
        row ! i = FLOAT64 (float_sum fp (column rl n i))) \<and>
     (is_average_column ml mtl i \<longrightarrow> 0 < value_sum (column rl n gid)) \<and>
     (is_average_column ml mtl i \<and> is_integer_value (rl ! i) \<longrightarrow>
        row ! i = UINT64 (weighted_sum (column rl n i) (column rl n gid) div
                    value_sum (column rl n gid))) \<and>
     (is_average_column ml mtl i \<and> is_float_value (rl ! i) \<longrightarrow>
        row ! i = FLOAT64 (fp64_div fp
                    (float_weighted_sum fp (column rl n i) (column rl n gid))
                    (fp64_of_u64 fp (value_sum (column rl n gid))))) \<and>
     (length rl = n \<and> is_sum_column ml mtl i \<and> is_integer_value (rl ! i) \<longrightarrow>
        row ! i = UINT64 (u64_value (rl ! i))) \<and>
     (length rl = n \<and> is_average_column ml mtl i \<and> is_integer_value (rl ! i) \<and>
      unat (u64_value (rl ! i)) * unat (u64_value (rl ! gid)) < 2 ^ 64 \<longrightarrow>
        row ! i = UINT64 (u64_value (rl ! i)))"
proof -
  let ?tc = "value_sum (column rl n gid)"
  from GetAggregatedMetrics_Inr [OF assms(1-5)] have n: "0 < n" by blast
  from GetAggregatedMetrics_column [OF assms(1-6)] assms(7,8) obtain y where
    l: "length row = n"
    and y: "aggregate_column fp ml mtl rl n ?tc gid i = Inr y"
    and r: "row ! i = (case y of None \<Rightarrow> UINT32 0 | Some v \<Rightarrow> v)"
    by blast
  have s: "is_sum_column ml mtl i \<Longrightarrow> ComputeTotalValue fp i rl n = Inr (row ! i)"
    using y r by (cases "ComputeTotalValue fp i rl n") (auto simp: aggregate_column_sum)
  have a: "is_average_column ml mtl i \<Longrightarrow>
      ComputeAverageValue fp i rl n ?tc gid = Inr (row ! i)"
    using y r
    by (cases "ComputeAverageValue fp i rl n ?tc gid") (auto simp: aggregate_column_average)
  have 1: "is_sum_column ml mtl i \<and> is_integer_value (rl ! i) \<longrightarrow>
        row ! i = UINT64 (value_sum (column rl n i))"
    using s ComputeTotalValue_integer by blast
  have 2: "is_sum_column ml mtl i \<and> is_float_value (rl ! i) \<longrightarrow>
        row ! i = FLOAT64 (float_sum fp (column rl n i))"
    using s ComputeTotalValue_float by blast
  have 3: "is_average_column ml mtl i \<longrightarrow> 0 < ?tc"
    using a ComputeAverageValue_positive by blast
  have 4: "is_average_column ml mtl i \<and> is_integer_value (rl ! i) \<longrightarrow>
        row ! i = UINT64 (weighted_sum (column rl n i) (column rl n gid) div ?tc)"
    using a ComputeAverageValue_integer by blast
  have 5: "is_average_column ml mtl i \<and> is_float_value (rl ! i) \<longrightarrow>
        row ! i = FLOAT64 (fp64_div fp
                    (float_weighted_sum fp (column rl n i) (column rl n gid))
                    (fp64_of_u64 fp ?tc))"
    using a ComputeAverageValue_float by blast
  have 6: "length rl = n \<and> is_sum_column ml mtl i \<and> is_integer_value (rl ! i) \<longrightarrow>
        row ! i = UINT64 (u64_value (rl ! i))"
    using 1 n by (auto simp: single_report_column value_sum_def)
  have 7: "length rl = n \<and> is_average_column ml mtl i \<and> is_integer_value (rl ! i) \<and>
      unat (u64_value (rl ! i)) * unat (u64_value (rl ! gid)) < 2 ^ 64 \<longrightarrow>
        row ! i = UINT64 (u64_value (rl ! i))"
  proof (intro impI)
    assume h: "length rl = n \<and> is_average_column ml mtl i \<and> is_integer_value (rl ! i) \<and>
      unat (u64_value (rl ! i)) * unat (u64_value (rl ! gid)) < 2 ^ 64"
    with n have c: "column rl n i = [rl ! i]" "column rl n gid = [rl ! gid]"
      by (simp_all add: single_report_column)
    from h 3 c have p: "0 < u64_value (rl ! gid)" by (simp add: value_sum_def)
    from h 4 c have "row ! i = UINT64 (u64_value (rl ! i) * u64_value (rl ! gid) div
        u64_value (rl ! gid))"
      by (simp add: weighted_sum_def value_sum_def)
    with h p show "row ! i = UINT64 (u64_value (rl ! i))"
      by (simp add: word_mul_div_cancel)
  qed
  from l 1 2 3 4 5 6 7 show ?thesis by blast
qed

theorem C4_aggregated_row_witness:
  "\<forall>fp. (\<exists>row. GetAggregatedMetrics (ex_profiler [ex_reports]) fp 50 250 0 0 1 = Inr row \<and>
            length row = 5 \<and> row ! 2 = UINT64 30 \<and> row ! 3 = UINT64 16 \<and>
            row ! 4 = UINT64 16) \<and>
         (\<exists>row. GetAggregatedMetrics (ex_profiler [ex_reports]) fp 50 150 0 0 1 = Inr row \<and>
            length row = 5 \<and> row ! 2 = UINT64 10 \<and> row ! 3 = UINT64 10)"
proof (intro allI conjI)
  fix fp
  let ?mc = "ex_metric_collector [ex_reports]"
  let ?row = "[UINT64 100, UINT64 5, UINT64 30, UINT64 16, UINT64 16]"
  note t = C4_aggregated_row [OF ex_aggregated_two ex_collector_fields(1) ex_interval_two
      ex_cells(9) ex_collector_fields(2) [symmetric] _ refl refl, of _ fp]
  from t [of 2] ex_rules(1) ex_cells(1)
  have 2: "?row ! 2 = UINT64 (value_sum (column ex_reports 5 2))"
    by simp
  from t [of 3] ex_rules(2) ex_cells(2)
  have 3: "?row ! 3 = UINT64 (weighted_sum (column ex_reports 5 3) (column ex_reports 5 1) div
      value_sum (column ex_reports 5 1))"
    by simp
  from t [of 4] ex_rules(3) ex_cells(3)
  have 4: "?row ! 4 = UINT64 (weighted_sum (column ex_reports 5 4) (column ex_reports 5 1) div
      value_sum (column ex_reports 5 1))"
    by simp
  from t [of 2] have 5: "length ?row = 5" by simp
  have v: "value_sum (column ex_reports 5 2) = 30"
    "weighted_sum (column ex_reports 5 3) (column ex_reports 5 1) div
      value_sum (column ex_reports 5 1) = 16"
    "weighted_sum (column ex_reports 5 4) (column ex_reports 5 1) div
      value_sum (column ex_reports 5 1) = 16"
    by (simp_all add: ex_columns value_sum_def weighted_sum_def u64_value_def)
  from 2 3 4 5 v ex_aggregated_two [of fp]
  show "\<exists>row. GetAggregatedMetrics (ex_profiler [ex_reports]) fp 50 250 0 0 1 = Inr row \<and>
            length row = 5 \<and> row ! 2 = UINT64 30 \<and> row ! 3 = UINT64 16 \<and>
            row ! 4 = UINT64 16"
    by simp
next
  fix fp
  let ?row = "[UINT64 100, UINT64 2, UINT64 10, UINT64 10, UINT64 10]"
  note t = C4_aggregated_row [OF ex_aggregated_one ex_collector_fields(1) ex_interval_one
      ex_cells(10) ex_collector_fields(2) [symmetric] _ refl refl, of _ fp]
  from t [of 2] ex_rules(1) ex_cells(4,7,11)
  have 2: "?row ! 2 = UINT64 10"
    by simp
  from t [of 3] ex_rules(2) ex_cells(5,6,8,11)
  have 3: "?row ! 3 = UINT64 10"
    by simp
  from 2 3 ex_aggregated_one [of fp]
  show "\<exists>row. GetAggregatedMetrics (ex_profiler [ex_reports]) fp 50 150 0 0 1 = Inr row \<and>
            length row = 5 \<and> row ! 2 = UINT64 10 \<and> row ! 3 = UINT64 10"
    by simp
qed

section \<open>The total clocks\<close>

text \<open>
  Two matching reports with \<open>2^63\<close> clocks each have the 64-bit clock sum 0, and the
  aggregation ends in the assertion on the total clocks.
\<close>

theorem C9_total_clocks_counterexample:
  "(\<forall>fp. GetAggregatedMetrics (ex_profiler [ex_reports_wrap]) fp 50 250 0 0 1 =
      Inl (PTI_ASSERT ''total_clocks > 0'')) \<and>
   column ex_reports_wrap 5 1 = [UINT64 9223372036854775808, UINT64 9223372036854775808]"
  by (simp add: prof_defs ex_reports_wrap_def column_def)

text \<open>
  Claim C9, amended. \<^verbatim>\<open>ComputeAverageValue\<close> called with zero total clocks ends in a
  fatal error, the failed assertion \<^verbatim>\<open>total_clocks > 0\<close> when the assertions before it
  hold; whenever it returns a value the divisor was positive. When the clock counts of
  the matching reports add up to less than \<open>2^64\<close> and one of them is positive,
  \<^verbatim>\<open>GetAggregatedMetrics\<close> does not end in that assertion.
\<close>

theorem C9_total_clocks:
  "(rl \<noteq> [] \<and> 0 < n \<and> m < n \<and> g < n \<longrightarrow>
      ComputeAverageValue fp m rl n 0 g = Inl (PTI_ASSERT ''total_clocks > 0'')) \<and>
   (\<exists>e. ComputeAverageValue fp m rl n 0 g = Inl e) \<and>
   (ComputeAverageValue fp m rl n tc g = Inr r \<longrightarrow> 0 < tc) \<and>
   (metric_collector pr = Some mc \<and> GetMetricInterval pr start end sd tid = Inr rl \<and>
    n = GetReportSize mc sd \<and>
    sum_list (map (\<lambda>c. unat (u64_value c)) (column rl n gid)) < 2 ^ 64 \<and>
    list_ex (\<lambda>c. 0 < u64_value c) (column rl n gid) \<longrightarrow>
      GetAggregatedMetrics pr fp start end sd tid gid \<noteq>
        Inl (PTI_ASSERT ''total_clocks > 0''))"
proof (intro conjI impI)
  assume "rl \<noteq> [] \<and> 0 < n \<and> m < n \<and> g < n"
  then show "ComputeAverageValue fp m rl n 0 g = Inl (PTI_ASSERT ''total_clocks > 0'')"
    by (simp add: ComputeAverageValue_def)
next
  show "\<exists>e. ComputeAverageValue fp m rl n 0 g = Inl e"
    by (simp add: ComputeAverageValue_def)
next
  assume "ComputeAverageValue fp m rl n tc g = Inr r"
  then show "0 < tc" by (rule ComputeAverageValue_positive)
next
  assume h: "metric_collector pr = Some mc \<and> GetMetricInterval pr start end sd tid = Inr rl \<and>
    n = GetReportSize mc sd \<and>
    sum_list (map (\<lambda>c. unat (u64_value c)) (column rl n gid)) < 2 ^ 64 \<and>
    list_ex (\<lambda>c. 0 < u64_value c) (column rl n gid)"
  then have "0 < sum_list (map u64_value (column rl n gid))"
    by (intro positive_sum) (auto simp: o_def list_ex_iff)
  then have p: "0 < value_sum (column rl n gid)" by (simp add: value_sum_def)
  show "GetAggregatedMetrics pr fp start end sd tid gid \<noteq>
        Inl (PTI_ASSERT ''total_clocks > 0'')"
  proof
    assume "GetAggregatedMetrics pr fp start end sd tid gid =
        Inl (PTI_ASSERT ''total_clocks > 0'')"
    from GetAggregatedMetrics_total_clocks_error [OF this] h p show False by blast
  qed
qed

theorem C9_total_clocks_witness:
  "\<forall>fp. ComputeAverageValue fp 3 ex_reports 5 0 1 = Inl (PTI_ASSERT ''total_clocks > 0'') \<and>
     GetAggregatedMetrics (ex_profiler [ex_reports]) fp 50 250 0 0 1 \<noteq>
       Inl (PTI_ASSERT ''total_clocks > 0'')"
proof (intro allI)
  fix fp
  have h: "sum_list (map (\<lambda>c. unat (u64_value c)) (column ex_reports 5 1)) < 2 ^ 64"
    "list_ex (\<lambda>c. 0 < u64_value c) (column ex_reports 5 1)"
    by (simp_all add: ex_columns u64_value_def)
  note t = C9_total_clocks [of ex_reports 5 3 1 fp 0 "UINT64 0" "ex_profiler [ex_reports]"
      "ex_metric_collector [ex_reports]" 50 250 0 0 1]
  from t ex_cells(9) have 1: "ComputeAverageValue fp 3 ex_reports 5 0 1 =
      Inl (PTI_ASSERT ''total_clocks > 0'')"
    by simp
  from t ex_collector_fields(1,2) ex_interval_two h
  have 2: "GetAggregatedMetrics (ex_profiler [ex_reports]) fp 50 250 0 0 1 \<noteq>
       Inl (PTI_ASSERT ''total_clocks > 0'')"
    by simp
  from 1 2 show "ComputeAverageValue fp 3 ex_reports 5 0 1 =
      Inl (PTI_ASSERT ''total_clocks > 0'') \<and>
     GetAggregatedMetrics (ex_profiler [ex_reports]) fp 50 250 0 0 1 \<noteq>
       Inl (PTI_ASSERT ''total_clocks > 0'')"
    by simp
qed

section \<open>A window without reports\<close>

text \<open>
  Claim C10. When no report that the reader yields has its time in \<open>[start, end]\<close>,
  \<^verbatim>\<open>GetAggregatedMetrics\<close> never ends in the assertion on the total clocks, every row
  it returns is empty, its result is that of \<^verbatim>\<open>GetMetricInterval\<close> with the reports
  dropped (no column is computed), and on input that meets the assertions on the
  window, the sub-device, the sizes and the form of the batches it returns the empty
  row.
\<close>

theorem C10_empty_window:
  assumes "metric_collector pr = Some mc"
    and "n = GetReportSize mc sd"
    and "no_report_in_window start end tid n (report_chunks mc sd)"
  shows "GetAggregatedMetrics pr fp start end sd tid gid \<noteq> Inl (PTI_ASSERT ''total_clocks > 0'') \<and>
     (\<forall>row. GetAggregatedMetrics pr fp start end sd tid gid = Inr row \<longrightarrow> row = []) \<and>
     (0 < n \<and> length (GetMetricList mc sd) = n \<and> length (GetMetricTypeList mc sd) = n \<longrightarrow>
        GetAggregatedMetrics pr fp start end sd tid gid =
          map_sum id (\<lambda>report_list. []) (GetMetricInterval pr start end sd tid)) \<and>
     (start < end \<and> sd < sub_device_count pr \<and> 0 < n \<and> tid < n \<and>
      length (GetMetricList mc sd) = n \<and> length (GetMetricTypeList mc sd) = n \<and>
      well_formed_chunks tid n (report_chunks mc sd) \<longrightarrow>
        GetAggregatedMetrics pr fp start end sd tid gid = Inr [])"
proof -
  have e: "\<And>rl. GetMetricInterval pr start end sd tid = Inr rl \<Longrightarrow> rl = []"
    using assms scan_no_match [of start "end" tid n "report_chunks mc sd" "[]"]
    by (auto simp: GetMetricInterval_def Let_def split: if_splits)
  have cases: "GetAggregatedMetrics pr fp start end sd tid gid = Inr [] \<or>
      (\<exists>err. GetAggregatedMetrics pr fp start end sd tid gid = Inl err \<and>
         err \<noteq> PTI_ASSERT ''total_clocks > 0'')"
  proof (cases "GetMetricInterval pr start end sd tid")
    case (Inl err)
    with GetMetricInterval_error [OF Inl] assms(1) show ?thesis
      by (auto simp: GetAggregatedMetrics_def Let_def)
  next
    case (Inr rl)
    with e assms(1) show ?thesis
      by (auto simp: GetAggregatedMetrics_def Let_def)
  qed
  then have 1: "GetAggregatedMetrics pr fp start end sd tid gid \<noteq>
      Inl (PTI_ASSERT ''total_clocks > 0'')"
    and 2: "\<forall>row. GetAggregatedMetrics pr fp start end sd tid gid = Inr row \<longrightarrow> row = []"
    by auto
  have 3: "0 < n \<and> length (GetMetricList mc sd) = n \<and> length (GetMetricTypeList mc sd) = n \<longrightarrow>
        GetAggregatedMetrics pr fp start end sd tid gid =
          map_sum id (\<lambda>report_list. []) (GetMetricInterval pr start end sd tid)"
  proof (cases "GetMetricInterval pr start end sd tid")
    case (Inl err)
    with assms(1,2) show ?thesis
      by (auto simp: GetAggregatedMetrics_def GetMetricInterval_def Let_def split: if_splits)
  next
    case (Inr rl)
    with e [OF Inr] assms(1,2) show ?thesis
      by (auto simp: GetAggregatedMetrics_def GetMetricInterval_def Let_def split: if_splits)
  qed
  have 4: "start < end \<and> sd < sub_device_count pr \<and> 0 < n \<and> tid < n \<and>
      length (GetMetricList mc sd) = n \<and> length (GetMetricTypeList mc sd) = n \<and>
      well_formed_chunks tid n (report_chunks mc sd) \<longrightarrow>
        GetAggregatedMetrics pr fp start end sd tid gid = Inr []"
  proof (intro impI)
    assume h: "start < end \<and> sd < sub_device_count pr \<and> 0 < n \<and> tid < n \<and>
      length (GetMetricList mc sd) = n \<and> length (GetMetricTypeList mc sd) = n \<and>
      well_formed_chunks tid n (report_chunks mc sd)"
    with scan_well_formed [OF assms(3), of "[]"]
    have "scan_chunks start end tid n (report_chunks mc sd) [] = Inr []" by simp
    with h assms(1,2) show "GetAggregatedMetrics pr fp start end sd tid gid = Inr []"
      by (simp add: GetAggregatedMetrics_def GetMetricInterval_def Let_def)
  qed
  from 1 2 3 4 show ?thesis by blast
qed

theorem C10_empty_window_witness:
  "\<forall>fp. GetAggregatedMetrics (ex_profiler [ex_reports]) fp 300 400 0 0 1 = Inr []"
proof
  fix fp
  have n: "no_report_in_window 300 400 0 5
      (report_chunks (ex_metric_collector [ex_reports]) 0)"
    by (simp add: no_report_in_window_def ex_collector_fields ex_columns in_window_def)
  have w: "well_formed_chunks 0 5 (report_chunks (ex_metric_collector [ex_reports]) 0)"
    by (simp add: well_formed_chunks_def ex_collector_fields ex_columns is_time_value_def)
       (simp add: ex_reports_def)
  let ?mc = "ex_metric_collector [ex_reports]"
  from C10_empty_window [OF ex_collector_fields(1) ex_collector_fields(2) [symmetric] n,
      of fp 1]
  have "(300 :: u64) < 400 \<and> 0 < sub_device_count (ex_profiler [ex_reports]) \<and>
      (0 :: nat) < 5 \<and> (0 :: nat) < 5 \<and>
      length (GetMetricList ?mc 0) = 5 \<and> length (GetMetricTypeList ?mc 0) = 5 \<and>
      well_formed_chunks 0 5 (report_chunks ?mc 0) \<longrightarrow>
        GetAggregatedMetrics (ex_profiler [ex_reports]) fp 300 400 0 0 1 = Inr []"
    by blast
  with w show "GetAggregatedMetrics (ex_profiler [ex_reports]) fp 300 400 0 0 1 = Inr []"
    by (simp add: ex_collector_fields)
qed

end
